(* ===== verification/Prelude.thy ===== *)
theory Prelude
  imports Main "HOL-Library.AList" "HOL-Library.Multiset" "HOL-Library.List_Lexorder"
    "HOL-Library.Char_ord" "HOL-Library.Sublist" "HOL-Library.Word"
begin

section \<open>Go values: errors, nilable maps, sorted keys, range loops\<close>

text \<open>
  What every component shares.

  \<^item> Errors. A Go function that returns \<open>(T, error)\<close> returns \<open>goerr + T\<close>; one that
    returns only \<open>error\<close> returns \<open>goerr option\<close>, with \<open>None\<close> for \<open>nil\<close>.
    A run-time panic (a nil dereference, an index out of range, a reflect panic) is the
    error value \<open>GoPanic\<close>, so it travels up the call chain like an error that nobody
    inspects.
  \<^item> Maps. A Go map is the list of its entries, in the order in which \<open>range\<close> visits
    them; the runtime picks that order, so a result that depends on it is visible here.
    A map value is well formed when its keys are distinct, and two lists are the same Go
    map when they agree as partial functions. A nilable map is an \<open>option\<close>.
  \<^item> Strings are byte strings (\<open>char list\<close>), ordered lexicographically by byte as in Go.
  \<^item> \<open>int\<close> is \<open>64 word\<close> and \<open>int32\<close> is \<open>32 word\<close>.
\<close>

subsection \<open>Errors\<close>

datatype api_reason = ReasonNotFound | ReasonBadRequest | ReasonOther string

datatype goerr =
    ErrorString string
  | APIStatus api_reason string
  | StateAlreadyRegisteredError string
  | StateNotRegisteredError string
  | DeveloperError string
  | GoPanic string

fun IsNotFound :: "goerr option \<Rightarrow> bool" where
  "IsNotFound (Some (APIStatus ReasonNotFound _)) = True"
| "IsNotFound _ = False"

fun is_panic :: "goerr \<Rightarrow> bool" where
  "is_panic (GoPanic _) = True"
| "is_panic _ = False"

lemma IsNotFound_iff: "IsNotFound e \<longleftrightarrow> (\<exists>m. e = Some (APIStatus ReasonNotFound m))"
  by (cases e rule: IsNotFound.cases) auto

lemma IsNotFound_None [simp]: "\<not> IsNotFound None"
  by simp

text \<open>A dereference of a nil pointer is a panic.\<close>

definition deref :: "'a option \<Rightarrow> goerr + 'a" where
  "deref p = (case p of None \<Rightarrow> Inl (GoPanic ''nil pointer dereference'') | Some x \<Rightarrow> Inr x)"

lemma deref_simps [simp]:
  "deref None = Inl (GoPanic ''nil pointer dereference'')"
  "deref (Some x) = Inr x"
  by (simp_all add: deref_def)

lemma deref_Inr_iff [simp]: "deref p = Inr x \<longleftrightarrow> p = Some x"
  by (cases p) auto

definition rbind :: "goerr + 'a \<Rightarrow> ('a \<Rightarrow> goerr + 'b) \<Rightarrow> goerr + 'b" where
  "rbind r f = (case r of Inl e \<Rightarrow> Inl e | Inr x \<Rightarrow> f x)"

lemma rbind_simps [simp]:
  "rbind (Inl e) f = Inl e"
  "rbind (Inr x) f = f x"
  by (simp_all add: rbind_def)

lemma rbind_Inr_iff: "rbind r f = Inr y \<longleftrightarrow> (\<exists>x. r = Inr x \<and> f x = Inr y)"
  by (cases r) auto

lemma rbind_assoc: "rbind (rbind r f) g = rbind r (\<lambda>x. rbind (f x) g)"
  by (cases r) auto

text \<open>A loop that appends one element per iteration and stops at the first error.\<close>

fun mapM :: "('a \<Rightarrow> goerr + 'b) \<Rightarrow> 'a list \<Rightarrow> goerr + 'b list" where
  "mapM f [] = Inr []"
| "mapM f (x # xs) = rbind (f x) (\<lambda>y. rbind (mapM f xs) (\<lambda>ys. Inr (y # ys)))"

lemma mapM_Inr_iff: "mapM f xs = Inr ys \<longleftrightarrow> list_all2 (\<lambda>x y. f x = Inr y) xs ys"
proof (induction xs arbitrary: ys)
  case Nil
  then show ?case by auto
next
  case (Cons x xs)
  then show ?case by (cases ys) (auto simp: rbind_Inr_iff)
qed

lemma mapM_total: "(\<And>x. x \<in> set xs \<Longrightarrow> f x = Inr (g x)) \<Longrightarrow> mapM f xs = Inr (map g xs)"
  by (induction xs) auto

lemma mapM_length: "mapM f xs = Inr ys \<Longrightarrow> length ys = length xs"
  by (auto simp: mapM_Inr_iff dest: list_all2_lengthD)

lemma mapM_map:
  assumes "mapM f xs = Inr ys" and "\<And>x y. f x = Inr y \<Longrightarrow> g y = h x"
  shows "map g ys = map h xs"
  using assms(1) unfolding mapM_Inr_iff
  by (induction xs ys rule: list_all2_induct) (auto dest: assms(2))

lemma mapM_ok_iff: "(\<exists>ys. mapM f xs = Inr ys) \<longleftrightarrow> (\<forall>x\<in>set xs. \<exists>y. f x = Inr y)"
  by (induction xs) (auto simp: rbind_Inr_iff)

lemma mapM_in: "mapM f xs = Inr ys \<Longrightarrow> y \<in> set ys \<Longrightarrow> \<exists>x\<in>set xs. f x = Inr y"
  by (induction xs arbitrary: ys) (auto simp: rbind_Inr_iff)

lemma mapM_Inl: "mapM f xs = Inl e \<Longrightarrow> \<exists>x\<in>set xs. f x = Inl e"
proof (induction xs)
  case Nil
  then show ?case by simp
next
  case (Cons x xs)
  then show ?case by (cases "f x"; cases "mapM f xs") auto
qed

lemma mapM_first_error:
  "(\<And>y. y \<in> set ys \<Longrightarrow> \<exists>v. f y = Inr v) \<Longrightarrow> f x = Inl e \<Longrightarrow> mapM f (ys @ x # zs) = Inl e"
proof (induction ys)
  case Nil
  then show ?case by simp
next
  case (Cons y ys)
  then obtain v where "f y = Inr v" by auto
  with Cons show ?case by simp
qed

subsection \<open>Maps\<close>

type_synonym 'v gomap = "(string \<times> 'v) list"

definition wf_map :: "'v gomap \<Rightarrow> bool" where
  "wf_map m \<longleftrightarrow> distinct (map fst m)"

definition same_map :: "'v gomap \<Rightarrow> 'v gomap \<Rightarrow> bool" where
  "same_map m m' \<longleftrightarrow> wf_map m \<and> wf_map m' \<and> mset m = mset m'"

definition entries :: "'v gomap option \<Rightarrow> 'v gomap" where
  "entries m = (case m of None \<Rightarrow> [] | Some xs \<Rightarrow> xs)"

definition mget :: "'v gomap option \<Rightarrow> string \<Rightarrow> 'v option" where
  "mget m k = map_of (entries m) k"

definition mput :: "string \<Rightarrow> 'v \<Rightarrow> 'v gomap \<Rightarrow> 'v gomap" where
  "mput k v m = AList.update k v m"

definition mputs :: "(string \<times> 'v) list \<Rightarrow> 'v gomap \<Rightarrow> 'v gomap" where
  "mputs kvs m = fold (\<lambda>(k, v). mput k v) kvs m"

lemma entries_simps [simp]: "entries None = []" "entries (Some xs) = xs"
  by (simp_all add: entries_def)

lemma mget_simps [simp]: "mget None k = None" "mget (Some xs) k = map_of xs k"
  by (simp_all add: mget_def)

lemma wf_map_Nil [simp]: "wf_map []"
  by (simp add: wf_map_def)

lemma map_of_mput [simp]: "map_of (mput k v m) = (map_of m)(k \<mapsto> v)"
  by (simp add: mput_def update_conv')

lemma wf_mput [simp]: "wf_map m \<Longrightarrow> wf_map (mput k v m)"
  by (simp add: wf_map_def mput_def distinct_update)

lemma set_keys_mput: "fst ` set (mput k v m) = insert k (fst ` set m)"
  by (simp add: mput_def dom_update)

lemma mput_nonempty [simp]: "mput k v m \<noteq> []"
  by (cases m) (auto simp: mput_def)

lemma map_of_mputs: "map_of (mputs kvs m) = map_of m ++ map_of (rev kvs)"
proof (induction kvs arbitrary: m)
  case Nil
  then show ?case by (simp add: mputs_def)
next
  case (Cons kv kvs)
  obtain k v where [simp]: "kv = (k, v)" by (cases kv)
  have "mputs (kv # kvs) m = mputs kvs (mput k v m)"
    by (simp add: mputs_def)
  with Cons.IH [of "mput k v m"] show ?case
    by (simp add: map_add_upd_left map_add_assoc fun_eq_iff map_add_def split: option.splits)
qed

lemma wf_mputs [simp]: "wf_map m \<Longrightarrow> wf_map (mputs kvs m)"
  by (induction kvs arbitrary: m) (auto simp: mputs_def)

lemma same_mapD: "same_map m m' \<Longrightarrow> map_of m = map_of m'"
proof -
  assume "same_map m m'"
  then have d: "distinct (map fst m)" "distinct (map fst m')" and e: "set m = set m'"
    by (auto simp: same_map_def wf_map_def dest: mset_eq_setD)
  show ?thesis by (rule map_of_eqI) (use d e in \<open>auto simp: map_of_eq_Some_iff\<close>)
qed

lemma same_map_refl: "wf_map m \<Longrightarrow> same_map m m"
  by (simp add: same_map_def)

lemma same_map_iff:
  assumes "wf_map m" "wf_map m'"
  shows "same_map m m' \<longleftrightarrow> map_of m = map_of m'"
proof
  assume "map_of m = map_of m'"
  with assms have "set m = set m'"
    by (metis map_of_inject_set wf_map_def)
  moreover from assms have "distinct m" "distinct m'"
    by (auto simp: wf_map_def distinct_map)
  ultimately show "same_map m m'"
    using assms by (simp add: same_map_def set_eq_iff_mset_eq_distinct)
qed (rule same_mapD)

text \<open>\<open>m[k]\<close> for a key that may be absent: the zero value then.\<close>

definition mget_or :: "'v \<Rightarrow> 'v gomap option \<Rightarrow> string \<Rightarrow> 'v" where
  "mget_or z m k = (case mget m k of None \<Rightarrow> z | Some v \<Rightarrow> v)"

text \<open>The keys in sorted order: the order in which the code iterates wherever it matters.\<close>

definition mkeys :: "'v gomap option \<Rightarrow> string list" where
  "mkeys m = map fst (entries m)"

definition getSortedKeys :: "'v gomap option \<Rightarrow> string list" where
  "getSortedKeys m = sort (mkeys m)"

lemma set_getSortedKeys [simp]: "set (getSortedKeys m) = fst ` set (entries m)"
  by (simp add: getSortedKeys_def mkeys_def)

lemma sorted_getSortedKeys: "sorted (getSortedKeys m)"
  by (simp add: getSortedKeys_def)

lemma distinct_getSortedKeys: "wf_map (entries m) \<Longrightarrow> distinct (getSortedKeys m)"
  by (simp add: getSortedKeys_def mkeys_def wf_map_def)

lemma getSortedKeys_None [simp]: "getSortedKeys None = []"
  by (simp add: getSortedKeys_def mkeys_def)

lemma length_getSortedKeys [simp]: "length (getSortedKeys m) = length (entries m)"
  by (simp add: getSortedKeys_def mkeys_def)

lemma getSortedKeys_same:
  "same_map (entries m) (entries m') \<Longrightarrow> getSortedKeys m = getSortedKeys m'"
proof -
  assume "same_map (entries m) (entries m')"
  then have "mset (mkeys m) = mset (mkeys m')"
    by (simp add: same_map_def mkeys_def)
  then show ?thesis
    by (simp add: getSortedKeys_def) (metis properties_for_sort mset_sort sorted_sort)
qed

lemma mget_sorted_key: "k \<in> set (getSortedKeys m) \<Longrightarrow> \<exists>v. mget m k = Some v"
  by (auto simp: mget_def) (metis domD dom_map_of_conv_image_fst image_eqI prod.sel(1))

lemma mget_None_iff: "mget m k = None \<longleftrightarrow> k \<notin> set (getSortedKeys m)"
  by (simp add: mget_def map_of_eq_None_iff)

lemma mget_Some_key: "mget m k = Some v \<Longrightarrow> k \<in> set (getSortedKeys m)"
  using mget_None_iff [of m k] by simp

subsection \<open>Range loops\<close>

text \<open>
  \<open>for k, v := range m { body }\<close> visits the entries in an order the runtime picks. A loop
  whose body acts on a state through \<open>body\<close>, seen through \<open>obs\<close> (which forgets the
  order of the maps it builds), gives the same observation for every order when the
  bodies of distinct keys commute under \<open>obs\<close>. The loops of the code are interpretations
  of this locale.
\<close>

definition range_loop :: "(string \<Rightarrow> 'v \<Rightarrow> 's \<Rightarrow> 's) \<Rightarrow> 'v gomap \<Rightarrow> 's \<Rightarrow> 's" where
  "range_loop body m s = fold (\<lambda>(k, v). body k v) m s"

lemma range_loop_simps [simp]:
  "range_loop body [] s = s"
  "range_loop body ((k, v) # m) s = range_loop body m (body k v s)"
  by (simp_all add: range_loop_def)

locale commuting_range =
  fixes body :: "string \<Rightarrow> 'v \<Rightarrow> 's \<Rightarrow> 's"
    and obs :: "'s \<Rightarrow> 'o"
    and abody :: "string \<Rightarrow> 'v \<Rightarrow> 'o \<Rightarrow> 'o"
  assumes obs_body: "obs (body k v s) = abody k v (obs s)"
    and abody_commute: "k \<noteq> k' \<Longrightarrow> abody k v (abody k' v' x) = abody k' v' (abody k v x)"
begin

lemma obs_range_loop: "obs (range_loop body m s) = fold (\<lambda>(k, v). abody k v) m (obs s)"
  by (induction m arbitrary: s) (auto simp: obs_body)

lemma order_independent:
  assumes "same_map m m'" and "obs s = obs s'"
  shows "obs (range_loop body m s) = obs (range_loop body m' s')"
proof -
  have "fold (\<lambda>(k, v). abody k v) m = fold (\<lambda>(k, v). abody k v) m'"
  proof (rule fold_multiset_equiv)
    show "mset m = mset m'" using assms(1) by (simp add: same_map_def)
  next
    fix x y
    assume "x \<in> set m" "y \<in> set m"
    moreover have "distinct (map fst m)" using assms(1) by (simp add: same_map_def wf_map_def)
    ultimately have "fst x \<noteq> fst y \<or> x = y"
      by (metis eq_key_imp_eq_value prod.collapse)
    then show "(case x of (k, v) \<Rightarrow> abody k v) \<circ> (case y of (k, v) \<Rightarrow> abody k v) =
        (case y of (k, v) \<Rightarrow> abody k v) \<circ> (case x of (k, v) \<Rightarrow> abody k v)"
      by (cases x; cases y) (auto simp: fun_eq_iff intro: abody_commute)
  qed
  with assms(2) show ?thesis by (simp add: obs_range_loop)
qed

end

end
