(* ===== verification/KubeTypes.thy ===== *)
theory KubeTypes
  imports Prelude
begin

section \<open>Kubernetes objects as the operator sees them\<close>

text \<open>
  The structs of the Kubernetes, external-secrets and Longhorn APIs, with the fields that the
  operator reads or writes. They are third-party types and carry no behaviour here. The
  fields of an object that the operator carries along without looking at them are one
  \<open>opaque\<close> payload (\<open>..._Rest\<close>), whose zero value is \<open>no_rest\<close>: an object the operator
  builds has it, an object it has fetched carries whatever the server put there. A nil slice and an
  empty slice are both \<open>[]\<close>; enumerated string types are strings, with the constants of
  the API packages as abbreviations. Field names carry a short prefix for their struct.
\<close>

datatype opaque = Opaque string

definition no_rest :: opaque where
  "no_rest = Opaque []"

type_synonym goint = "64 word"
type_synonym goint32 = "32 word"
text \<open>The conversion \<open>int32(x)\<close> keeps the low 32 bits.\<close>

definition int32 :: "goint \<Rightarrow> goint32" where
  "int32 x = ucast x"

type_synonym strmap = "string gomap"

subsection \<open>Metadata\<close>

record OwnerReference =
  or_APIVersion :: string
  or_Kind :: string
  or_Name :: string
  or_UID :: string

record TypeMeta =
  tm_Kind :: string
  tm_APIVersion :: string

record ObjectMeta =
  om_Name :: string
  om_Namespace :: string
  om_UID :: string
  om_ResourceVersion :: string
  om_Labels :: "strmap option"
  om_Annotations :: "strmap option"
  om_OwnerReferences :: "OwnerReference list"
  om_Rest :: opaque

definition zero_meta :: ObjectMeta where
  "zero_meta = \<lparr>om_Name = [], om_Namespace = [], om_UID = [], om_ResourceVersion = [],
     om_Labels = None, om_Annotations = None, om_OwnerReferences = [], om_Rest = no_rest\<rparr>"

lemma zero_meta_sel [simp]:
  "om_Name zero_meta = []" "om_Namespace zero_meta = []"
  "om_Labels zero_meta = None" "om_Annotations zero_meta = None"
  "om_OwnerReferences zero_meta = []" "om_UID zero_meta = []"
  "om_ResourceVersion zero_meta = []" "om_Rest zero_meta = no_rest"
  by (simp_all add: zero_meta_def)

subsection \<open>Workloads\<close>

type_synonym Probe = opaque
type_synonym Quantity = opaque

text \<open>Resource limits and requests are maps from resource names to quantities.\<close>

record ResourceRequirements =
  rr_Limits :: "Quantity gomap option"
  rr_Requests :: "Quantity gomap option"
  rr_Rest :: opaque

definition zero_resources :: ResourceRequirements where
  "zero_resources = \<lparr>rr_Limits = None, rr_Requests = None, rr_Rest = no_rest\<rparr>"

record ContainerPort =
  cp_Name :: string
  cp_ContainerPort :: goint32
  cp_Protocol :: string

record KeyToPath =
  kp_Key :: string
  kp_Path :: string

datatype VolumeSource =
    HostPathVolumeSource string string
  | EmptyDirVolumeSource
  | PersistentVolumeClaimVolumeSource string
  | ConfigMapVolumeSource string "KeyToPath list"
  | SecretVolumeSource string "KeyToPath list"

record Volume =
  vol_Name :: string
  vol_Source :: VolumeSource

record VolumeMount =
  vm_Name :: string
  vm_MountPath :: string
  vm_SubPath :: string
  vm_ReadOnly :: bool

datatype EnvVarSource = SecretKeyRef string string | ConfigMapKeyRef string string

record EnvVar =
  ev_Name :: string
  ev_Value :: string
  ev_ValueFrom :: "EnvVarSource option"

record Container =
  ct_Name :: string
  ct_Image :: string
  ct_ImagePullPolicy :: string
  ct_Command :: "string list option"
  ct_Args :: "string list option"
  ct_Resources :: ResourceRequirements
  ct_Ports :: "ContainerPort list"
  ct_Env :: "EnvVar list"
  ct_VolumeMounts :: "VolumeMount list"
  ct_LivenessProbe :: "Probe option"
  ct_ReadinessProbe :: "Probe option"
  ct_StartupProbe :: "Probe option"

definition zero_container :: Container where
  "zero_container = \<lparr>ct_Name = [], ct_Image = [], ct_ImagePullPolicy = [], ct_Command = None,
     ct_Args = None, ct_Resources = zero_resources, ct_Ports = [], ct_Env = [],
     ct_VolumeMounts = [], ct_LivenessProbe = None, ct_ReadinessProbe = None,
     ct_StartupProbe = None\<rparr>"

record LabelSelectorRequirement =
  lr_Key :: string
  lr_Operator :: string
  lr_Values :: "string list"

record LabelSelector =
  ls_MatchLabels :: "strmap option"
  ls_MatchExpressions :: "LabelSelectorRequirement list"

record PodAffinityTerm =
  pa_TopologyKey :: string
  pa_LabelSelector :: LabelSelector

record Toleration =
  to_Key :: string
  to_Operator :: string
  to_Effect :: string

record PodSpec =
  ps_Volumes :: "Volume list"
  ps_ImagePullSecrets :: "string list"
  ps_InitContainers :: "Container list"
  ps_PodAntiAffinityRequired :: "PodAffinityTerm list"
  ps_Containers :: "Container list"
  ps_NodeSelector :: "strmap option"
  ps_Tolerations :: "Toleration list"
  ps_RuntimeClassName :: "string option"
  ps_Rest :: opaque

record PodTemplateSpec =
  pt_Labels :: "strmap option"
  pt_Spec :: PodSpec

record DeploymentSpec =
  ds_Replicas :: "goint32 option"
  ds_RevisionHistoryLimit :: "goint32 option"
  ds_Strategy :: string
  ds_Selector :: "LabelSelector option"
  ds_Template :: PodTemplateSpec
  ds_Rest :: opaque

record Deployment =
  dep_ObjectMeta :: ObjectMeta
  dep_Spec :: DeploymentSpec

record Pod =
  pod_ObjectMeta :: ObjectMeta
  pod_Rest :: opaque

subsection \<open>Networking\<close>

datatype IntOrString = IntVal goint32 | StrVal string

record ServicePort =
  svp_Name :: string
  svp_Protocol :: string
  svp_Port :: goint32
  svp_TargetPort :: IntOrString

record ServiceSpec =
  ss_Ports :: "ServicePort list"
  ss_Selector :: "strmap option"
  ss_Type :: string
  ss_ClusterIP :: string
  ss_ClusterIPs :: "string list"
  ss_SessionAffinity :: string
  ss_IPFamilies :: "string list"
  ss_IPFamilyPolicy :: "string option"
  ss_InternalTrafficPolicy :: "string option"
  ss_Rest :: opaque

definition zero_service_spec :: ServiceSpec where
  "zero_service_spec = \<lparr>ss_Ports = [], ss_Selector = None, ss_Type = [], ss_ClusterIP = [],
     ss_ClusterIPs = [], ss_SessionAffinity = [], ss_IPFamilies = [], ss_IPFamilyPolicy = None,
     ss_InternalTrafficPolicy = None, ss_Rest = no_rest\<rparr>"

record Service =
  svc_ObjectMeta :: ObjectMeta
  svc_Spec :: ServiceSpec

record HTTPIngressPath =
  ip_Path :: string
  ip_PathType :: "string option"
  ip_ServiceName :: string
  ip_ServicePort :: goint32

record IngressRule =
  ir_Host :: string
  ir_Paths :: "HTTPIngressPath list"

record IngressTLS =
  it_Hosts :: "string list"
  it_SecretName :: string

record IngressSpec =
  is_Rules :: "IngressRule list"
  is_TLS :: "IngressTLS list"
  is_Rest :: opaque

record Ingress =
  ing_ObjectMeta :: ObjectMeta
  ing_Spec :: IngressSpec

subsection \<open>Configuration, secrets and storage\<close>

record ConfigMap =
  cm_ObjectMeta :: ObjectMeta
  cm_Data :: "strmap option"
  cm_Rest :: opaque

record ExternalSecretData =
  ed_SecretKey :: string
  ed_RemoteKey :: string
  ed_DecodingStrategy :: string
  ed_ConversionStrategy :: string
  ed_MetadataPolicy :: string

record ExternalSecretTemplate =
  et_EngineVersion :: string
  et_Data :: "strmap option"
  et_MergePolicy :: string

record ExternalSecretTarget =
  eg_Name :: string
  eg_Template :: "ExternalSecretTemplate option"
  eg_CreationPolicy :: string
  eg_DeletionPolicy :: string

record ExternalSecretSpec =
  es_StoreName :: string
  es_StoreKind :: string
  es_RefreshInterval :: "int option"
  es_Data :: "ExternalSecretData list"
  es_Target :: ExternalSecretTarget
  es_Rest :: opaque

record ExternalSecret =
  xs_ObjectMeta :: ObjectMeta
  xs_Spec :: ExternalSecretSpec

record PersistentVolumeClaimSpec =
  vc_AccessModes :: "string list"
  vc_StorageClassName :: "string option"
  vc_Requests :: "Quantity gomap option"
  vc_VolumeName :: string
  vc_Rest :: opaque

record PersistentVolumeClaim =
  pvc_ObjectMeta :: ObjectMeta
  pvc_Spec :: PersistentVolumeClaimSpec
  pvc_Phase :: string

record RecurringJobSpec =
  rj_Name :: string
  rj_Groups :: "string list"
  rj_Task :: string
  rj_Cron :: string
  rj_Retain :: goint
  rj_Concurrency :: goint
  rj_Labels :: "strmap option"
  rj_Rest :: opaque

record RecurringJob =
  job_ObjectMeta :: ObjectMeta
  job_Spec :: RecurringJobSpec

record LonghornVolume =
  lv_ObjectMeta :: ObjectMeta
  lv_Rest :: opaque

text \<open>The zero values that \<open>&T{ObjectMeta: m}\<close> leaves in the other fields.\<close>

definition zero_pod_spec :: PodSpec where
  "zero_pod_spec = \<lparr>ps_Volumes = [], ps_ImagePullSecrets = [], ps_InitContainers = [],
     ps_PodAntiAffinityRequired = [], ps_Containers = [], ps_NodeSelector = None,
     ps_Tolerations = [], ps_RuntimeClassName = None, ps_Rest = no_rest\<rparr>"

definition zero_deployment_spec :: DeploymentSpec where
  "zero_deployment_spec = \<lparr>ds_Replicas = None, ds_RevisionHistoryLimit = None, ds_Strategy = [],
     ds_Selector = None, ds_Template = \<lparr>pt_Labels = None, pt_Spec = zero_pod_spec\<rparr>,
     ds_Rest = no_rest\<rparr>"

definition zero_ingress_spec :: IngressSpec where
  "zero_ingress_spec = \<lparr>is_Rules = [], is_TLS = [], is_Rest = no_rest\<rparr>"

definition zero_external_secret_spec :: ExternalSecretSpec where
  "zero_external_secret_spec = \<lparr>es_StoreName = [], es_StoreKind = [], es_RefreshInterval = None,
     es_Data = [], es_Target = \<lparr>eg_Name = [], eg_Template = None, eg_CreationPolicy = [],
       eg_DeletionPolicy = []\<rparr>, es_Rest = no_rest\<rparr>"

definition zero_pvc_spec :: PersistentVolumeClaimSpec where
  "zero_pvc_spec = \<lparr>vc_AccessModes = [], vc_StorageClassName = None, vc_Requests = None,
     vc_VolumeName = [], vc_Rest = no_rest\<rparr>"

definition zero_recurring_job_spec :: RecurringJobSpec where
  "zero_recurring_job_spec = \<lparr>rj_Name = [], rj_Groups = [], rj_Task = [], rj_Cron = [],
     rj_Retain = 0, rj_Concurrency = 0, rj_Labels = None, rj_Rest = no_rest\<rparr>"

subsection \<open>Constants of the API packages\<close>

abbreviation ProtocolTCP :: string where "ProtocolTCP \<equiv> ''TCP''"
abbreviation PullAlways :: string where "PullAlways \<equiv> ''Always''"
abbreviation HostPathDirectoryOrCreate :: string where
  "HostPathDirectoryOrCreate \<equiv> ''DirectoryOrCreate''"
abbreviation RecreateDeploymentStrategyType :: string where
  "RecreateDeploymentStrategyType \<equiv> ''Recreate''"
abbreviation LabelSelectorOpIn :: string where "LabelSelectorOpIn \<equiv> ''In''"
abbreviation TolerationOpExists :: string where "TolerationOpExists \<equiv> ''Exists''"
abbreviation TaintEffectNoSchedule :: string where "TaintEffectNoSchedule \<equiv> ''NoSchedule''"
abbreviation ServiceTypeClusterIP :: string where "ServiceTypeClusterIP \<equiv> ''ClusterIP''"
abbreviation PathTypePrefix :: string where "PathTypePrefix \<equiv> ''Prefix''"
abbreviation ReadWriteOnce :: string where "ReadWriteOnce \<equiv> ''ReadWriteOnce''"
abbreviation ResourceStorage :: string where "ResourceStorage \<equiv> ''storage''"
abbreviation ClaimBound :: string where "ClaimBound \<equiv> ''Bound''"
abbreviation RecurringJobTypeBackup :: string where "RecurringJobTypeBackup \<equiv> ''backup''"
abbreviation ExternalSecretDecodeNone :: string where "ExternalSecretDecodeNone \<equiv> ''None''"
abbreviation ExternalSecretConversionDefault :: string where
  "ExternalSecretConversionDefault \<equiv> ''Default''"
abbreviation ExternalSecretMetadataPolicyNone :: string where
  "ExternalSecretMetadataPolicyNone \<equiv> ''None''"
abbreviation MergePolicyReplace :: string where "MergePolicyReplace \<equiv> ''Replace''"
abbreviation CreatePolicyOwner :: string where "CreatePolicyOwner \<equiv> ''Owner''"
abbreviation DeletionPolicyDelete :: string where "DeletionPolicyDelete \<equiv> ''Delete''"

end
