(* ===== verification/ApiTypes.thy ===== *)
theory ApiTypes
  imports KubeTypes
begin

section \<open>The custom resources: AppBundle and AppBundleBase\<close>

text \<open>
  \<open>api/v1alpha1/appbundle_types.go\<close> and \<open>appbundlebase_types.go\<close>: the structs, field by
  field, with a pointer as an \<open>option\<close> and a nilable map as an \<open>option\<close> of a map, and the
  methods \<open>ID\<close>, \<open>GetLastReconciliation\<close> and \<open>OwnerReference\<close>. The interface
  \<open>types.AppId\<close> (\<open>types/appid.go\<close>) is the locale \<open>app_id\<close>; both resources implement it.
\<close>

subsection \<open>The parts of a bundle's specification\<close>

record AppBundleConfig =
  cfg_FileName :: string
  cfg_Content :: string
  cfg_Existing :: "string option"
  cfg_Secrets :: "strmap option"
  cfg_DirPath :: string
  cfg_CopyOver :: "bool option"

record AppBundleSourcedEnv =
  se_ExternalSecret :: string
  se_Secret :: string
  se_ConfigMap :: string
  se_Key :: string

record AppBundleImage =
  img_Repository :: "string option"
  img_Tag :: "string option"
  img_PullPolicy :: "string option"

record AppBundleRouteIngress =
  ri_Domain :: "string option"
  ri_Auth :: "bool option"

record AppBundleRoute =
  rt_Port :: "goint option"
  rt_TargetPort :: "goint option"
  rt_Protocol :: "string option"
  rt_Ingress :: "AppBundleRouteIngress option"

definition zero_route :: AppBundleRoute where
  "zero_route = \<lparr>rt_Port = None, rt_TargetPort = None, rt_Protocol = None, rt_Ingress = None\<rparr>"

record AppBundleHomePage =
  hp_Description :: "string option"
  hp_Section :: "string option"
  hp_Href :: "string option"
  hp_Icon :: "string option"
  hp_Name :: "string option"
  hp_Groups :: "string option"

record AppBundleVolume =
  av_HostPath :: "string option"
  av_EmptyDir :: "bool option"
  av_Path :: "string option"
  av_Size :: "string option"
  av_StorageClass :: "string option"
  av_ExistingClaim :: "string option"
  av_Backup :: "bool option"

record AppBundleVolumeLonghornBackup =
  lb_Frequency :: "string option"
  lb_Retain :: "goint option"

subsection \<open>AppBundle\<close>

record AppBundleSpec =
  sp_Base :: "string option"
  sp_Image :: "AppBundleImage option"
  sp_NodeSelector :: "strmap option option"
  sp_UseNvidia :: "bool option"
  sp_Replicas :: "goint32 option"
  sp_Resources :: "ResourceRequirements option"
  sp_Envs :: "strmap option"
  sp_SecretStoreRef :: "string option"
  sp_SourcedEnvs :: "AppBundleSourcedEnv gomap option"
  sp_ServiceType :: "string option"
  sp_Routes :: "AppBundleRoute gomap option"
  sp_Homepage :: "AppBundleHomePage option"
  sp_Volumes :: "AppBundleVolume gomap option"
  sp_Backup :: "AppBundleVolumeLonghornBackup option"
  sp_Selector :: "LabelSelector option"
  sp_LivenessProbe :: "Probe option"
  sp_ReadinessProbe :: "Probe option"
  sp_StartupProbe :: "Probe option"
  sp_TailscaleName :: "string option"
  sp_Command :: "string option list option"
  sp_Args :: "string option list option"
  sp_Configs :: "AppBundleConfig gomap option"

definition zero_spec :: AppBundleSpec where
  "zero_spec = \<lparr>sp_Base = None, sp_Image = None, sp_NodeSelector = None, sp_UseNvidia = None,
     sp_Replicas = None, sp_Resources = None, sp_Envs = None, sp_SecretStoreRef = None,
     sp_SourcedEnvs = None, sp_ServiceType = None, sp_Routes = None, sp_Homepage = None,
     sp_Volumes = None, sp_Backup = None, sp_Selector = None, sp_LivenessProbe = None,
     sp_ReadinessProbe = None, sp_StartupProbe = None, sp_TailscaleName = None,
     sp_Command = None, sp_Args = None, sp_Configs = None\<rparr>"

record AppBundleStatus =
  st_LastReconciliation :: "string option"

record AppBundle =
  ab_TypeMeta :: TypeMeta
  ab_ObjectMeta :: ObjectMeta
  ab_Spec :: AppBundleSpec
  ab_Status :: AppBundleStatus

abbreviation ab_Name :: "AppBundle \<Rightarrow> string" where
  "ab_Name ab \<equiv> om_Name (ab_ObjectMeta ab)"

abbreviation ab_Namespace :: "AppBundle \<Rightarrow> string" where
  "ab_Namespace ab \<equiv> om_Namespace (ab_ObjectMeta ab)"

definition zero_bundle :: AppBundle where
  "zero_bundle = \<lparr>ab_TypeMeta = \<lparr>tm_Kind = [], tm_APIVersion = []\<rparr>, ab_ObjectMeta = zero_meta,
     ab_Spec = zero_spec, ab_Status = \<lparr>st_LastReconciliation = None\<rparr>\<rparr>"

definition ab_ID :: "AppBundle \<Rightarrow> string" where
  "ab_ID ab = ab_Name ab @ ''_'' @ ab_Namespace ab"

definition ab_GetLastReconciliation :: "AppBundle \<Rightarrow> bool \<times> string" where
  "ab_GetLastReconciliation ab = (case st_LastReconciliation (ab_Status ab) of
     None \<Rightarrow> (False, []) | Some t \<Rightarrow> (True, t))"

definition ab_OwnerReference :: "AppBundle \<Rightarrow> OwnerReference" where
  "ab_OwnerReference ab = \<lparr>or_APIVersion = tm_APIVersion (ab_TypeMeta ab),
     or_Kind = tm_Kind (ab_TypeMeta ab), or_Name = ab_Name ab,
     or_UID = om_UID (ab_ObjectMeta ab)\<rparr>"

subsection \<open>AppBundleBase\<close>

record AppBundleBaseSpec =
  bs_Base :: "string option"
  bs_Image :: "AppBundleImage option"
  bs_NodeSelector :: "strmap option option"
  bs_UseNvidia :: "bool option"
  bs_Replicas :: "goint32 option"
  bs_Resources :: "ResourceRequirements option"
  bs_Envs :: "strmap option"
  bs_SecretStoreRef :: "string option"
  bs_SourcedEnvs :: "AppBundleSourcedEnv gomap option"
  bs_ServiceType :: "string option"
  bs_Routes :: "AppBundleRoute gomap option"
  bs_Homepage :: "AppBundleHomePage option"
  bs_Volumes :: "AppBundleVolume gomap option"
  bs_Backup :: "AppBundleVolumeLonghornBackup option"
  bs_Selector :: "LabelSelector option"
  bs_LivenessProbe :: "Probe option"
  bs_ReadinessProbe :: "Probe option"
  bs_StartupProbe :: "Probe option"
  bs_Command :: "string option list option"
  bs_Args :: "string option list option"
  bs_Configs :: "AppBundleConfig gomap option"

definition zero_base_spec :: AppBundleBaseSpec where
  "zero_base_spec = \<lparr>bs_Base = None, bs_Image = None, bs_NodeSelector = None,
     bs_UseNvidia = None, bs_Replicas = None, bs_Resources = None, bs_Envs = None,
     bs_SecretStoreRef = None, bs_SourcedEnvs = None, bs_ServiceType = None, bs_Routes = None,
     bs_Homepage = None, bs_Volumes = None, bs_Backup = None, bs_Selector = None,
     bs_LivenessProbe = None, bs_ReadinessProbe = None, bs_StartupProbe = None,
     bs_Command = None, bs_Args = None, bs_Configs = None\<rparr>"

record AppBundleBaseStatus =
  bst_LastReconciliation :: "string option"

record AppBundleBase =
  abb_TypeMeta :: TypeMeta
  abb_ObjectMeta :: ObjectMeta
  abb_Spec :: AppBundleBaseSpec
  abb_Status :: AppBundleBaseStatus

definition zero_base :: AppBundleBase where
  "zero_base = \<lparr>abb_TypeMeta = \<lparr>tm_Kind = [], tm_APIVersion = []\<rparr>, abb_ObjectMeta = zero_meta,
     abb_Spec = zero_base_spec, abb_Status = \<lparr>bst_LastReconciliation = None\<rparr>\<rparr>"

definition abb_ID :: "AppBundleBase \<Rightarrow> string" where
  "abb_ID abb = om_Name (abb_ObjectMeta abb) @ ''_'' @ om_Namespace (abb_ObjectMeta abb)"

definition abb_GetLastReconciliation :: "AppBundleBase \<Rightarrow> bool \<times> string" where
  "abb_GetLastReconciliation abb = (case bst_LastReconciliation (abb_Status abb) of
     None \<Rightarrow> (False, []) | Some t \<Rightarrow> (True, t))"

subsection \<open>The interface AppId\<close>

text \<open>
  An implementation of \<open>AppId\<close> has an identifier, a hash of its specification (which may
  fail) and the time of its last reconciliation, if any. What the state cache relies on:
  the identifier is made of the object's name and namespace, so two objects whose names
  have no underscore (Kubernetes names have none) share an identifier only when they have
  the same name and namespace.
\<close>

lemma split_at_separator:
  assumes "n @ c # s = n' @ c # s'" and "c \<notin> set n" and "c \<notin> set n'"
  shows "n = n' \<and> s = s'"
  using assms
proof (induction n arbitrary: n')
  case Nil
  then show ?case by (cases n') auto
next
  case (Cons x n)
  then show ?case by (cases n') auto
qed

locale app_id =
  fixes ID :: "'o \<Rightarrow> string"
    and meta :: "'o \<Rightarrow> ObjectMeta"
    and GetLastReconciliation :: "'o \<Rightarrow> bool \<times> string"
  assumes ID_meta: "ID a = om_Name (meta a) @ ''_'' @ om_Namespace (meta a)"
    and never_reconciled: "\<not> fst (GetLastReconciliation a) \<Longrightarrow> snd (GetLastReconciliation a) = []"
begin

lemma ID_eq_iff:
  assumes "CHR ''_'' \<notin> set (om_Name (meta a))" and "CHR ''_'' \<notin> set (om_Name (meta b))"
  shows "ID a = ID b \<longleftrightarrow>
    om_Name (meta a) = om_Name (meta b) \<and> om_Namespace (meta a) = om_Namespace (meta b)"
proof
  assume "ID a = ID b"
  then have "om_Name (meta a) @ CHR ''_'' # om_Namespace (meta a) =
      om_Name (meta b) @ CHR ''_'' # om_Namespace (meta b)"
    by (simp add: ID_meta)
  then show "om_Name (meta a) = om_Name (meta b) \<and> om_Namespace (meta a) = om_Namespace (meta b)"
    using assms by (rule split_at_separator)
qed (simp add: ID_meta)

lemma ID_nonempty: "ID a \<noteq> []"
  by (simp add: ID_meta)

end

interpretation bundle_id: app_id ab_ID ab_ObjectMeta ab_GetLastReconciliation
  by unfold_locales (auto simp: ab_ID_def ab_GetLastReconciliation_def split: option.splits)

interpretation base_id: app_id abb_ID abb_ObjectMeta abb_GetLastReconciliation
  by unfold_locales (auto simp: abb_ID_def abb_GetLastReconciliation_def split: option.splits)

end
