(* ===== verification/Program.thy ===== *)
theory Program
  imports ApiTypes
begin

section \<open>Programs of the operator as effect trees\<close>

text \<open>
  A function of the operator that talks to the cluster is a tree of its effects. A node is
  one effect and has a branch for every answer the environment may give, so a statement
  over all branches holds for every behaviour of the API server, failures included. The
  effects are the calls of the controller-runtime client (\<open>Get\<close>, \<open>List\<close>, \<open>Create\<close>,
  \<open>Update\<close>, \<open>Delete\<close> and the status update), reading the clock, locking and unlocking a
  mutex, writing to the log, and an atomic access to the memory that goroutines share
  (type \<open>'s\<close>): \<open>Access f c\<close> replaces the memory \<open>s\<close> by \<open>f s\<close> and goes on with \<open>c s\<close>.

  \<^item> \<open>sat I P Q p\<close>: as long as the others keep the shared memory in \<open>I\<close>, the program \<open>p\<close>
    keeps it in \<open>I\<close>, sends only writes in \<open>P\<close>, and returns only results in \<open>Q\<close>.
  \<^item> \<open>run\<close>: the execution against a client, which is a parameter (\<open>api\<close>).
  \<^item> \<open>writes\<close>: the write requests of such an execution, in order, with their answers.
\<close>

subsection \<open>Objects, kinds and write requests\<close>

datatype kobj =
    ObjDeployment Deployment
  | ObjService Service
  | ObjIngress Ingress
  | ObjConfigMap ConfigMap
  | ObjExternalSecret ExternalSecret
  | ObjPVC PersistentVolumeClaim
  | ObjRecurringJob RecurringJob
  | ObjLonghornVolume LonghornVolume
  | ObjPod Pod
  | ObjAppBundle AppBundle
  | ObjAppBundleBase AppBundleBase

datatype kind = KDeployment | KService | KIngress | KConfigMap | KExternalSecret | KPVC
  | KRecurringJob | KLonghornVolume | KPod | KAppBundle | KAppBundleBase

fun kind_of :: "kobj \<Rightarrow> kind" where
  "kind_of (ObjDeployment _) = KDeployment"
| "kind_of (ObjService _) = KService"
| "kind_of (ObjIngress _) = KIngress"
| "kind_of (ObjConfigMap _) = KConfigMap"
| "kind_of (ObjExternalSecret _) = KExternalSecret"
| "kind_of (ObjPVC _) = KPVC"
| "kind_of (ObjRecurringJob _) = KRecurringJob"
| "kind_of (ObjLonghornVolume _) = KLonghornVolume"
| "kind_of (ObjPod _) = KPod"
| "kind_of (ObjAppBundle _) = KAppBundle"
| "kind_of (ObjAppBundleBase _) = KAppBundleBase"

fun obj_meta :: "kobj \<Rightarrow> ObjectMeta" where
  "obj_meta (ObjDeployment d) = dep_ObjectMeta d"
| "obj_meta (ObjService s) = svc_ObjectMeta s"
| "obj_meta (ObjIngress i) = ing_ObjectMeta i"
| "obj_meta (ObjConfigMap c) = cm_ObjectMeta c"
| "obj_meta (ObjExternalSecret x) = xs_ObjectMeta x"
| "obj_meta (ObjPVC p) = pvc_ObjectMeta p"
| "obj_meta (ObjRecurringJob j) = job_ObjectMeta j"
| "obj_meta (ObjLonghornVolume v) = lv_ObjectMeta v"
| "obj_meta (ObjPod p) = pod_ObjectMeta p"
| "obj_meta (ObjAppBundle a) = ab_ObjectMeta a"
| "obj_meta (ObjAppBundleBase b) = abb_ObjectMeta b"

abbreviation obj_Name :: "kobj \<Rightarrow> string" where
  "obj_Name x \<equiv> om_Name (obj_meta x)"

abbreviation obj_Namespace :: "kobj \<Rightarrow> string" where
  "obj_Namespace x \<equiv> om_Namespace (obj_meta x)"

datatype wreq = Create kobj | Update kobj | Delete kobj | StatusUpdate kobj

fun wobj :: "wreq \<Rightarrow> kobj" where
  "wobj (Create x) = x"
| "wobj (Update x) = x"
| "wobj (Delete x) = x"
| "wobj (StatusUpdate x) = x"

fun is_delete :: "wreq \<Rightarrow> bool" where
  "is_delete (Delete _) = True"
| "is_delete _ = False"

type_synonym mutex = "string \<times> string"

subsection \<open>Effect trees\<close>

datatype ('s, 'a) prog =
    Done 'a
  | Get kind string string "goerr + kobj \<Rightarrow> ('s, 'a) prog"
  | ListObjs kind "string option" "(string \<times> string) list" "goerr + kobj list \<Rightarrow> ('s, 'a) prog"
  | Write wreq "goerr option \<Rightarrow> ('s, 'a) prog"
  | Now "int \<Rightarrow> ('s, 'a) prog"
  | Access "'s \<Rightarrow> 's" "'s \<Rightarrow> ('s, 'a) prog"
  | Lock mutex "('s, 'a) prog"
  | Unlock mutex "('s, 'a) prog"
  | Log string "('s, 'a) prog"

lemma prog_induct [case_names Done Get ListObjs Write Now Access Lock Unlock Log]:
  assumes "\<And>a. P (Done a)"
    and "\<And>kd ns n c. (\<And>r. P (c r)) \<Longrightarrow> P (Get kd ns n c)"
    and "\<And>kd ns sel c. (\<And>r. P (c r)) \<Longrightarrow> P (ListObjs kd ns sel c)"
    and "\<And>q c. (\<And>r. P (c r)) \<Longrightarrow> P (Write q c)"
    and "\<And>c. (\<And>t. P (c t)) \<Longrightarrow> P (Now c)"
    and "\<And>f c. (\<And>s. P (c s)) \<Longrightarrow> P (Access f c)"
    and "\<And>m p. P p \<Longrightarrow> P (Lock m p)"
    and "\<And>m p. P p \<Longrightarrow> P (Unlock m p)"
    and "\<And>l p. P p \<Longrightarrow> P (Log l p)"
  shows "P p"
  by (induction p) (auto intro: assms)

primrec bindP :: "('s, 'a) prog \<Rightarrow> ('a \<Rightarrow> ('s, 'b) prog) \<Rightarrow> ('s, 'b) prog" where
  "bindP (Done a) k = k a"
| "bindP (Get kd ns n c) k = Get kd ns n (\<lambda>r. bindP (c r) k)"
| "bindP (ListObjs kd ns sel c) k = ListObjs kd ns sel (\<lambda>r. bindP (c r) k)"
| "bindP (Write q c) k = Write q (\<lambda>r. bindP (c r) k)"
| "bindP (Now c) k = Now (\<lambda>t. bindP (c t) k)"
| "bindP (Access f c) k = Access f (\<lambda>s. bindP (c s) k)"
| "bindP (Lock m p) k = Lock m (bindP p k)"
| "bindP (Unlock m p) k = Unlock m (bindP p k)"
| "bindP (Log l p) k = Log l (bindP p k)"

lemma bindP_Done_right [simp]: "bindP p Done = p"
  by (induction p) auto

lemma bindP_assoc: "bindP (bindP p k) l = bindP p (\<lambda>a. bindP (k a) l)"
  by (induction p) auto

text \<open>\<open>if err := p; err != nil { return err }\<close>, then the rest.\<close>

definition thenP :: "('s, goerr option) prog \<Rightarrow> ('s, goerr option) prog \<Rightarrow> ('s, goerr option) prog"
where
  "thenP p q = bindP p (\<lambda>e. case e of None \<Rightarrow> q | Some err \<Rightarrow> Done (Some err))"

text \<open>A loop whose body returns an error: it stops at the first error.\<close>

fun forP :: "'a list \<Rightarrow> ('a \<Rightarrow> ('s, goerr option) prog) \<Rightarrow> ('s, goerr option) prog" where
  "forP [] body = Done None"
| "forP (x # xs) body = thenP (body x) (forP xs body)"

text \<open>\<open>mu.Lock(); defer mu.Unlock()\<close> around a function body.\<close>

definition with_mutex :: "mutex \<Rightarrow> ('s, 'a) prog \<Rightarrow> ('s, 'a) prog" where
  "with_mutex m p = Lock m (bindP p (\<lambda>a. Unlock m (Done a)))"

subsection \<open>Thread-modular safety\<close>

primrec sat :: "('s \<Rightarrow> bool) \<Rightarrow> (wreq \<Rightarrow> bool) \<Rightarrow> ('a \<Rightarrow> bool) \<Rightarrow> ('s, 'a) prog \<Rightarrow> bool" where
  "sat I P Q (Done a) \<longleftrightarrow> Q a"
| "sat I P Q (Get kd ns n c) \<longleftrightarrow> (\<forall>r. sat I P Q (c r))"
| "sat I P Q (ListObjs kd ns sel c) \<longleftrightarrow> (\<forall>r. sat I P Q (c r))"
| "sat I P Q (Write q c) \<longleftrightarrow> P q \<and> (\<forall>r. sat I P Q (c r))"
| "sat I P Q (Now c) \<longleftrightarrow> (\<forall>t. sat I P Q (c t))"
| "sat I P Q (Access f c) \<longleftrightarrow> (\<forall>s. I s \<longrightarrow> I (f s) \<and> sat I P Q (c s))"
| "sat I P Q (Lock m p) \<longleftrightarrow> sat I P Q p"
| "sat I P Q (Unlock m p) \<longleftrightarrow> sat I P Q p"
| "sat I P Q (Log l p) \<longleftrightarrow> sat I P Q p"

lemma sat_bind: "sat I P (\<lambda>a. sat I P Q (k a)) p \<Longrightarrow> sat I P Q (bindP p k)"
  by (induction p) auto

lemma sat_mono:
  assumes "sat I P Q p" and "\<And>q. P q \<Longrightarrow> P' q" and "\<And>a. Q a \<Longrightarrow> Q' a"
  shows "sat I P' Q' p"
  using assms(1) by (induction p) (auto intro: assms(2,3))

lemma sat_thenP:
  assumes "sat I P Q p" and "\<And>e. Q (Some e) \<Longrightarrow> Q' (Some e)" and "sat I P Q' q"
  shows "sat I P Q' (thenP p q)"
  unfolding thenP_def
  by (rule sat_bind, rule sat_mono [OF assms(1)]) (use assms(2,3) in \<open>auto split: option.split\<close>)

lemma sat_forP:
  assumes "\<And>x. x \<in> set xs \<Longrightarrow> sat I P Q (body x)" and "Q None"
  shows "sat I P Q (forP xs body)"
  using assms by (induction xs) (auto intro: sat_thenP)

lemma sat_with_mutex [simp]: "sat I P Q (with_mutex m p) \<longleftrightarrow> sat I P Q p"
proof -
  have "sat I P Q (bindP p (\<lambda>a. Unlock m (Done a))) \<longleftrightarrow> sat I P Q p"
    by (induction p) auto
  then show ?thesis by (simp add: with_mutex_def)
qed

subsection \<open>Execution against a client\<close>

text \<open>
  The controller-runtime client is third-party code: a parameter, whose state is of type
  \<open>'w\<close>. Every call may change that state, because other actors of the cluster run too.
\<close>

record 'w api =
  api_get :: "kind \<Rightarrow> string \<Rightarrow> string \<Rightarrow> 'w \<Rightarrow> (goerr + kobj) \<times> 'w"
  api_list :: "kind \<Rightarrow> string option \<Rightarrow> (string \<times> string) list \<Rightarrow> 'w \<Rightarrow> (goerr + kobj list) \<times> 'w"
  api_write :: "wreq \<Rightarrow> 'w \<Rightarrow> goerr option \<times> 'w"
  api_now :: "'w \<Rightarrow> int \<times> 'w"

primrec run :: "'w api \<Rightarrow> ('s, 'a) prog \<Rightarrow> 'w \<Rightarrow> 's \<Rightarrow> 'a \<times> 'w \<times> 's" where
  "run A (Done a) w s = (a, w, s)"
| "run A (Get kd ns n c) w s = (case api_get A kd ns n w of (r, w') \<Rightarrow> run A (c r) w' s)"
| "run A (ListObjs kd ns sel c) w s = (case api_list A kd ns sel w of (r, w') \<Rightarrow> run A (c r) w' s)"
| "run A (Write q c) w s = (case api_write A q w of (r, w') \<Rightarrow> run A (c r) w' s)"
| "run A (Now c) w s = (case api_now A w of (t, w') \<Rightarrow> run A (c t) w' s)"
| "run A (Access f c) w s = run A (c s) w (f s)"
| "run A (Lock m p) w s = run A p w s"
| "run A (Unlock m p) w s = run A p w s"
| "run A (Log l p) w s = run A p w s"

lemma run_bind: "run A (bindP p k) w s = (case run A p w s of (a, w', s') \<Rightarrow> run A (k a) w' s')"
  by (induction p arbitrary: w s) (auto split: prod.splits)

lemma run_with_mutex [simp]: "run A (with_mutex m p) w s = run A p w s"
  by (auto simp: with_mutex_def run_bind split: prod.splits)

lemma run_thenP:
  "run A (thenP p q) w s = (case run A p w s of (e, w', s') \<Rightarrow>
     (case e of None \<Rightarrow> run A q w' s' | Some err \<Rightarrow> (Some err, w', s')))"
  by (auto simp: thenP_def run_bind split: prod.splits option.splits)

text \<open>The writes of an execution, in order, with the answers.\<close>

primrec writes :: "'w api \<Rightarrow> ('s, 'a) prog \<Rightarrow> 'w \<Rightarrow> 's \<Rightarrow> (wreq \<times> goerr option) list" where
  "writes A (Done a) w s = []"
| "writes A (Get kd ns n c) w s = (case api_get A kd ns n w of (r, w') \<Rightarrow> writes A (c r) w' s)"
| "writes A (ListObjs kd ns sel c) w s =
     (case api_list A kd ns sel w of (r, w') \<Rightarrow> writes A (c r) w' s)"
| "writes A (Write q c) w s = (case api_write A q w of (r, w') \<Rightarrow> (q, r) # writes A (c r) w' s)"
| "writes A (Now c) w s = (case api_now A w of (t, w') \<Rightarrow> writes A (c t) w' s)"
| "writes A (Access f c) w s = writes A (c s) w (f s)"
| "writes A (Lock m p) w s = writes A p w s"
| "writes A (Unlock m p) w s = writes A p w s"
| "writes A (Log l p) w s = writes A p w s"

lemma writes_bind:
  "writes A (bindP p k) w s =
    writes A p w s @ (case run A p w s of (a, w', s') \<Rightarrow> writes A (k a) w' s')"
  by (induction p arbitrary: w s rule: prog_induct) (auto split: prod.splits)

lemma writes_with_mutex [simp]: "writes A (with_mutex m p) w s = writes A p w s"
  by (auto simp: with_mutex_def writes_bind split: prod.splits)

lemma writes_thenP:
  "writes A (thenP p q) w s = writes A p w s @
    (case run A p w s of (None, w', s') \<Rightarrow> writes A q w' s' | (Some e, _) \<Rightarrow> [])"
  by (auto simp: thenP_def writes_bind split: prod.splits option.splits)

lemma sat_run:
  "sat I P Q p \<Longrightarrow> I s \<Longrightarrow> run A p w s = (a, w', s') \<Longrightarrow> Q a \<and> I s'"
  by (induction p arbitrary: w s rule: prog_induct) (auto split: prod.splits)

lemma sat_writes:
  "sat I P Q p \<Longrightarrow> I s \<Longrightarrow> (q, r) \<in> set (writes A p w s) \<Longrightarrow> P q"
  by (induction p arbitrary: w s rule: prog_induct) (auto split: prod.splits)

text \<open>Introduction rules that follow the shape of a program.\<close>

lemma sat_if: "(b \<Longrightarrow> sat I P Q p) \<Longrightarrow> (\<not> b \<Longrightarrow> sat I P Q q) \<Longrightarrow> sat I P Q (if b then p else q)"
  by simp

lemma sat_case_sum:
  "(\<And>e. r = Inl e \<Longrightarrow> sat I P Q (f e)) \<Longrightarrow> (\<And>x. r = Inr x \<Longrightarrow> sat I P Q (g x)) \<Longrightarrow>
    sat I P Q (case r of Inl e \<Rightarrow> f e | Inr x \<Rightarrow> g x)"
  by (cases r) simp_all

lemma sat_case_option:
  "(r = None \<Longrightarrow> sat I P Q p) \<Longrightarrow> (\<And>x. r = Some x \<Longrightarrow> sat I P Q (g x)) \<Longrightarrow>
    sat I P Q (case r of None \<Rightarrow> p | Some x \<Rightarrow> g x)"
  by (cases r) simp_all

lemma sat_ListObjs: "(\<And>r. sat I P Q (c r)) \<Longrightarrow> sat I P Q (ListObjs kd ns sel c)"
  by simp

lemma sat_Write: "P q \<Longrightarrow> (\<And>r. sat I P Q (c r)) \<Longrightarrow> sat I P Q (Write q c)"
  by simp

lemma sat_Done: "Q a \<Longrightarrow> sat I P Q (Done a)"
  by simp

lemma sat_Log: "sat I P Q p \<Longrightarrow> sat I P Q (Log l p)"
  by simp

lemma sat_mutexI: "sat I P Q p \<Longrightarrow> sat I P Q (with_mutex m p)"
  by simp

lemmas sat_intros = sat_if sat_case_sum sat_case_option sat_ListObjs sat_Write sat_Done sat_Log sat_mutexI

text \<open>A loop whose body neither writes nor fails.\<close>

lemma forP_silent:
  assumes "\<And>x s. x \<in> set xs \<Longrightarrow> J s \<Longrightarrow>
      (\<exists>s'. run A (body x) w s = (None, w, s') \<and> J s') \<and> writes A (body x) w s = []"
    and "J s"
  shows "(\<exists>s'. run A (forP xs body) w s = (None, w, s') \<and> J s') \<and> writes A (forP xs body) w s = []"
  using assms
proof (induction xs arbitrary: s)
  case Nil
  then show ?case by simp
next
  case (Cons x xs)
  from Cons.prems obtain s' where x: "run A (body x) w s = (None, w, s')" "J s'" "writes A (body x) w s = []"
    by force
  with Cons.IH [of s'] Cons.prems show ?case by (auto simp: run_thenP writes_thenP)
qed

end
