(* ===== verification/Helpers.thy ===== *)
theory Helpers
  imports Program
begin

section \<open>helpers.go: labels, metadata, diffs and upserts\<close>

text \<open>
  \<open>internal/controller/helpers.go\<close>, and the parameter \<open>ext\<close> that holds the third-party
  functions the operator calls on values: the semantic comparison and the diff of specs, the
  struct hashes, the parser of quantities, the struct copier and the struct merger. Nothing is
  known of them here; a theorem that relies on one names what it relies on.
\<close>

subsection \<open>Third-party functions\<close>

datatype GoAny =
    AnyDeploymentSpec DeploymentSpec
  | AnyServiceSpec ServiceSpec
  | AnyIngressSpec IngressSpec
  | AnyPVCSpec PersistentVolumeClaimSpec
  | AnyExternalSecretSpec ExternalSecretSpec
  | AnyStringMap "strmap option"

datatype mapval =
    MapString strmap
  | MapVolume "AppBundleVolume gomap"
  | MapConfig "AppBundleConfig gomap"
  | MapRoute "AppBundleRoute gomap"
  | MapSourcedEnv "AppBundleSourcedEnv gomap"
  | MapQuantity "Quantity gomap"

record ext =
  ext_DeepDerivative :: "GoAny \<Rightarrow> GoAny \<Rightarrow> bool"
  ext_Diff :: "GoAny \<Rightarrow> GoAny \<Rightarrow> goerr + string list list"
  ext_HashRecurringJobSpec :: "RecurringJobSpec \<Rightarrow> goerr + string"
  ext_HashAppBundleSpec :: "AppBundleSpec \<Rightarrow> goerr + string"
  ext_HashAppBundleBaseSpec :: "AppBundleBaseSpec \<Rightarrow> goerr + string"
  ext_ParseQuantity :: "string \<Rightarrow> Quantity option"
  ext_CopyToAppBundle :: "AppBundleBase \<Rightarrow> goerr + AppBundle"
  ext_MergeBundle :: "(mapval \<Rightarrow> mapval \<Rightarrow> goerr + mapval) \<Rightarrow> AppBundle \<Rightarrow> AppBundle \<Rightarrow> goerr + AppBundle"
  ext_MergeVolume :: "AppBundleVolume \<Rightarrow> AppBundleVolume \<Rightarrow> goerr + AppBundleVolume"
  ext_MergeConfig :: "AppBundleConfig \<Rightarrow> AppBundleConfig \<Rightarrow> goerr + AppBundleConfig"
  ext_MergeRoute :: "AppBundleRoute \<Rightarrow> AppBundleRoute \<Rightarrow> goerr + AppBundleRoute"
  ext_MergeSourcedEnv :: "AppBundleSourcedEnv \<Rightarrow> AppBundleSourcedEnv \<Rightarrow> goerr + AppBundleSourcedEnv"

subsection \<open>Getting an object into a struct\<close>

text \<open>
  \<open>er := r.Get(ctx, key, current)\<close>: on success \<open>current\<close> is the object of the cluster;
  on an error it keeps the value it was built with. A kind of object is an injection into
  \<open>kobj\<close>, its inverse and its metadata, which is what \<open>GetInto\<close> relies on.
\<close>

definition GetInto :: "kind \<Rightarrow> (kobj \<Rightarrow> 'o option) \<Rightarrow> string \<Rightarrow> string \<Rightarrow> 'o \<Rightarrow>
    ('o \<Rightarrow> goerr option \<Rightarrow> ('s, 'a) prog) \<Rightarrow> ('s, 'a) prog" where
  "GetInto kd proj ns n init c = Get kd ns n (\<lambda>r. case r of
      Inl e \<Rightarrow> c init (Some e)
    | Inr x \<Rightarrow> (case proj x of
        Some cur \<Rightarrow> c cur None
      | None \<Rightarrow> c init (Some (APIStatus (ReasonOther ''wrong kind'') ''wrong kind''))))"

locale kube_kind =
  fixes kd :: kind
    and inj :: "'o \<Rightarrow> kobj"
    and proj :: "kobj \<Rightarrow> 'o option"
    and meta :: "'o \<Rightarrow> ObjectMeta"
  assumes proj_inj: "proj (inj x) = Some x"
    and proj_Some: "proj y = Some x \<Longrightarrow> y = inj x"
    and kind_inj: "kind_of (inj x) = kd"
    and meta_inj: "obj_meta (inj x) = meta x"
begin

lemma sat_GetInto:
  "(\<And>cur er. sat I P Q (c cur er)) \<Longrightarrow> sat I P Q (GetInto kd proj ns n init c)"
  by (auto simp: GetInto_def split: sum.split option.split)

lemma run_GetInto_found:
  "api_get A kd ns n w = (Inr (inj x), w') \<Longrightarrow>
    run A (GetInto kd proj ns n init c) w s = run A (c x None) w' s"
  by (simp add: GetInto_def proj_inj)

lemma run_GetInto_error:
  "api_get A kd ns n w = (Inl e, w') \<Longrightarrow>
    run A (GetInto kd proj ns n init c) w s = run A (c init (Some e)) w' s"
  by (simp add: GetInto_def)

lemma writes_GetInto_found:
  "api_get A kd ns n w = (Inr (inj x), w') \<Longrightarrow>
    writes A (GetInto kd proj ns n init c) w s = writes A (c x None) w' s"
  by (simp add: GetInto_def proj_inj)

lemma writes_GetInto_error:
  "api_get A kd ns n w = (Inl e, w') \<Longrightarrow>
    writes A (GetInto kd proj ns n init c) w s = writes A (c init (Some e)) w' s"
  by (simp add: GetInto_def)

end

fun proj_Deployment :: "kobj \<Rightarrow> Deployment option" where
  "proj_Deployment (ObjDeployment x) = Some x" | "proj_Deployment _ = None"
fun proj_Service :: "kobj \<Rightarrow> Service option" where
  "proj_Service (ObjService x) = Some x" | "proj_Service _ = None"
fun proj_Ingress :: "kobj \<Rightarrow> Ingress option" where
  "proj_Ingress (ObjIngress x) = Some x" | "proj_Ingress _ = None"
fun proj_ConfigMap :: "kobj \<Rightarrow> ConfigMap option" where
  "proj_ConfigMap (ObjConfigMap x) = Some x" | "proj_ConfigMap _ = None"
fun proj_ExternalSecret :: "kobj \<Rightarrow> ExternalSecret option" where
  "proj_ExternalSecret (ObjExternalSecret x) = Some x" | "proj_ExternalSecret _ = None"
fun proj_PVC :: "kobj \<Rightarrow> PersistentVolumeClaim option" where
  "proj_PVC (ObjPVC x) = Some x" | "proj_PVC _ = None"
fun proj_RecurringJob :: "kobj \<Rightarrow> RecurringJob option" where
  "proj_RecurringJob (ObjRecurringJob x) = Some x" | "proj_RecurringJob _ = None"
fun proj_LonghornVolume :: "kobj \<Rightarrow> LonghornVolume option" where
  "proj_LonghornVolume (ObjLonghornVolume x) = Some x" | "proj_LonghornVolume _ = None"
fun proj_Pod :: "kobj \<Rightarrow> Pod option" where
  "proj_Pod (ObjPod x) = Some x" | "proj_Pod _ = None"
fun proj_AppBundle :: "kobj \<Rightarrow> AppBundle option" where
  "proj_AppBundle (ObjAppBundle x) = Some x" | "proj_AppBundle _ = None"
fun proj_AppBundleBase :: "kobj \<Rightarrow> AppBundleBase option" where
  "proj_AppBundleBase (ObjAppBundleBase x) = Some x" | "proj_AppBundleBase _ = None"

interpretation deployments: kube_kind KDeployment ObjDeployment proj_Deployment dep_ObjectMeta
  by unfold_locales (auto elim: proj_Deployment.elims)
interpretation services: kube_kind KService ObjService proj_Service svc_ObjectMeta
  by unfold_locales (auto elim: proj_Service.elims)
interpretation ingresses: kube_kind KIngress ObjIngress proj_Ingress ing_ObjectMeta
  by unfold_locales (auto elim: proj_Ingress.elims)
interpretation config_maps: kube_kind KConfigMap ObjConfigMap proj_ConfigMap cm_ObjectMeta
  by unfold_locales (auto elim: proj_ConfigMap.elims)
interpretation external_secrets: kube_kind KExternalSecret ObjExternalSecret proj_ExternalSecret xs_ObjectMeta
  by unfold_locales (auto elim: proj_ExternalSecret.elims)
interpretation pvcs: kube_kind KPVC ObjPVC proj_PVC pvc_ObjectMeta
  by unfold_locales (auto elim: proj_PVC.elims)
interpretation recurring_jobs: kube_kind KRecurringJob ObjRecurringJob proj_RecurringJob job_ObjectMeta
  by unfold_locales (auto elim: proj_RecurringJob.elims)
interpretation longhorn_volumes: kube_kind KLonghornVolume ObjLonghornVolume proj_LonghornVolume lv_ObjectMeta
  by unfold_locales (auto elim: proj_LonghornVolume.elims)
interpretation pods: kube_kind KPod ObjPod proj_Pod pod_ObjectMeta
  by unfold_locales (auto elim: proj_Pod.elims)
interpretation bundles: kube_kind KAppBundle ObjAppBundle proj_AppBundle ab_ObjectMeta
  by unfold_locales (auto elim: proj_AppBundle.elims)
interpretation bases: kube_kind KAppBundleBase ObjAppBundleBase proj_AppBundleBase abb_ObjectMeta
  by unfold_locales (auto elim: proj_AppBundleBase.elims)

text \<open>Writing into a list of objects what \<open>List\<close> returned: those of the right kind.\<close>

definition items_of :: "(kobj \<Rightarrow> 'o option) \<Rightarrow> kobj list \<Rightarrow> 'o list" where
  "items_of proj xs = List.map_filter proj xs"

subsection \<open>Diff messages\<close>

abbreviation newline :: string where
  "newline \<equiv> [CHR 0x0A]"

definition GetDiffPaths :: "ext \<Rightarrow> GoAny \<Rightarrow> GoAny \<Rightarrow> goerr + string" where
  "GetDiffPaths E oldObj newObj = rbind (ext_Diff E oldObj newObj) (\<lambda>changes.
     let paths = map (\<lambda>Path. concat (map (\<lambda>p. p @ ''/'') Path)) changes
     in Inr (newline @ concat (map (\<lambda>path. path @ newline) paths)))"

definition FormulateDiffMessageForSpecs :: "ext \<Rightarrow> GoAny \<Rightarrow> GoAny \<Rightarrow> goerr + string" where
  "FormulateDiffMessageForSpecs E oldObjSpec newObjSpec =
     rbind (GetDiffPaths E oldObjSpec newObjSpec)
       (\<lambda>diff. Inr (''Spec changed, namely the paths: '' @ diff))"

definition FormulateDiffMessageForLabels :: "ext \<Rightarrow> GoAny \<Rightarrow> GoAny \<Rightarrow> goerr + string" where
  "FormulateDiffMessageForLabels E oldObjLabels newObjLabels =
     rbind (GetDiffPaths E oldObjLabels newObjLabels)
       (\<lambda>diff. Inr (''Labels changed, namely the paths: '' @ diff))"

text \<open>A diff message, when there is one, is never empty.\<close>

lemma FormulateDiffMessageForSpecs_nonempty:
  "FormulateDiffMessageForSpecs E a b = Inr reason \<Longrightarrow> reason \<noteq> []"
  by (auto simp: FormulateDiffMessageForSpecs_def rbind_Inr_iff)

definition diff_total :: "ext \<Rightarrow> bool" where
  "diff_total E \<longleftrightarrow> (\<forall>a b. \<exists>cs. ext_Diff E a b = Inr cs)"

lemma diff_total_messages:
  assumes "diff_total E"
  shows "\<exists>r. FormulateDiffMessageForSpecs E a b = Inr r" and "\<exists>r. FormulateDiffMessageForLabels E a b = Inr r"
proof -
  obtain cs where "ext_Diff E a b = Inr cs" using assms unfolding diff_total_def by blast
  then show "\<exists>r. FormulateDiffMessageForSpecs E a b = Inr r"
    and "\<exists>r. FormulateDiffMessageForLabels E a b = Inr r"
    by (simp_all add: FormulateDiffMessageForSpecs_def FormulateDiffMessageForLabels_def
        GetDiffPaths_def Let_def)
qed

text \<open>
  \<open>reason, err := Formulate...; if err != nil { return err }\<close>.
\<close>

definition with_reason :: "goerr + string \<Rightarrow> (string \<Rightarrow> ('s, goerr option) prog) \<Rightarrow> ('s, goerr option) prog"
where
  "with_reason r c = (case r of Inl e \<Rightarrow> Done (Some e) | Inr reason \<Rightarrow> c reason)"

lemma with_reason_simps [simp]:
  "with_reason (Inl e) c = Done (Some e)" "with_reason (Inr x) c = c x"
  by (simp_all add: with_reason_def)

subsection \<open>UpsertResource\<close>

fun ErrorText :: "goerr \<Rightarrow> string" where
  "ErrorText (ErrorString m) = m"
| "ErrorText (APIStatus _ m) = m"
| "ErrorText (StateAlreadyRegisteredError i) = ''State for '' @ i @ '' is already registered.''"
| "ErrorText (StateNotRegisteredError i) = ''State for '' @ i @ '' is not registered.''"
| "ErrorText (DeveloperError m) = m"
| "ErrorText (GoPanic m) = m"

definition ShouldRecreateResource :: "goerr \<Rightarrow> bool" where
  "ShouldRecreateResource err \<longleftrightarrow>
     sublist ''is invalid: spec.selector: Invalid value:'' (ErrorText err) \<and>
     sublist ''field is immutable'' (ErrorText err)"

definition UpsertResource ::
    "kobj \<Rightarrow> string \<Rightarrow> goerr option \<Rightarrow> bool \<Rightarrow> ('s, goerr option) prog" where
  "UpsertResource newObj reason er neverDelete =
     (if er \<noteq> None \<and> \<not> IsNotFound er then Done er
      else (if reason \<noteq> [] then Log (''Upserting reason because: '' @ reason) else id)
       (if IsNotFound er
        then Log ''Creating resource.'' (Write (Create newObj) Done)
        else Log ''Resource exists but changes were found.''
          (Write (Update newObj) (\<lambda>u. case u of
              None \<Rightarrow> Done None
            | Some err \<Rightarrow>
                if ShouldRecreateResource err \<and> \<not> neverDelete
                then Write (Delete newObj) (\<lambda>d. case d of
                    Some derr \<Rightarrow> Done (Some derr)
                  | None \<Rightarrow> Write (Create newObj) (\<lambda>c. case c of
                      Some cerr \<Rightarrow> Done (Some cerr)
                    | None \<Rightarrow> Done (Some err)))
                else Done (Some err)))))"

end
