(* ===== verification/Labels.thy ===== *)
theory Labels
  imports Helpers
begin

section \<open>helpers.go: metadata and labels of derivative objects\<close>

text \<open>
  The object metadata the operator gives to what it creates, the default labels
  (\<open>SetDefaultAppBundleLabels\<close>), and the comparison of label maps (\<open>StringMapsMatch\<close>).
  The label loop is an interpretation of \<open>commuting_range\<close>: the labels do not depend on the
  order in which the runtime visits the labels of the bundle.
\<close>

abbreviation AppBundleSelector :: string where
  "AppBundleSelector \<equiv> ''appbundle''"

definition GetAppBundleObjectMetaWithOwnerReference :: "AppBundle \<Rightarrow> ObjectMeta" where
  "GetAppBundleObjectMetaWithOwnerReference ab =
     zero_meta\<lparr>om_Name := ab_Name ab, om_Namespace := ab_Namespace ab,
       om_OwnerReferences := [ab_OwnerReference ab]\<rparr>"

definition GetObjectMetaForIngress :: "AppBundle \<Rightarrow> goerr + ObjectMeta" where
  "GetObjectMetaForIngress ab = (case getSortedKeys (sp_Routes (ab_Spec ab)) of
     [] \<Rightarrow> Inl (GoPanic ''index out of range'')
   | firstKey # _ \<Rightarrow> Inr (zero_meta\<lparr>om_Name := ab_Name ab @ ''-'' @ firstKey,
       om_Namespace := ab_Namespace ab\<rparr>))"

definition GetAppBundleNamespacedName :: "AppBundle \<Rightarrow> string \<times> string" where
  "GetAppBundleNamespacedName ab = (ab_Name ab, ab_Namespace ab)"

lemma owner_meta_sel [simp]:
  "om_Name (GetAppBundleObjectMetaWithOwnerReference ab) = ab_Name ab"
  "om_Namespace (GetAppBundleObjectMetaWithOwnerReference ab) = ab_Namespace ab"
  "om_OwnerReferences (GetAppBundleObjectMetaWithOwnerReference ab) = [ab_OwnerReference ab]"
  "om_Labels (GetAppBundleObjectMetaWithOwnerReference ab) = None"
  "om_Annotations (GetAppBundleObjectMetaWithOwnerReference ab) = None"
  by (simp_all add: GetAppBundleObjectMetaWithOwnerReference_def)

subsection \<open>Default labels\<close>

definition argocd_key :: string where
  "argocd_key = ''argocd.argoproj.io/instance''"

definition label_body :: "string \<Rightarrow> string \<Rightarrow> strmap \<Rightarrow> strmap" where
  "label_body key value labels = (if key = argocd_key then labels else mput key value labels)"

definition own_labels :: "AppBundle \<Rightarrow> (string \<times> string) list" where
  "own_labels ab =
     [(''app.kubernetes.io/instance'', ab_Name ab),
      (''app.kubernetes.io/name'', ab_Name ab),
      (''atro.xyz/app-bundle'', ab_Name ab),
      (AppBundleSelector, ab_Name ab)]"

definition SetDefaultAppBundleLabels :: "AppBundle \<Rightarrow> strmap option \<Rightarrow> strmap" where
  "SetDefaultAppBundleLabels ab labels =
     mputs (own_labels ab)
       (range_loop label_body (entries (om_Labels (ab_ObjectMeta ab))) (entries labels))"

interpretation label_loop: commuting_range label_body map_of
    "\<lambda>k v m. if k = argocd_key then m else m(k \<mapsto> v)"
  by unfold_locales (auto simp: label_body_def fun_upd_twist)

lemma wf_label_loop: "wf_map m \<Longrightarrow> wf_map (range_loop label_body ls m)"
  by (induction ls arbitrary: m) (auto simp: label_body_def)

lemma wf_default_labels: "wf_map (entries labels) \<Longrightarrow> wf_map (SetDefaultAppBundleLabels ab labels)"
  by (simp add: SetDefaultAppBundleLabels_def wf_label_loop)

text \<open>What the loop puts under a key: the bundle's label, or else what was there.\<close>

lemma label_loop_lookup:
  assumes "wf_map ls"
  shows "map_of (range_loop label_body ls m) k =
    (if k = argocd_key then map_of m k
     else case map_of ls k of Some v \<Rightarrow> Some v | None \<Rightarrow> map_of m k)"
  using assms
proof (induction ls arbitrary: m)
  case Nil
  then show ?case by simp
next
  case (Cons kv ls)
  obtain k' v where kv: "kv = (k', v)" by (cases kv)
  with Cons.prems have "wf_map ls" and "map_of ls k' = None"
    by (auto simp: wf_map_def map_of_eq_None_iff)
  with Cons.IH show ?case
    by (auto simp: kv label_body_def split: option.splits)
qed

lemma own_label_keys:
  "fst ` set (own_labels ab) = {''app.kubernetes.io/instance'', ''app.kubernetes.io/name'',
     ''atro.xyz/app-bundle'', AppBundleSelector}"
  by (simp add: own_labels_def insert_commute)

lemma own_labels_lookup:
  "map_of (rev (own_labels ab)) k =
    (if k \<in> fst ` set (own_labels ab) then Some (ab_Name ab) else None)"
  by (auto simp: own_labels_def)

lemma default_labels_lookup:
  assumes "wf_map (entries (om_Labels (ab_ObjectMeta ab)))"
  shows "map_of (SetDefaultAppBundleLabels ab labels) k =
    (if k \<in> fst ` set (own_labels ab) then Some (ab_Name ab)
     else if k = argocd_key then mget labels k
     else case mget (om_Labels (ab_ObjectMeta ab)) k of Some v \<Rightarrow> Some v | None \<Rightarrow> mget labels k)"
  using assms unfolding mget_def
  by (simp add: SetDefaultAppBundleLabels_def map_of_mputs own_labels_lookup map_add_def
      label_loop_lookup)

lemma default_labels_own [simp]:
  "k \<in> fst ` set (own_labels ab) \<Longrightarrow> map_of (SetDefaultAppBundleLabels ab labels) k = Some (ab_Name ab)"
  by (simp add: SetDefaultAppBundleLabels_def map_of_mputs own_labels_lookup map_add_def)

lemma default_labels_selector [simp]:
  "map_of (SetDefaultAppBundleLabels ab labels) AppBundleSelector = Some (ab_Name ab)"
  by (rule default_labels_own) (simp add: own_label_keys)

text \<open>Two bundles whose label maps agree give the same labels, whatever the iteration order.\<close>

lemma default_labels_order:
  assumes "same_map (entries (om_Labels (ab_ObjectMeta ab))) (entries (om_Labels (ab_ObjectMeta ab')))"
    and "ab_Name ab = ab_Name ab'" and "wf_map (entries labels)"
  shows "same_map (SetDefaultAppBundleLabels ab labels) (SetDefaultAppBundleLabels ab' labels)"
proof -
  have "map_of (range_loop label_body (entries (om_Labels (ab_ObjectMeta ab))) (entries labels)) =
      map_of (range_loop label_body (entries (om_Labels (ab_ObjectMeta ab'))) (entries labels))"
    using assms(1) by (rule label_loop.order_independent) simp
  moreover have "own_labels ab = own_labels ab'"
    using assms(2) by (simp add: own_labels_def)
  ultimately show ?thesis
    using assms(3)
    by (simp add: same_map_iff wf_default_labels)
      (simp add: SetDefaultAppBundleLabels_def map_of_mputs)
qed

subsection \<open>Comparing label maps\<close>

fun maps_match_loop :: "strmap \<Rightarrow> strmap option \<Rightarrow> bool" where
  "maps_match_loop [] m2 = True"
| "maps_match_loop ((key, value) # rest) m2 =
     (case mget m2 key of
        None \<Rightarrow> False
      | Some val \<Rightarrow> if val \<noteq> value then False else maps_match_loop rest m2)"

definition StringMapsMatch :: "strmap option \<Rightarrow> strmap option \<Rightarrow> bool" where
  "StringMapsMatch m1 m2 =
     (if length (entries m1) \<noteq> length (entries m2) then False
      else maps_match_loop (entries m1) m2)"

lemma maps_match_loop_iff:
  "maps_match_loop m m2 \<longleftrightarrow> (\<forall>(k, v)\<in>set m. mget m2 k = Some v)"
  by (induction m m2 rule: maps_match_loop.induct) (auto split: option.splits)

lemma StringMapsMatch_iff:
  assumes "wf_map (entries m1)" and "wf_map (entries m2)"
  shows "StringMapsMatch m1 m2 \<longleftrightarrow> (\<forall>k. mget m1 k = mget m2 k)"
proof
  have set_of: "set (entries m) = {(k, v). mget m k = Some v}" if "wf_map (entries m)" for m :: "strmap option"
    using that by (auto simp: mget_def wf_map_def)
  have card_of: "card (set (entries m)) = length (entries m)" if "wf_map (entries m)" for m :: "strmap option"
    using that by (auto simp: wf_map_def distinct_map intro: distinct_card)
  assume "StringMapsMatch m1 m2"
  then have len: "length (entries m1) = length (entries m2)"
    and sub: "set (entries m1) \<subseteq> set (entries m2)"
    using assms by (auto simp: StringMapsMatch_def maps_match_loop_iff set_of split: if_splits)
  have "set (entries m1) = set (entries m2)"
    by (rule card_subset_eq [OF _ sub]) (simp_all add: card_of assms len)
  then show "\<forall>k. mget m1 k = mget m2 k"
    using assms map_of_inject_set [of "entries m1" "entries m2"] by (simp add: mget_def wf_map_def)
next
  assume eq: "\<forall>k. mget m1 k = mget m2 k"
  then have "same_map (entries m1) (entries m2)"
    using assms by (simp add: same_map_iff mget_def fun_eq_iff)
  then have "length (entries m1) = length (entries m2)"
    by (metis same_map_def size_mset)
  moreover have "maps_match_loop (entries m1) m2"
    unfolding maps_match_loop_iff using assms eq
    by (auto simp: mget_def wf_map_def) (metis map_of_eq_Some_iff)
  ultimately show "StringMapsMatch m1 m2"
    by (simp add: StringMapsMatch_def)
qed

lemma labels_differ_from_none: "\<not> StringMapsMatch (Some (SetDefaultAppBundleLabels ab l)) None"
  using default_labels_selector [of ab l]
  by (cases "SetDefaultAppBundleLabels ab l") (auto simp: StringMapsMatch_def)

lemma StringMapsMatch_refl: "wf_map (entries m) \<Longrightarrow> StringMapsMatch m m"
  by (simp add: StringMapsMatch_iff)

end
