(* ===== verification/Upsert.thy ===== *)
theory Upsert
  imports Labels
begin

section \<open>Facts about UpsertResource\<close>

text \<open>
  The behaviour of \<open>UpsertResource\<close> (\<open>helpers.go\<close>) on each branch, for any client: an
  error of the preceding \<open>Get\<close> other than "not found" is returned untouched; "not found" leads
  to one \<open>Create\<close>; an object that exists is updated, and an update that the server refuses
  because the selector is immutable leads to a delete and a create, unless deleting is forbidden.
\<close>

lemma upsert_get_error:
  "er \<noteq> None \<Longrightarrow> \<not> IsNotFound er \<Longrightarrow> UpsertResource obj reason er nd = Done er"
  by (simp add: UpsertResource_def)

lemma sat_UpsertResource:
  assumes "IsNotFound er \<Longrightarrow> P (Create obj)"
    and "er = None \<Longrightarrow> P (Update obj)"
    and "er = None \<Longrightarrow> \<not> nd \<Longrightarrow> P (Delete obj) \<and> P (Create obj)"
    and "\<And>e. Q e"
  shows "sat I P Q (UpsertResource obj reason er nd)"
proof (cases "er = None \<or> IsNotFound er")
  case True
  then show ?thesis
    using assms by (cases er) (auto simp: UpsertResource_def split: option.split)
next
  case False
  then show ?thesis using assms(4) by (simp add: upsert_get_error)
qed

lemma run_upsert_create:
  assumes "IsNotFound er"
  shows "run A (UpsertResource obj reason er nd) w s =
    (case api_write A (Create obj) w of (e, w') \<Rightarrow> (e, w', s))"
  using assms by (cases er) (auto simp: UpsertResource_def split: prod.split)

lemma writes_upsert_create:
  assumes "IsNotFound er"
  shows "writes A (UpsertResource obj reason er nd) w s = [(Create obj, fst (api_write A (Create obj) w))]"
  using assms by (cases er) (auto simp: UpsertResource_def split: prod.split)

lemma run_upsert_update:
  assumes "api_write A (Update obj) w = (None, w')"
  shows "run A (UpsertResource obj reason None nd) w s = (None, w', s)"
  using assms by (simp add: UpsertResource_def)

lemma writes_upsert_update:
  assumes "api_write A (Update obj) w = (None, w')"
  shows "writes A (UpsertResource obj reason None nd) w s = [(Update obj, None)]"
  using assms by (simp add: UpsertResource_def)

lemma run_upsert_update_refused:
  assumes "api_write A (Update obj) w = (Some err, w')" and "nd \<or> \<not> ShouldRecreateResource err"
  shows "run A (UpsertResource obj reason None nd) w s = (Some err, w', s)"
    and "writes A (UpsertResource obj reason None nd) w s = [(Update obj, Some err)]"
  using assms by (auto simp: UpsertResource_def)

lemma run_upsert_recreate:
  assumes "api_write A (Update obj) w = (Some err, w1)" and "ShouldRecreateResource err"
    and "api_write A (Delete obj) w1 = (None, w2)" and "api_write A (Create obj) w2 = (None, w3)"
  shows "run A (UpsertResource obj reason None False) w s = (Some err, w3, s)"
    and "writes A (UpsertResource obj reason None False) w s =
      [(Update obj, Some err), (Delete obj, None), (Create obj, None)]"
  using assms by (auto simp: UpsertResource_def)

lemma run_upsert_recreate_delete_refused:
  assumes "api_write A (Update obj) w = (Some err, w1)" and "ShouldRecreateResource err"
    and "api_write A (Delete obj) w1 = (Some derr, w2)"
  shows "run A (UpsertResource obj reason None False) w s = (Some derr, w2, s)"
    and "writes A (UpsertResource obj reason None False) w s =
      [(Update obj, Some err), (Delete obj, Some derr)]"
  using assms by (auto simp: UpsertResource_def)

lemma upsert_success_writes_aux:
  assumes "run A (UpsertResource obj reason er nd) w s = (None, w', s')"
  shows "(IsNotFound er \<and> writes A (UpsertResource obj reason er nd) w s = [(Create obj, None)]) \<or>
    (er = None \<and> writes A (UpsertResource obj reason er nd) w s = [(Update obj, None)])"
proof (cases "IsNotFound er")
  case True
  with assms show ?thesis
    by (auto simp: run_upsert_create writes_upsert_create split: prod.splits)
next
  case False
  with assms have "er = None" by (cases er) (auto simp: UpsertResource_def)
  with assms show ?thesis
    by (auto simp: UpsertResource_def split: prod.splits option.splits if_splits)
qed

end
