(* ===== verification/StateCache.thy ===== *)
theory StateCache
  imports Program
begin

section \<open>state.go: the in-memory state cache\<close>

text \<open>
  \<open>internal/controller/state.go\<close>: a global map from object identifiers to the state last
  seen, guarded by one mutex. The map holds pointers; an entry is allocated once per
  identifier, is never replaced by another pointer and never shared between
  identifiers, so the entry of an identifier is its value here and a write through the pointer is a
  write to the entry. Times are seconds since the epoch.

  The second half is the cache as a state machine: its steps are what the operator does to it.
  \<open>UpdateState\<close> is modelled and proved, but no code of the operator calls it, so it is not a step.
\<close>

subsection \<open>The interface value AppId, the cache and its operations\<close>

record AppId =
  app_ID :: string
  app_GetSpecHash :: "goerr + string"
  app_GetLastReconciliation :: "bool \<times> string"

record AppBundleState =
  as_SpecHash :: string
  as_LastReconciliation :: int
  as_NextBackoffInSec :: "16 word"

type_synonym cache = "AppBundleState gomap"

definition RegisterStateIfNotAlreadyRegistered :: "AppId \<Rightarrow> cache \<Rightarrow> goerr option \<times> cache" where
  "RegisterStateIfNotAlreadyRegistered app State =
     (case map_of State (app_ID app) of
        None \<Rightarrow> (case app_GetSpecHash app of
            Inl err \<Rightarrow> (Some err, State)
          | Inr currentSpecHash \<Rightarrow>
              (None, mput (app_ID app)
                 \<lparr>as_SpecHash = currentSpecHash, as_LastReconciliation = 0, as_NextBackoffInSec = 10\<rparr>
                 State))
      | Some _ \<Rightarrow> (Some (StateAlreadyRegisteredError (app_ID app)), State))"

definition UpdateState :: "AppId \<Rightarrow> int \<Rightarrow> cache \<Rightarrow> goerr option \<times> cache" where
  "UpdateState app now State =
     (case map_of State (app_ID app) of
        None \<Rightarrow> (Some (StateNotRegisteredError (app_ID app)), State)
      | Some val \<Rightarrow> (case app_GetSpecHash app of
            Inl err \<Rightarrow> (Some err, State)
          | Inr currentSpecHash \<Rightarrow>
              (None, mput (app_ID app)
                 (val\<lparr>as_SpecHash := currentSpecHash, as_LastReconciliation := now\<rparr>) State)))"

definition GetState :: "AppId \<Rightarrow> cache \<Rightarrow> goerr + AppBundleState" where
  "GetState app State =
     (case map_of State (app_ID app) of
        None \<Rightarrow> Inl (StateNotRegisteredError (app_ID app))
      | Some val \<Rightarrow> Inr val)"

definition StateNeedsUpdating :: "AppId \<Rightarrow> bool \<Rightarrow> int \<Rightarrow> cache \<Rightarrow> goerr + bool" where
  "StateNeedsUpdating app alreadyRegistered now State =
     (if \<not> alreadyRegistered then Inr True
      else rbind (GetState app State) (\<lambda>state.
        rbind (app_GetSpecHash app) (\<lambda>currentSpecHash.
          let anyRecon = fst (app_GetLastReconciliation app) in
          if as_SpecHash state \<noteq> currentSpecHash \<or> \<not> anyRecon \<or>
             now - as_LastReconciliation state > 30
          then Inr True else Inr False)))"

text \<open>\<open>stateAb.SpecHash = ""\<close> of the base controller, through the pointer of \<open>GetState\<close>.\<close>

definition ResetSpecHash :: "string \<Rightarrow> cache \<Rightarrow> cache" where
  "ResetSpecHash i State =
     (case map_of State i of None \<Rightarrow> State | Some val \<Rightarrow> mput i (val\<lparr>as_SpecHash := []\<rparr>) State)"

lemma register_new:
  assumes "map_of State (app_ID app) = None" and "app_GetSpecHash app = Inr h"
  shows "RegisterStateIfNotAlreadyRegistered app State =
    (None, mput (app_ID app) \<lparr>as_SpecHash = h, as_LastReconciliation = 0, as_NextBackoffInSec = 10\<rparr> State)"
  using assms by (simp add: RegisterStateIfNotAlreadyRegistered_def)

lemma register_known:
  assumes "map_of State (app_ID app) = Some v"
  shows "RegisterStateIfNotAlreadyRegistered app State =
    (Some (StateAlreadyRegisteredError (app_ID app)), State)"
  using assms by (simp add: RegisterStateIfNotAlreadyRegistered_def)

lemma register_other:
  "i \<noteq> app_ID app \<Longrightarrow>
    map_of (snd (RegisterStateIfNotAlreadyRegistered app State)) i = map_of State i"
  by (auto simp: RegisterStateIfNotAlreadyRegistered_def split: option.split sum.split)

lemma wf_register: "wf_map State \<Longrightarrow> wf_map (snd (RegisterStateIfNotAlreadyRegistered app State))"
  by (auto simp: RegisterStateIfNotAlreadyRegistered_def split: option.split sum.split)

lemma wf_update: "wf_map State \<Longrightarrow> wf_map (snd (UpdateState app now State))"
  by (auto simp: UpdateState_def split: option.split sum.split)

lemma wf_reset: "wf_map State \<Longrightarrow> wf_map (ResetSpecHash i State)"
  by (auto simp: ResetSpecHash_def split: option.split)

subsection \<open>The cache as a state machine\<close>

inductive cache_step :: "cache \<Rightarrow> cache \<Rightarrow> bool" where
  register: "cache_step State (snd (RegisterStateIfNotAlreadyRegistered app State))"
| reset: "cache_step State (ResetSpecHash i State)"

inductive cache_reachable :: "cache \<Rightarrow> bool" where
  cache_empty: "cache_reachable []"
| cache_next: "cache_reachable State \<Longrightarrow> cache_step State State' \<Longrightarrow> cache_reachable State'"

inductive_cases cache_stepE: "cache_step State State'"

definition cache_inv :: "cache \<Rightarrow> bool" where
  "cache_inv State \<longleftrightarrow> wf_map State \<and>
     (\<forall>i v. map_of State i = Some v \<longrightarrow> as_LastReconciliation v = 0 \<and> as_NextBackoffInSec v = 10)"

lemma cache_step_inv:
  assumes "cache_step State State'" and "cache_inv State"
  shows "cache_inv State'"
  using assms(1)
proof (cases rule: cache_step.cases)
  case (register app)
  with assms(2) show ?thesis
    by (auto simp: cache_inv_def wf_register RegisterStateIfNotAlreadyRegistered_def
        split: option.splits sum.splits if_splits)
next
  case (reset i)
  with assms(2) show ?thesis
    by (auto simp: cache_inv_def wf_reset ResetSpecHash_def split: option.splits if_splits)
qed

lemma cache_reachable_inv: "cache_reachable State \<Longrightarrow> cache_inv State"
proof (induction rule: cache_reachable.induct)
  case cache_empty
  show ?case by (simp add: cache_inv_def)
next
  case cache_next
  then show ?case by (blast intro: cache_step_inv)
qed

text \<open>A known object stays known: no step removes an entry.\<close>

lemma cache_step_keeps:
  assumes "cache_step State State'" and "map_of State i \<noteq> None"
  shows "map_of State' i \<noteq> None"
  using assms
  by (auto elim!: cache_stepE simp: RegisterStateIfNotAlreadyRegistered_def ResetSpecHash_def
      split: option.splits sum.splits)

end
