(* ===== verification/Framework.thy ===== *)
theory Framework
  imports Program
begin

section \<open>framework.go: the table of resource mutexes\<close>

text \<open>
  \<open>internal/controller/framework.go\<close>: the constants of the deployment, and \<open>getMutex\<close>,
  which hands out one mutex per resource type and full name, allocating it on first use. A
  \<open>*sync.Mutex\<close> is its address, a number; the allocator is the counter \<open>rm_next\<close>. The table
  is guarded by its own mutex, so an operation is atomic.

  The abstract view of the table is that a mutex is its resource type and full name: the
  theorems show that two calls return the same pointer exactly when they agree on both,
  however many calls are made in between. The programs of the other theories therefore name
  a mutex by that pair (type \<open>mutex\<close>, \<open>mutex_key\<close>).
\<close>

subsection \<open>Constants\<close>

definition image_pull_secrets :: "string list" where
  "image_pull_secrets = [''regcred'']"

definition auth_middleware :: string where
  "auth_middleware = ''auth-authelia@kubernetescrd''"

definition entry_point :: string where
  "entry_point = ''websecure''"

definition cluster_issuer :: string where
  "cluster_issuer = ''letsencrypt''"

definition base_homepage_instance :: string where
  "base_homepage_instance = ''atro''"

subsection \<open>getMutex\<close>

record ResourceMutexes =
  rm_m :: "nat gomap gomap"
  rm_next :: nat

definition no_mutexes :: ResourceMutexes where
  "no_mutexes = \<lparr>rm_m = [], rm_next = 0\<rparr>"

definition fullName :: "string \<Rightarrow> string \<Rightarrow> string" where
  "fullName name namespace = name @ ''-'' @ namespace"

definition mutex_key :: "string \<Rightarrow> string \<Rightarrow> string \<Rightarrow> mutex" where
  "mutex_key resourceType name namespace = (resourceType, fullName name namespace)"

definition getMutex :: "string \<Rightarrow> string \<Rightarrow> string \<Rightarrow> ResourceMutexes \<Rightarrow> nat \<times> ResourceMutexes" where
  "getMutex resourceType name namespace R =
     (let full = fullName name namespace;
          m = (case map_of (rm_m R) resourceType of
                 None \<Rightarrow> mput resourceType [] (rm_m R) | Some _ \<Rightarrow> rm_m R);
          inner = (case map_of m resourceType of None \<Rightarrow> [] | Some x \<Rightarrow> x)
      in case map_of inner full of
           Some mu \<Rightarrow> (mu, R\<lparr>rm_m := m\<rparr>)
         | None \<Rightarrow> (let mu = rm_next R
                    in (mu, R\<lparr>rm_m := mput resourceType (mput full mu inner) m, rm_next := Suc mu\<rparr>)))"

text \<open>The table seen as a partial function from resource type and full name to addresses.\<close>

definition mutex_at :: "ResourceMutexes \<Rightarrow> mutex \<Rightarrow> nat option" where
  "mutex_at R k = (case map_of (rm_m R) (fst k) of None \<Rightarrow> None | Some inner \<Rightarrow> map_of inner (snd k))"

definition mutex_inv :: "ResourceMutexes \<Rightarrow> bool" where
  "mutex_inv R \<longleftrightarrow>
     (\<forall>k p. mutex_at R k = Some p \<longrightarrow> p < rm_next R) \<and>
     (\<forall>k k' p. mutex_at R k = Some p \<longrightarrow> mutex_at R k' = Some p \<longrightarrow> k = k')"

lemma mutex_inv_init: "mutex_inv no_mutexes"
  by (simp add: mutex_inv_def no_mutexes_def mutex_at_def)

text \<open>\<open>getMutex\<close> on the abstract table: look up, or allocate a fresh address.\<close>

lemma getMutex_abs:
  assumes "getMutex rt n ns R = (p, R')"
  shows "(case mutex_at R (mutex_key rt n ns) of
      Some q \<Rightarrow> p = q \<and> mutex_at R' = mutex_at R \<and> rm_next R' = rm_next R
    | None \<Rightarrow> p = rm_next R \<and> mutex_at R' = (mutex_at R)(mutex_key rt n ns \<mapsto> p) \<and>
        rm_next R' = Suc (rm_next R))"
  using assms
  by (auto simp: getMutex_def mutex_at_def mutex_key_def Let_def fun_eq_iff
      split: option.splits if_splits)

lemma getMutex_registers:
  "getMutex rt n ns R = (p, R') \<Longrightarrow> mutex_at R' (mutex_key rt n ns) = Some p"
  using getMutex_abs [of rt n ns R p R'] by (auto split: option.splits)

lemma getMutex_keeps:
  "getMutex rt n ns R = (p, R') \<Longrightarrow> mutex_at R k = Some q \<Longrightarrow> mutex_at R' k = Some q"
  using getMutex_abs [of rt n ns R p R'] by (auto split: option.splits)

lemma getMutex_inv:
  assumes "mutex_inv R" and "getMutex rt n ns R = (p, R')"
  shows "mutex_inv R'"
proof (cases "mutex_at R (mutex_key rt n ns)")
  case None
  with getMutex_abs [OF assms(2)] have p: "p = rm_next R"
    and at: "mutex_at R' = (mutex_at R)(mutex_key rt n ns \<mapsto> p)" and nx: "rm_next R' = Suc (rm_next R)"
    by auto
  show ?thesis
    using assms(1) unfolding mutex_inv_def at nx
    by (simp add: p less_Suc_eq del: split_paired_All) (metis less_irrefl)
next
  case (Some q)
  with getMutex_abs [OF assms(2)] assms(1) show ?thesis by (simp add: mutex_inv_def)
qed

text \<open>A sequence of calls, with the addresses they return.\<close>

fun getMutexes :: "(string \<times> string \<times> string) list \<Rightarrow> ResourceMutexes \<Rightarrow> nat list \<times> ResourceMutexes" where
  "getMutexes [] R = ([], R)"
| "getMutexes ((rt, n, ns) # cs) R =
     (case getMutex rt n ns R of (p, R') \<Rightarrow>
        (case getMutexes cs R' of (ps, R'') \<Rightarrow> (p # ps, R'')))"

lemma getMutexes_inv: "mutex_inv R \<Longrightarrow> getMutexes cs R = (ps, R') \<Longrightarrow> mutex_inv R'"
proof (induction cs R arbitrary: ps rule: getMutexes.induct)
  case 1
  then show ?case by simp
next
  case (2 rt n ns cs R)
  then show ?case by (auto split: prod.splits dest: getMutex_inv)
qed

lemma getMutexes_keep:
  "getMutexes cs R = (ps, R') \<Longrightarrow> mutex_at R k = Some q \<Longrightarrow> mutex_at R' k = Some q"
proof (induction cs R arbitrary: ps rule: getMutexes.induct)
  case 1
  then show ?case by simp
next
  case (2 rt n ns cs R)
  then show ?case by (auto split: prod.splits dest: getMutex_keeps)
qed

lemma getMutexes_at:
  "getMutexes cs R = (ps, R') \<Longrightarrow>
    list_all2 (\<lambda>(rt, n, ns) p. mutex_at R' (mutex_key rt n ns) = Some p) cs ps"
proof (induction cs R arbitrary: ps rule: getMutexes.induct)
  case 1
  then show ?case by simp
next
  case (2 rt n ns cs R)
  then show ?case
    by (auto split: prod.splits dest: getMutex_registers getMutexes_keep)
qed

lemma mutex_pointer_iff:
  assumes "mutex_inv R" and "mutex_at R k = Some p" and "mutex_at R k' = Some p'"
  shows "p = p' \<longleftrightarrow> k = k'"
  using assms unfolding mutex_inv_def by (metis option.inject)

text \<open>The full name determines name and namespace when the namespace has no dash.\<close>

lemma fullName_inject:
  assumes "CHR ''-'' \<notin> set ns" and "CHR ''-'' \<notin> set ns'"
  shows "fullName n ns = fullName n' ns' \<longleftrightarrow> n = n' \<and> ns = ns'"
proof
  assume "fullName n ns = fullName n' ns'"
  then have "rev ns @ CHR ''-'' # rev n = rev ns' @ CHR ''-'' # rev n'"
    by (metis append.assoc append_Cons append_Nil fullName_def rev.simps(2) rev_append rev_rev_ident)
  then have "rev ns = rev ns' \<and> rev n = rev n'"
    by (rule split_at_separator) (use assms in auto)
  then show "n = n' \<and> ns = ns'" by simp
qed simp

subsection \<open>Properties\<close>

definition call_key :: "string \<times> string \<times> string \<Rightarrow> mutex" where
  "call_key c = (case c of (rt, n, ns) \<Rightarrow> mutex_key rt n ns)"

text \<open>C34.
  The table of mutexes implements the abstract one, in which a mutex is a resource type and a full name: in any sequence of calls of
  \<open>getMutex\<close> from the empty table, with any calls in between, two calls return the same pointer exactly when they
  agree on both; so the mutexes of distinct resource types are distinct, a mutex is never replaced, and no two keys share one.
\<close>

theorem mutex_pointers_name_resources:
  assumes "getMutexes cs no_mutexes = (ps, R)" and "i < length cs" and "j < length cs"
  shows "ps ! i = ps ! j \<longleftrightarrow> call_key (cs ! i) = call_key (cs ! j)"
proof -
  have inv: "mutex_inv R" by (rule getMutexes_inv [OF mutex_inv_init assms(1)])
  have "mutex_at R (call_key (cs ! k)) = Some (ps ! k)" if "k < length cs" for k
    using list_all2_nthD [OF getMutexes_at [OF assms(1)] that] by (simp add: call_key_def split: prod.splits)
  with mutex_pointer_iff [OF inv] assms(2,3) show ?thesis by simp
qed

theorem mutex_pointers_name_resources_witness:
  "\<exists>ps R. getMutexes [(''service'', ''web'', ''prod''), (''volume'', ''web'', ''prod''), (''service'', ''web'', ''prod'')] no_mutexes =
    (ps, R) \<and> ps ! 0 = ps ! 2 \<and> ps ! 0 \<noteq> ps ! 1"
proof -
  let ?cs = "[(''service'', ''web'', ''prod''), (''volume'', ''web'', ''prod''), (''service'', ''web'', ''prod'')]"
  obtain ps R where r: "getMutexes ?cs no_mutexes = (ps, R)" by (cases "getMutexes ?cs no_mutexes")
  from mutex_pointers_name_resources [OF r, of 0 2] mutex_pointers_name_resources [OF r, of 0 1] r
  show ?thesis by (simp add: call_key_def mutex_key_def)
qed

end
