(* ===== verification/Memory.thy ===== *)
theory Memory
  imports Upsert StateCache Framework
begin

section \<open>The memory that the goroutines of a reconciliation share\<close>

text \<open>
  A reconciliation works on one \<open>AppBundle\<close> struct, to which all its goroutines hold a
  pointer, and on the global state cache. \<open>ReadBundle\<close> reads the struct at one moment;
  \<open>UpdateBundle f\<close> reads and writes it in one atomic step, \<open>f\<close> giving a result and the
  new struct.

  After the base has been resolved the goroutines write two fields of the struct only: the
  annotation map and \<open>Spec.ServiceType\<close>. \<open>frame ab0\<close> says that the shared struct is
  \<open>ab0\<close> up to those two; it is the invariant that every goroutine may rely on and has to keep.
  The locale \<open>reconciler\<close> is the contract of one reconcile function: under the frame it
  sends allowed writes only.
\<close>

record mem =
  m_bundle :: AppBundle
  m_State :: cache

type_synonym 'a mprog = "(mem, 'a) prog"

definition ReadBundle :: "(AppBundle \<Rightarrow> 'a mprog) \<Rightarrow> 'a mprog" where
  "ReadBundle c = Access id (\<lambda>m. c (m_bundle m))"

definition UpdateBundle :: "(AppBundle \<Rightarrow> 'r \<times> AppBundle) \<Rightarrow> ('r \<Rightarrow> 'a mprog) \<Rightarrow> 'a mprog" where
  "UpdateBundle f c =
     Access (\<lambda>m. m\<lparr>m_bundle := snd (f (m_bundle m))\<rparr>) (\<lambda>m. c (fst (f (m_bundle m))))"

lemma run_ReadBundle [simp]: "run A (ReadBundle c) w m = run A (c (m_bundle m)) w m"
  by (simp add: ReadBundle_def)

lemma writes_ReadBundle [simp]: "writes A (ReadBundle c) w m = writes A (c (m_bundle m)) w m"
  by (simp add: ReadBundle_def)

lemma run_UpdateBundle [simp]:
  "run A (UpdateBundle f c) w m =
    run A (c (fst (f (m_bundle m)))) w (m\<lparr>m_bundle := snd (f (m_bundle m))\<rparr>)"
  by (simp add: UpdateBundle_def)

lemma writes_UpdateBundle [simp]:
  "writes A (UpdateBundle f c) w m =
    writes A (c (fst (f (m_bundle m)))) w (m\<lparr>m_bundle := snd (f (m_bundle m))\<rparr>)"
  by (simp add: UpdateBundle_def)

subsection \<open>The frame of the goroutines\<close>

definition strip :: "AppBundle \<Rightarrow> AppBundle" where
  "strip ab = ab\<lparr>ab_ObjectMeta := (ab_ObjectMeta ab)\<lparr>om_Annotations := None\<rparr>,
     ab_Spec := (ab_Spec ab)\<lparr>sp_ServiceType := None\<rparr>\<rparr>"

definition agrees :: "AppBundle \<Rightarrow> AppBundle \<Rightarrow> bool" where
  "agrees ab0 ab \<longleftrightarrow> strip ab = strip ab0"

text \<open>Writing the bundle's own annotation map, which does nothing to a nil map.\<close>

definition set_annotations :: "strmap \<Rightarrow> AppBundle \<Rightarrow> AppBundle" where
  "set_annotations m ab =
     (if om_Annotations (ab_ObjectMeta ab) = None then ab
      else ab\<lparr>ab_ObjectMeta := (ab_ObjectMeta ab)\<lparr>om_Annotations := Some m\<rparr>\<rparr>)"

definition frame :: "AppBundle \<Rightarrow> mem \<Rightarrow> bool" where
  "frame ab0 m \<longleftrightarrow> agrees ab0 (m_bundle m)"

lemma agrees_refl [simp]: "agrees ab ab"
  by (simp add: agrees_def)

lemma agrees_trans: "agrees a b \<Longrightarrow> agrees b c \<Longrightarrow> agrees a c"
  by (simp add: agrees_def)

lemma set_annotations_sel [simp]:
  "ab_Spec (set_annotations m ab) = ab_Spec ab"
  "ab_TypeMeta (set_annotations m ab) = ab_TypeMeta ab"
  "ab_Name (set_annotations m ab) = ab_Name ab"
  "ab_Namespace (set_annotations m ab) = ab_Namespace ab"
  "om_Labels (ab_ObjectMeta (set_annotations m ab)) = om_Labels (ab_ObjectMeta ab)"
  "om_UID (ab_ObjectMeta (set_annotations m ab)) = om_UID (ab_ObjectMeta ab)"
  by (simp_all add: set_annotations_def)

lemma agrees_set_annotations: "agrees ab0 ab \<Longrightarrow> agrees ab0 (set_annotations m ab)"
  by (simp add: agrees_def strip_def set_annotations_def)

lemma agrees_meta:
  assumes "agrees ab0 ab"
  shows "ab_Name ab = ab_Name ab0" and "ab_Namespace ab = ab_Namespace ab0"
    and "om_UID (ab_ObjectMeta ab) = om_UID (ab_ObjectMeta ab0)"
    and "om_Labels (ab_ObjectMeta ab) = om_Labels (ab_ObjectMeta ab0)"
    and "ab_TypeMeta ab = ab_TypeMeta ab0"
proof -
  have "strip ab = strip ab0" using assms by (simp add: agrees_def)
  then have m: "ab_ObjectMeta (strip ab) = ab_ObjectMeta (strip ab0)"
    and t: "ab_TypeMeta (strip ab) = ab_TypeMeta (strip ab0)" by simp_all
  from m have m': "(ab_ObjectMeta ab)\<lparr>om_Annotations := None\<rparr> = (ab_ObjectMeta ab0)\<lparr>om_Annotations := None\<rparr>"
    by (simp add: strip_def)
  from arg_cong [OF m', of om_Name] show "ab_Name ab = ab_Name ab0" by simp
  from arg_cong [OF m', of om_Namespace] show "ab_Namespace ab = ab_Namespace ab0" by simp
  from arg_cong [OF m', of om_UID] show "om_UID (ab_ObjectMeta ab) = om_UID (ab_ObjectMeta ab0)" by simp
  from arg_cong [OF m', of om_Labels] show "om_Labels (ab_ObjectMeta ab) = om_Labels (ab_ObjectMeta ab0)" by simp
  from t show "ab_TypeMeta ab = ab_TypeMeta ab0" by (simp add: strip_def)
qed

lemma agrees_spec_eq:
  "agrees ab0 ab \<Longrightarrow>
    (ab_Spec ab)\<lparr>sp_ServiceType := None\<rparr> = (ab_Spec ab0)\<lparr>sp_ServiceType := None\<rparr>"
  unfolding agrees_def strip_def by (drule arg_cong [where f = ab_Spec]) simp

lemma agrees_spec:
  assumes "agrees ab0 ab"
  shows "sp_Routes (ab_Spec ab) = sp_Routes (ab_Spec ab0)"
    and "sp_Homepage (ab_Spec ab) = sp_Homepage (ab_Spec ab0)"
    and "sp_TailscaleName (ab_Spec ab) = sp_TailscaleName (ab_Spec ab0)"
    and "sp_Volumes (ab_Spec ab) = sp_Volumes (ab_Spec ab0)"
    and "sp_Backup (ab_Spec ab) = sp_Backup (ab_Spec ab0)"
    and "sp_Configs (ab_Spec ab) = sp_Configs (ab_Spec ab0)"
    and "sp_SourcedEnvs (ab_Spec ab) = sp_SourcedEnvs (ab_Spec ab0)"
    and "sp_SecretStoreRef (ab_Spec ab) = sp_SecretStoreRef (ab_Spec ab0)"
  using arg_cong [OF agrees_spec_eq [OF assms], of sp_Routes]
    arg_cong [OF agrees_spec_eq [OF assms], of sp_Homepage]
    arg_cong [OF agrees_spec_eq [OF assms], of sp_TailscaleName]
    arg_cong [OF agrees_spec_eq [OF assms], of sp_Volumes]
    arg_cong [OF agrees_spec_eq [OF assms], of sp_Backup]
    arg_cong [OF agrees_spec_eq [OF assms], of sp_Configs]
    arg_cong [OF agrees_spec_eq [OF assms], of sp_SourcedEnvs]
    arg_cong [OF agrees_spec_eq [OF assms], of sp_SecretStoreRef]
  by simp_all

lemma agrees_owner: "agrees ab0 ab \<Longrightarrow> ab_OwnerReference ab = ab_OwnerReference ab0"
  by (simp add: ab_OwnerReference_def agrees_meta)

lemma agrees_labels:
  "agrees ab0 ab \<Longrightarrow> SetDefaultAppBundleLabels ab l = SetDefaultAppBundleLabels ab0 l"
  by (simp add: SetDefaultAppBundleLabels_def own_labels_def agrees_meta)

lemma agrees_owner_meta:
  assumes "agrees ab0 ab"
  shows "GetAppBundleObjectMetaWithOwnerReference ab = GetAppBundleObjectMetaWithOwnerReference ab0"
  by (simp add: GetAppBundleObjectMetaWithOwnerReference_def agrees_owner [OF assms] agrees_meta [OF assms])

lemmas agrees_simps = agrees_meta agrees_spec agrees_owner agrees_labels agrees_owner_meta

lemma sat_ReadBundle:
  "(\<And>ab. agrees ab0 ab \<Longrightarrow> sat (frame ab0) P Q (c ab)) \<Longrightarrow> sat (frame ab0) P Q (ReadBundle c)"
  by (simp add: ReadBundle_def frame_def)

lemma sat_UpdateBundle:
  assumes "\<And>ab. agrees ab0 ab \<Longrightarrow> agrees ab0 (snd (f ab))"
    and "\<And>ab. agrees ab0 ab \<Longrightarrow> sat (frame ab0) P Q (c (fst (f ab)))"
  shows "sat (frame ab0) P Q (UpdateBundle f c)"
  using assms by (simp add: UpdateBundle_def frame_def)

subsection \<open>The contract of a reconcile function\<close>

locale reconciler =
  fixes R :: "goerr option mprog"
    and ab0 :: AppBundle
    and allowed :: "wreq \<Rightarrow> bool"
  assumes safe: "sat (frame ab0) allowed (\<lambda>_. True) R"
begin

lemma writes_allowed:
  "agrees ab0 (m_bundle m) \<Longrightarrow> (q, r) \<in> set (writes A R w m) \<Longrightarrow> allowed q"
  by (rule sat_writes [OF safe]) (simp_all add: frame_def)

lemma run_frame:
  "agrees ab0 (m_bundle m) \<Longrightarrow> run A R w m = (e, w', m') \<Longrightarrow> agrees ab0 (m_bundle m')"
  using sat_run [OF safe] by (auto simp: frame_def)

end

text \<open>
  The writes a reconcile function is meant to send: to an object of a given kind in the
  bundle's namespace and with a name of its own, owned by the bundle when it is created or
  updated.
\<close>

definition owned_write :: "AppBundle \<Rightarrow> kind \<Rightarrow> string set \<Rightarrow> wreq \<Rightarrow> bool" where
  "owned_write ab kd names q \<longleftrightarrow>
     kind_of (wobj q) = kd \<and> obj_Namespace (wobj q) = ab_Namespace ab \<and> obj_Name (wobj q) \<in> names \<and>
     (\<not> is_delete q \<longrightarrow> om_OwnerReferences (obj_meta (wobj q)) = [ab_OwnerReference ab])"

end
