(* ===== verification/Homepage.thy ===== *)
theory Homepage
  imports Memory
begin

section \<open>get_homepage_plugin.go: homepage annotations\<close>

text \<open>
  \<open>internal/controller/get_homepage_plugin.go\<close>: \<open>GetHomePageAnnotations\<close> copies an
  annotation map and adds the homepage keys. The loop that copies is an interpretation of
  \<open>commuting_range\<close>. The facts: what is under every key of the result, that an access-control
  annotation already present is kept, and that applying the function twice changes nothing.
\<close>

interpretation copy_loop: commuting_range "mput :: string \<Rightarrow> 'v \<Rightarrow> 'v gomap \<Rightarrow> 'v gomap" map_of
    "\<lambda>k v m. m(k \<mapsto> v)"
  by unfold_locales (auto simp: fun_upd_twist)

lemma copy_loop_lookup:
  assumes "wf_map m"
  shows "map_of (range_loop mput m m') = map_of m' ++ map_of m"
proof -
  have eq: "range_loop mput m m' = mputs m m'"
    by (simp add: range_loop_def mputs_def)
  from assms have "map_of (rev m) = map_of m"
    by (intro map_of_eqI) (auto simp: wf_map_def rev_map [symmetric])
  then show ?thesis by (simp add: eq map_of_mputs)
qed

lemma wf_copy_loop: "wf_map m' \<Longrightarrow> wf_map (range_loop mput m m')"
  by (induction m arbitrary: m') auto

definition opt_put :: "string \<Rightarrow> 'v option \<Rightarrow> 'v gomap \<Rightarrow> 'v gomap" where
  "opt_put k v m = (case v of None \<Rightarrow> m | Some x \<Rightarrow> mput k x m)"

lemma map_of_opt_put [simp]:
  "map_of (opt_put k v m) k' = (if k' = k \<and> v \<noteq> None then v else map_of m k')"
  by (auto simp: opt_put_def split: option.split)

lemma wf_opt_put [simp]: "wf_map m \<Longrightarrow> wf_map (opt_put k v m)"
  by (simp add: opt_put_def split: option.split)

text \<open>The annotation keys.\<close>

definition hk_enabled :: string where
  "hk_enabled = ''atro.xyz/homepage.enabled''"

definition hk_description :: string where
  "hk_description = ''atro.xyz/homepage.description''"

definition hk_groups :: string where
  "hk_groups = ''atro.xyz/homepage.groups''"

definition hk_section :: string where
  "hk_section = ''atro.xyz/homepage.section''"

definition hk_href :: string where
  "hk_href = ''atro.xyz/homepage.href''"

definition hk_icon :: string where
  "hk_icon = ''atro.xyz/homepage.icon''"

definition hk_name :: string where
  "hk_name = ''atro.xyz/homepage.name''"

definition hk_auth :: string where
  "hk_auth = ''atro.xyz/auth.groups''"

lemmas home_key_defs = hk_enabled_def hk_description_def hk_groups_def hk_section_def hk_href_def
  hk_icon_def hk_name_def hk_auth_def

lemma home_keys_distinct [simp]:
  "hk_enabled \<noteq> hk_description" "hk_enabled \<noteq> hk_groups" "hk_enabled \<noteq> hk_section"
  "hk_enabled \<noteq> hk_href" "hk_enabled \<noteq> hk_icon" "hk_enabled \<noteq> hk_name"
  "hk_enabled \<noteq> hk_auth" "hk_description \<noteq> hk_enabled" "hk_description \<noteq> hk_groups"
  "hk_description \<noteq> hk_section" "hk_description \<noteq> hk_href" "hk_description \<noteq> hk_icon"
  "hk_description \<noteq> hk_name" "hk_description \<noteq> hk_auth" "hk_groups \<noteq> hk_enabled"
  "hk_groups \<noteq> hk_description" "hk_groups \<noteq> hk_section" "hk_groups \<noteq> hk_href"
  "hk_groups \<noteq> hk_icon" "hk_groups \<noteq> hk_name" "hk_groups \<noteq> hk_auth"
  "hk_section \<noteq> hk_enabled" "hk_section \<noteq> hk_description" "hk_section \<noteq> hk_groups"
  "hk_section \<noteq> hk_href" "hk_section \<noteq> hk_icon" "hk_section \<noteq> hk_name"
  "hk_section \<noteq> hk_auth" "hk_href \<noteq> hk_enabled" "hk_href \<noteq> hk_description"
  "hk_href \<noteq> hk_groups" "hk_href \<noteq> hk_section" "hk_href \<noteq> hk_icon"
  "hk_href \<noteq> hk_name" "hk_href \<noteq> hk_auth" "hk_icon \<noteq> hk_enabled"
  "hk_icon \<noteq> hk_description" "hk_icon \<noteq> hk_groups" "hk_icon \<noteq> hk_section"
  "hk_icon \<noteq> hk_href" "hk_icon \<noteq> hk_name" "hk_icon \<noteq> hk_auth"
  "hk_name \<noteq> hk_enabled" "hk_name \<noteq> hk_description" "hk_name \<noteq> hk_groups"
  "hk_name \<noteq> hk_section" "hk_name \<noteq> hk_href" "hk_name \<noteq> hk_icon"
  "hk_name \<noteq> hk_auth" "hk_auth \<noteq> hk_enabled" "hk_auth \<noteq> hk_description"
  "hk_auth \<noteq> hk_groups" "hk_auth \<noteq> hk_section" "hk_auth \<noteq> hk_href"
  "hk_auth \<noteq> hk_icon" "hk_auth \<noteq> hk_name"
  by (simp_all add: home_key_defs)

definition home_annotations :: "strmap option \<Rightarrow> AppBundleHomePage \<Rightarrow> string \<Rightarrow> strmap" where
  "home_annotations annotations hp name =
     (let new0 = range_loop mput (entries annotations) [];
          new1 = mput hk_enabled ''true'' new0;
          new2 = opt_put hk_description (hp_Description hp) new1;
          new3 = (case hp_Groups hp of
              None \<Rightarrow> new2
            | Some groups \<Rightarrow>
                (let n = mput hk_groups groups new2
                 in case map_of n hk_auth of
                      None \<Rightarrow> mput hk_auth groups n
                    | Some _ \<Rightarrow> n));
          new4 = mput hk_section
            (case hp_Section hp of Some section \<Rightarrow> section | None \<Rightarrow> ''Other'') new3;
          new5 = opt_put hk_href (hp_Href hp) new4;
          new6 = opt_put hk_icon (hp_Icon hp) new5
      in mput hk_name
           (case hp_Name hp of Some n \<Rightarrow> n | None \<Rightarrow> name) new6)"

definition GetHomePageAnnotations :: "strmap option \<Rightarrow> AppBundle \<Rightarrow> goerr + strmap" where
  "GetHomePageAnnotations annotations ab =
     rbind (deref (sp_Homepage (ab_Spec ab)))
       (\<lambda>hp. Inr (home_annotations annotations hp (ab_Name ab)))"

text \<open>The keys the plugin writes, with the value it wants there (\<open>None\<close>: it leaves the key).\<close>

definition home_value :: "AppBundleHomePage \<Rightarrow> string \<Rightarrow> string \<Rightarrow> string option" where
  "home_value hp name k =
     (if k = hk_enabled then Some ''true''
      else if k = hk_description then hp_Description hp
      else if k = hk_groups then hp_Groups hp
      else if k = hk_section
        then Some (case hp_Section hp of Some section \<Rightarrow> section | None \<Rightarrow> ''Other'')
      else if k = hk_href then hp_Href hp
      else if k = hk_icon then hp_Icon hp
      else if k = hk_name
        then Some (case hp_Name hp of Some n \<Rightarrow> n | None \<Rightarrow> name)
      else None)"

lemma home_annotations_lookup:
  assumes "wf_map (entries annotations)"
  shows "map_of (home_annotations annotations hp name) k =
    (if k = hk_auth
     then (case mget annotations k of Some v \<Rightarrow> Some v | None \<Rightarrow> hp_Groups hp)
     else case home_value hp name k of Some v \<Rightarrow> Some v | None \<Rightarrow> mget annotations k)"
proof -
  have copy: "map_of (range_loop mput (entries annotations) []) = mget annotations"
    using assms by (simp add: copy_loop_lookup mget_def fun_eq_iff)
  show ?thesis
    by (simp add: home_annotations_def home_value_def Let_def copy split: option.split)
qed

lemma wf_home_annotations: "wf_map (home_annotations annotations hp name)"
  by (simp add: home_annotations_def Let_def wf_copy_loop split: option.split)

lemma home_annotations_idem:
  assumes "wf_map (entries annotations)"
  shows "map_of (home_annotations (Some (home_annotations annotations hp name)) hp name) =
    map_of (home_annotations annotations hp name)"
proof
  fix k
  show "map_of (home_annotations (Some (home_annotations annotations hp name)) hp name) k =
      map_of (home_annotations annotations hp name) k"
    using assms
    by (simp add: home_annotations_lookup wf_home_annotations home_value_def split: option.split)
qed

end
