(* ===== verification/Samples.thy ===== *)
theory Samples
  imports Memory
begin

section \<open>Concrete instances for the witnesses\<close>

text \<open>
  Theorems with hypotheses about a client, a third-party function or a bundle are applied once
  to concrete ones, to show that the hypotheses can hold together. The client here is a list of
  objects in memory; the third-party functions are simple total functions (two specs are
  compared by equality, hashing is constant, every size parses). Nothing else depends on them.
\<close>

definition not_found :: goerr where
  "not_found = APIStatus ReasonNotFound ''not found''"

definition already_exists :: goerr where
  "already_exists = APIStatus (ReasonOther ''AlreadyExists'') ''already exists''"

lemma IsNotFound_not_found [simp]: "IsNotFound (Some not_found)"
  by (simp add: not_found_def)

type_synonym store = "kobj list"

definition same_object :: "kind \<Rightarrow> string \<Rightarrow> string \<Rightarrow> kobj \<Rightarrow> bool" where
  "same_object kd ns n x \<longleftrightarrow> kind_of x = kd \<and> obj_Namespace x = ns \<and> obj_Name x = n"

definition same_as :: "kobj \<Rightarrow> kobj \<Rightarrow> bool" where
  "same_as y x = same_object (kind_of y) (obj_Namespace y) (obj_Name y) x"

definition has_labels :: "(string \<times> string) list \<Rightarrow> kobj \<Rightarrow> bool" where
  "has_labels sel x \<longleftrightarrow> list_all (\<lambda>(k, v). mget (om_Labels (obj_meta x)) k = Some v) sel"

fun store_write :: "wreq \<Rightarrow> store \<Rightarrow> goerr option \<times> store" where
  "store_write (Create x) w = (if list_ex (same_as x) w then (Some already_exists, w) else (None, w @ [x]))"
| "store_write (Update x) w =
     (if list_ex (same_as x) w then (None, map (\<lambda>y. if same_as x y then x else y) w) else (Some not_found, w))"
| "store_write (Delete x) w =
     (if list_ex (same_as x) w then (None, filter (\<lambda>y. \<not> same_as x y) w) else (Some not_found, w))"
| "store_write (StatusUpdate x) w = (if list_ex (same_as x) w then (None, w) else (Some not_found, w))"

definition store_api :: "store api" where
  "store_api = \<lparr>
     api_get = (\<lambda>kd ns n w. case find (same_object kd ns n) w of
        None \<Rightarrow> (Inl not_found, w) | Some x \<Rightarrow> (Inr x, w)),
     api_list = (\<lambda>kd ns sel w. (Inr (filter (\<lambda>x. kind_of x = kd \<and>
        (case ns of None \<Rightarrow> True | Some n \<Rightarrow> obj_Namespace x = n) \<and> has_labels sel x) w), w)),
     api_write = store_write,
     api_now = (\<lambda>w. (1000, w))\<rparr>"

lemma store_api_sel [simp]:
  "api_get store_api kd ns n w = (case find (same_object kd ns n) w of
     None \<Rightarrow> (Inl not_found, w) | Some x \<Rightarrow> (Inr x, w))"
  "api_list store_api kd nso sel w = (Inr (filter (\<lambda>x. kind_of x = kd \<and>
     (case nso of None \<Rightarrow> True | Some n \<Rightarrow> obj_Namespace x = n) \<and> has_labels sel x) w), w)"
  "api_write store_api = store_write"
  "api_now store_api w = (1000, w)"
  by (simp_all add: store_api_def)

definition sample_ext :: ext where
  "sample_ext = \<lparr>
     ext_DeepDerivative = (\<lambda>a b. a = b),
     ext_Diff = (\<lambda>_ _. Inr []),
     ext_HashRecurringJobSpec = (\<lambda>s. Inr (rj_Cron s)),
     ext_HashAppBundleSpec = (\<lambda>_. Inr ''hash''),
     ext_HashAppBundleBaseSpec = (\<lambda>_. Inr ''hash''),
     ext_ParseQuantity = (\<lambda>s. Some (Opaque s)),
     ext_CopyToAppBundle = (\<lambda>_. Inr zero_bundle),
     ext_MergeBundle = (\<lambda>_ dst _. Inr dst),
     ext_MergeVolume = (\<lambda>dst _. Inr dst),
     ext_MergeConfig = (\<lambda>dst _. Inr dst),
     ext_MergeRoute = (\<lambda>dst _. Inr dst),
     ext_MergeSourcedEnv = (\<lambda>dst _. Inr dst)\<rparr>"

lemma sample_ext_sel [simp]:
  "ext_DeepDerivative sample_ext a b \<longleftrightarrow> a = b"
  "ext_Diff sample_ext a b = Inr []"
  "ext_HashRecurringJobSpec sample_ext s = Inr (rj_Cron s)"
  "ext_HashAppBundleSpec sample_ext sp = Inr ''hash''"
  "ext_ParseQuantity sample_ext q = Some (Opaque q)"
  by (simp_all add: sample_ext_def)

lemma sample_diff [simp]:
  "FormulateDiffMessageForSpecs sample_ext a b = Inr (''Spec changed, namely the paths: '' @ newline)"
  "FormulateDiffMessageForLabels sample_ext a b = Inr (''Labels changed, namely the paths: '' @ newline)"
  by (simp_all add: FormulateDiffMessageForSpecs_def FormulateDiffMessageForLabels_def GetDiffPaths_def)

definition sample_meta :: "string \<Rightarrow> string \<Rightarrow> ObjectMeta" where
  "sample_meta n ns = zero_meta\<lparr>om_Name := n, om_Namespace := ns\<rparr>"

lemma sample_meta_sel [simp]:
  "om_Name (sample_meta n ns) = n" "om_Namespace (sample_meta n ns) = ns"
  "om_Labels (sample_meta n ns) = None" "om_Annotations (sample_meta n ns) = None"
  "om_UID (sample_meta n ns) = []" "om_OwnerReferences (sample_meta n ns) = []"
  by (simp_all add: sample_meta_def)

text \<open>A bundle with the given name, namespace and specification.\<close>

definition sample_bundle :: "string \<Rightarrow> string \<Rightarrow> AppBundleSpec \<Rightarrow> AppBundle" where
  "sample_bundle n ns sp = zero_bundle\<lparr>ab_ObjectMeta := sample_meta n ns, ab_Spec := sp\<rparr>"

lemma sample_bundle_sel [simp]:
  "ab_ObjectMeta (sample_bundle n ns sp) = sample_meta n ns"
  "ab_Spec (sample_bundle n ns sp) = sp"
  "ab_TypeMeta (sample_bundle n ns sp) = \<lparr>tm_Kind = [], tm_APIVersion = []\<rparr>"
  by (simp_all add: sample_bundle_def zero_bundle_def)

definition sample_mem :: "AppBundle \<Rightarrow> mem" where
  "sample_mem ab = \<lparr>m_bundle = ab, m_State = []\<rparr>"

lemma sample_mem_sel [simp]: "m_bundle (sample_mem ab) = ab" "m_State (sample_mem ab) = []"
  by (simp_all add: sample_mem_def)

definition route_to :: "goint \<Rightarrow> AppBundleRoute" where
  "route_to p = \<lparr>rt_Port = Some p, rt_TargetPort = None, rt_Protocol = None, rt_Ingress = None\<rparr>"

lemma zero_spec_sel [simp]:
  "sp_Base zero_spec = None" "sp_Image zero_spec = None" "sp_Routes zero_spec = None"
  "sp_Volumes zero_spec = None" "sp_Configs zero_spec = None" "sp_SourcedEnvs zero_spec = None"
  "sp_Homepage zero_spec = None" "sp_Backup zero_spec = None" "sp_TailscaleName zero_spec = None"
  "sp_ServiceType zero_spec = None" "sp_SecretStoreRef zero_spec = None" "sp_Envs zero_spec = None"
  "sp_UseNvidia zero_spec = None" "sp_NodeSelector zero_spec = None"
  "sp_Resources zero_spec = None" "sp_Command zero_spec = None" "sp_Args zero_spec = None"
  "sp_LivenessProbe zero_spec = None" "sp_ReadinessProbe zero_spec = None"
  "sp_StartupProbe zero_spec = None" "sp_Replicas zero_spec = None" "sp_Selector zero_spec = None"
  by (simp_all add: zero_spec_def)

end
