(* ===== verification/ServiceReconcile.thy ===== *)
theory ServiceReconcile
  imports Homepage Samples
begin

section \<open>service.go\<close>

text \<open>
  \<open>internal/controller/service.go\<close>: the expected service of a bundle and its reconciliation.
  \<open>CreateExpectedService\<close> also writes to the bundle it is given: it sets a missing service type,
  and, because \<open>GetAnnotations\<close> returns the bundle's own map, the Tailscale annotations it adds
  land in the bundle when that map is not nil. It therefore returns the bundle as well.
  A nil \<open>Port\<close> is a nil dereference. \<open>int32(port)\<close> keeps the low 32 bits.
\<close>

subsection \<open>Data generated by the API server\<close>

record GeneratedServiceSpecData =
  gs_clusterIP :: string
  gs_clusterIPs :: "string list"
  gs_SessionAffinity :: string
  gs_IPFamilies :: "string list"
  gs_IPFamilyPolicy :: "string option"
  gs_InternalTrafficPolicy :: "string option"

definition MergeIntoServiceSpec :: "ServiceSpec \<Rightarrow> GeneratedServiceSpecData \<Rightarrow> ServiceSpec" where
  "MergeIntoServiceSpec spec data =
     spec\<lparr>ss_ClusterIP := gs_clusterIP data, ss_ClusterIPs := gs_clusterIPs data,
       ss_SessionAffinity := gs_SessionAffinity data, ss_IPFamilies := gs_IPFamilies data,
       ss_IPFamilyPolicy := gs_IPFamilyPolicy data,
       ss_InternalTrafficPolicy := gs_InternalTrafficPolicy data\<rparr>"

definition GetGeneratedServiceSpecData :: "Service \<Rightarrow> GeneratedServiceSpecData" where
  "GetGeneratedServiceSpecData svc = (let spec = svc_Spec svc in
     \<lparr>gs_clusterIP = ss_ClusterIP spec, gs_clusterIPs = ss_ClusterIPs spec,
       gs_SessionAffinity = ss_SessionAffinity spec, gs_IPFamilies = ss_IPFamilies spec,
       gs_IPFamilyPolicy = ss_IPFamilyPolicy spec,
       gs_InternalTrafficPolicy = ss_InternalTrafficPolicy spec\<rparr>)"

subsection \<open>The expected service\<close>

definition service_port :: "string \<Rightarrow> AppBundleRoute \<Rightarrow> goerr + ServicePort" where
  "service_port key route =
     rbind (deref (rt_Port route)) (\<lambda>port.
       let tPort = (case rt_TargetPort route of None \<Rightarrow> int32 port | Some t \<Rightarrow> int32 t)
       in Inr \<lparr>svp_Name = key,
            svp_Protocol = (case rt_Protocol route of None \<Rightarrow> ProtocolTCP | Some p \<Rightarrow> p),
            svp_Port = int32 port, svp_TargetPort = IntVal tPort\<rparr>)"

definition tailscale_annotations :: "string option \<Rightarrow> strmap \<Rightarrow> strmap" where
  "tailscale_annotations ts annotations = (case ts of
     None \<Rightarrow> annotations
   | Some name \<Rightarrow> mput ''tailscale.com/expose'' ''true''
       (mput ''tailscale.com/hostname'' name annotations))"

definition default_service_type :: "AppBundle \<Rightarrow> AppBundle" where
  "default_service_type ab = (case sp_ServiceType (ab_Spec ab) of
     None \<Rightarrow> ab\<lparr>ab_Spec := (ab_Spec ab)\<lparr>sp_ServiceType := Some ServiceTypeClusterIP\<rparr>\<rparr>
   | Some _ \<Rightarrow> ab)"

definition service_ports :: "AppBundle \<Rightarrow> goerr + ServicePort list" where
  "service_ports ab =
     mapM (\<lambda>key. service_port key (mget_or zero_route (sp_Routes (ab_Spec ab)) key))
       (getSortedKeys (sp_Routes (ab_Spec ab)))"

definition CreateExpectedService ::
    "GeneratedServiceSpecData \<Rightarrow> AppBundle \<Rightarrow> (goerr + Service) \<times> AppBundle" where
  "CreateExpectedService generatedSpecData ab =
     (case service_ports ab of
        Inl e \<Rightarrow> (Inl e, ab)
      | Inr ports \<Rightarrow>
          (let ab1 = default_service_type ab;
               annotations =
                 tailscale_annotations (sp_TailscaleName (ab_Spec ab1))
                   (entries (om_Annotations (ab_ObjectMeta ab1)));
               ab2 = set_annotations annotations ab1;
               final = (if sp_TailscaleName (ab_Spec ab2) \<noteq> None \<and> sp_Homepage (ab_Spec ab2) \<noteq> None
                        then GetHomePageAnnotations (Some annotations) ab2 else Inr annotations);
               service = rbind final (\<lambda>annotations'.
                 rbind (deref (sp_ServiceType (ab_Spec ab2))) (\<lambda>type. Inr
                   \<lparr>svc_ObjectMeta = (GetAppBundleObjectMetaWithOwnerReference ab2)
                      \<lparr>om_Labels := Some (SetDefaultAppBundleLabels ab2 None),
                       om_Annotations := Some annotations'\<rparr>,
                    svc_Spec = MergeIntoServiceSpec
                      (zero_service_spec\<lparr>ss_Ports := ports, ss_Type := type,
                         ss_Selector := Some [(AppBundleSelector, ab_Name ab2)]\<rparr>)
                      generatedSpecData\<rparr>))
           in (service, ab2)))"

subsection \<open>ReconcileService\<close>

definition ReconcileService :: "ext \<Rightarrow> goerr option mprog" where
  "ReconcileService E = ReadBundle (\<lambda>ab.
     with_mutex (mutex_key ''service'' (ab_Name ab) (ab_Namespace ab))
       (GetInto KService proj_Service (ab_Namespace ab) (ab_Name ab)
          \<lparr>svc_ObjectMeta = GetAppBundleObjectMetaWithOwnerReference ab, svc_Spec = zero_service_spec\<rparr>
        (\<lambda>currentService er.
          if sp_Routes (ab_Spec ab) = None
          then (if IsNotFound er then Done None else Write (Delete (ObjService currentService)) Done)
          else UpdateBundle (CreateExpectedService (GetGeneratedServiceSpecData currentService))
            (\<lambda>r. case r of
                Inl err \<Rightarrow> Done (Some err)
              | Inr expectedService \<Rightarrow>
                  if \<not> ext_DeepDerivative E (AnyServiceSpec (svc_Spec expectedService))
                        (AnyServiceSpec (svc_Spec currentService))
                  then with_reason
                    (FormulateDiffMessageForSpecs E (AnyServiceSpec (svc_Spec currentService))
                       (AnyServiceSpec (svc_Spec expectedService)))
                    (\<lambda>reason. UpsertResource (ObjService expectedService) reason er False)
                  else if \<not> StringMapsMatch (om_Labels (svc_ObjectMeta expectedService))
                             (om_Labels (svc_ObjectMeta currentService))
                  then with_reason
                    (FormulateDiffMessageForLabels E
                       (AnyStringMap (om_Labels (svc_ObjectMeta currentService)))
                       (AnyStringMap (om_Labels (svc_ObjectMeta expectedService))))
                    (\<lambda>reason. UpsertResource (ObjService expectedService) reason er False)
                  else Done None))))"

subsection \<open>Facts about the expected service\<close>

lemma tailscale_lookup:
  "map_of (tailscale_annotations ts m) k =
    (case ts of None \<Rightarrow> map_of m k
     | Some name \<Rightarrow> if k = ''tailscale.com/expose'' then Some ''true''
         else if k = ''tailscale.com/hostname'' then Some name else map_of m k)"
  by (simp add: tailscale_annotations_def split: option.split)

lemma default_service_type_sel [simp]:
  "ab_ObjectMeta (default_service_type ab) = ab_ObjectMeta ab"
  "ab_TypeMeta (default_service_type ab) = ab_TypeMeta ab"
  "ab_Status (default_service_type ab) = ab_Status ab"
  "sp_TailscaleName (ab_Spec (default_service_type ab)) = sp_TailscaleName (ab_Spec ab)"
  "sp_Homepage (ab_Spec (default_service_type ab)) = sp_Homepage (ab_Spec ab)"
  "sp_Routes (ab_Spec (default_service_type ab)) = sp_Routes (ab_Spec ab)"
  "sp_ServiceType (ab_Spec (default_service_type ab)) =
     Some (case sp_ServiceType (ab_Spec ab) of None \<Rightarrow> ServiceTypeClusterIP | Some t \<Rightarrow> t)"
  by (simp_all add: default_service_type_def split: option.split)

lemma agrees_default_service_type: "agrees ab (default_service_type ab)"
  by (simp add: agrees_def strip_def default_service_type_def split: option.split)

lemma CreateExpectedService_agrees: "agrees ab0 ab \<Longrightarrow> agrees ab0 (snd (CreateExpectedService g ab))"
  by (auto simp: CreateExpectedService_def Let_def split: sum.split
      intro!: agrees_set_annotations intro: agrees_trans agrees_default_service_type)

lemma service_ports_Inr_iff:
  assumes "wf_map (entries (sp_Routes (ab_Spec ab)))"
  shows "(\<exists>ports. service_ports ab = Inr ports) \<longleftrightarrow>
    (\<forall>(k, route)\<in>set (entries (sp_Routes (ab_Spec ab))). rt_Port route \<noteq> None)"
proof -
  have look: "mget_or zero_route (sp_Routes (ab_Spec ab)) k = route"
    if "(k, route) \<in> set (entries (sp_Routes (ab_Spec ab)))" for k route
    using that assms by (simp add: mget_or_def mget_def wf_map_def)
  have step: "(\<exists>p. service_port k route = Inr p) \<longleftrightarrow> rt_Port route \<noteq> None" for k route
    by (cases "rt_Port route") (auto simp: service_port_def)
  show ?thesis
    unfolding service_ports_def mapM_ok_iff by (auto simp: look step)
qed

lemma service_port_sel:
  assumes "service_port key route = Inr p"
  shows "svp_Name p = key"
    and "svp_Protocol p = (case rt_Protocol route of None \<Rightarrow> ProtocolTCP | Some q \<Rightarrow> q)"
    and "\<exists>port. rt_Port route = Some port \<and> svp_Port p = int32 port \<and>
      svp_TargetPort p = IntVal (int32 (case rt_TargetPort route of None \<Rightarrow> port | Some t \<Rightarrow> t))"
  using assms by (auto simp: service_port_def rbind_Inr_iff Let_def split: option.splits)

lemma service_ports_names:
  assumes "service_ports ab = Inr ports"
  shows "map svp_Name ports = getSortedKeys (sp_Routes (ab_Spec ab))"
  using mapM_map [OF assms [unfolded service_ports_def], where g = svp_Name and h = "\<lambda>k. k"]
  by (simp add: service_port_sel)

lemma CreateExpectedService_Inr:
  assumes "CreateExpectedService g ab = (Inr svc, ab')"
  shows "svc_ObjectMeta svc = (GetAppBundleObjectMetaWithOwnerReference ab)
      \<lparr>om_Labels := Some (SetDefaultAppBundleLabels ab None),
       om_Annotations := om_Annotations (svc_ObjectMeta svc)\<rparr>"
    and "service_ports ab = Inr (ss_Ports (svc_Spec svc))"
    and "ss_Selector (svc_Spec svc) = Some [(AppBundleSelector, ab_Name ab)]"
    and "ss_Type (svc_Spec svc) =
      (case sp_ServiceType (ab_Spec ab) of None \<Rightarrow> ServiceTypeClusterIP | Some t \<Rightarrow> t)"
    and "GetGeneratedServiceSpecData svc = g"
proof -
  have lab: "SetDefaultAppBundleLabels (set_annotations m (default_service_type ab)) l =
      SetDefaultAppBundleLabels ab l" for m l
    by (simp add: SetDefaultAppBundleLabels_def own_labels_def)
  have met: "GetAppBundleObjectMetaWithOwnerReference (set_annotations m (default_service_type ab)) =
      GetAppBundleObjectMetaWithOwnerReference ab" for m
    by (simp add: GetAppBundleObjectMetaWithOwnerReference_def ab_OwnerReference_def)
  show "svc_ObjectMeta svc = (GetAppBundleObjectMetaWithOwnerReference ab)
      \<lparr>om_Labels := Some (SetDefaultAppBundleLabels ab None),
       om_Annotations := om_Annotations (svc_ObjectMeta svc)\<rparr>"
    and "service_ports ab = Inr (ss_Ports (svc_Spec svc))"
    and "ss_Selector (svc_Spec svc) = Some [(AppBundleSelector, ab_Name ab)]"
    and "ss_Type (svc_Spec svc) =
      (case sp_ServiceType (ab_Spec ab) of None \<Rightarrow> ServiceTypeClusterIP | Some t \<Rightarrow> t)"
    and "GetGeneratedServiceSpecData svc = g"
    using assms
    by (auto simp: CreateExpectedService_def Let_def rbind_Inr_iff lab met MergeIntoServiceSpec_def
        GetGeneratedServiceSpecData_def split: sum.splits if_splits)
qed

lemma expected_service_owned:
  assumes "agrees ab0 ab" and "fst (CreateExpectedService g ab) = Inr svc"
  shows "owned_write ab0 KService {ab_Name ab0} (Create (ObjService svc))"
    and "owned_write ab0 KService {ab_Name ab0} (Update (ObjService svc))"
    and "owned_write ab0 KService {ab_Name ab0} (Delete (ObjService svc))"
proof -
  obtain ab' where "CreateExpectedService g ab = (Inr svc, ab')"
    using assms(2) by (cases "CreateExpectedService g ab") auto
  note m = CreateExpectedService_Inr(1) [OF this]
  have "om_Name (svc_ObjectMeta svc) = ab_Name ab0"
    and "om_Namespace (svc_ObjectMeta svc) = ab_Namespace ab0"
    and "om_OwnerReferences (svc_ObjectMeta svc) = [ab_OwnerReference ab0]"
    by (subst m, simp add: agrees_simps [OF assms(1)])+
  then show "owned_write ab0 KService {ab_Name ab0} (Create (ObjService svc))"
    and "owned_write ab0 KService {ab_Name ab0} (Update (ObjService svc))"
    and "owned_write ab0 KService {ab_Name ab0} (Delete (ObjService svc))"
    by (simp_all add: owned_write_def)
qed

subsection \<open>Facts about the reconciliation\<close>

text \<open>
  The writes a service reconciliation may send. What is deleted because the bundle has no
  routes is the object that \<open>Get\<close> returned.
\<close>

definition service_write :: "AppBundle \<Rightarrow> wreq \<Rightarrow> bool" where
  "service_write ab q \<longleftrightarrow>
     (if sp_Routes (ab_Spec ab) = None then is_delete q \<and> kind_of (wobj q) = KService
      else owned_write ab KService {ab_Name ab} q)"

lemma sat_ReconcileService: "sat (frame ab0) (service_write ab0) (\<lambda>_. True) (ReconcileService E)"
proof (cases "sp_Routes (ab_Spec ab0) = None")
  case True
  then show ?thesis
    unfolding ReconcileService_def
    by (intro sat_ReadBundle, subst sat_with_mutex, intro services.sat_GetInto)
      (auto simp: agrees_spec service_write_def)
next
  case False
  have R: "service_write ab0 = owned_write ab0 KService {ab_Name ab0}"
    by (intro ext) (simp add: service_write_def False)
  have up: "sat (frame ab0) (service_write ab0) (\<lambda>_. True) (UpsertResource (ObjService svc) reason er False)"
    if "agrees ab0 ab'" "fst (CreateExpectedService g ab') = Inr svc" for ab' g svc reason er
    unfolding R by (rule sat_UpsertResource) (use expected_service_owned [OF that] in auto)
  show ?thesis
    unfolding ReconcileService_def
    by (intro sat_ReadBundle, subst sat_with_mutex, intro services.sat_GetInto)
      (use False in \<open>auto simp: agrees_spec with_reason_def CreateExpectedService_agrees
        split: sum.split intro!: sat_UpdateBundle intro: up\<close>)
qed

interpretation service_reconciler: reconciler "ReconcileService E" ab0 "service_write ab0"
  for E ab0
  by unfold_locales (rule sat_ReconcileService)

subsection \<open>Properties\<close>

lemma sample_diff_total: "diff_total sample_ext"
  by (simp add: diff_total_def)

definition blank_service :: "AppBundle \<Rightarrow> Service" where
  "blank_service ab = \<lparr>svc_ObjectMeta = GetAppBundleObjectMetaWithOwnerReference ab,
     svc_Spec = zero_service_spec\<rparr>"

definition web_bundle :: AppBundle where
  "web_bundle = sample_bundle ''app'' ''devel''
     (zero_spec\<lparr>sp_Routes := Some [(''web'', route_to 80), (''api'', route_to 4294967376)]\<rparr>)"

lemma web_bundle_sel [simp]:
  "ab_Name web_bundle = ''app''" "ab_Namespace web_bundle = ''devel''"
  "om_Labels (ab_ObjectMeta web_bundle) = None" "om_Annotations (ab_ObjectMeta web_bundle) = None"
  "sp_Routes (ab_Spec web_bundle) = Some [(''web'', route_to 80), (''api'', route_to 4294967376)]"
  by (simp_all add: web_bundle_def)

lemma CreateExpectedService_ok:
  assumes "service_ports ab = Inr ports"
  shows "\<exists>svc ab'. CreateExpectedService g ab = (Inr svc, ab')"
  using assms
  by (auto simp: CreateExpectedService_def Let_def GetHomePageAnnotations_def)

lemma web_service: "\<exists>svc ab'. CreateExpectedService g web_bundle = (Inr svc, ab')"
proof -
  have "wf_map (entries (sp_Routes (ab_Spec web_bundle)))" by (simp add: wf_map_def)
  then obtain ports where "service_ports web_bundle = Inr ports"
    using service_ports_Inr_iff [of web_bundle] by (auto simp: route_to_def)
  then show ?thesis by (rule CreateExpectedService_ok)
qed

text \<open>The ports of a bundle's service: every route has a port when, and only when, the ports
  can be computed; then there is one port per route, in the order of the sorted route names,
  named after the route, with the route's protocol or TCP, its port cut to 32 bits, and as
  target its target port or else its port.\<close>

lemma service_ports_spec:
  assumes "wf_map (entries (sp_Routes (ab_Spec ab)))"
  shows "(if \<forall>(k, route)\<in>set (entries (sp_Routes (ab_Spec ab))). rt_Port route \<noteq> None
     then \<exists>ports. service_ports ab = Inr ports \<and>
       map svp_Name ports = getSortedKeys (sp_Routes (ab_Spec ab)) \<and>
       (\<forall>p\<in>set ports. \<exists>route port. mget (sp_Routes (ab_Spec ab)) (svp_Name p) = Some route \<and>
          rt_Port route = Some port \<and> svp_Port p = ucast port \<and>
          svp_Protocol p = (case rt_Protocol route of None \<Rightarrow> ''TCP'' | Some q \<Rightarrow> q) \<and>
          svp_TargetPort p = IntVal (ucast (case rt_TargetPort route of None \<Rightarrow> port | Some t \<Rightarrow> t)))
     else service_ports ab = Inl (GoPanic ''nil pointer dereference''))"
proof (cases "\<forall>(k, route)\<in>set (entries (sp_Routes (ab_Spec ab))). rt_Port route \<noteq> None")
  case True
  then obtain ports where ports: "service_ports ab = Inr ports"
    using service_ports_Inr_iff [OF assms] by blast
  have "\<exists>route port. mget (sp_Routes (ab_Spec ab)) (svp_Name p) = Some route \<and>
          rt_Port route = Some port \<and> svp_Port p = ucast port \<and>
          svp_Protocol p = (case rt_Protocol route of None \<Rightarrow> ''TCP'' | Some q \<Rightarrow> q) \<and>
          svp_TargetPort p = IntVal (ucast (case rt_TargetPort route of None \<Rightarrow> port | Some t \<Rightarrow> t))"
    if "p \<in> set ports" for p
  proof -
    from ports that obtain k where k: "k \<in> set (getSortedKeys (sp_Routes (ab_Spec ab)))"
      and p: "service_port k (mget_or zero_route (sp_Routes (ab_Spec ab)) k) = Inr p"
      unfolding service_ports_def by (auto dest: mapM_in)
    obtain route where route: "mget (sp_Routes (ab_Spec ab)) k = Some route"
      using mget_sorted_key [OF k] by blast
    then have at: "mget_or zero_route (sp_Routes (ab_Spec ab)) k = route"
      by (simp add: mget_or_def)
    obtain port where "rt_Port route = Some port" "svp_Port p = int32 port"
      "svp_TargetPort p = IntVal (int32 (case rt_TargetPort route of None \<Rightarrow> port | Some t \<Rightarrow> t))"
      using service_port_sel(3) [OF p] unfolding at by blast
    with route service_port_sel(1,2) [OF p] show ?thesis
      unfolding at int32_def by (intro exI [of _ route] exI [of _ port] conjI) simp_all
  qed
  with True ports show ?thesis by (auto simp: service_ports_names)
next
  case False
  then obtain e where e: "service_ports ab = Inl e"
    using service_ports_Inr_iff [OF assms] by (metis sum.exhaust)
  then obtain k where "service_port k (mget_or zero_route (sp_Routes (ab_Spec ab)) k) = Inl e"
    unfolding service_ports_def by (auto dest: mapM_Inl)
  then have "e = GoPanic ''nil pointer dereference''"
    by (cases "rt_Port (mget_or zero_route (sp_Routes (ab_Spec ab)) k)") (auto simp: service_port_def Let_def)
  with False e show ?thesis by auto
qed

text \<open>A service that does not exist, for a bundle with routes, is created: the
  reconciliation sends exactly one write, the creation of the expected service, and returns
  the server's answer to it.\<close>

lemma service_created_when_missing:
  assumes "api_get A KService (ab_Namespace (m_bundle m)) (ab_Name (m_bundle m)) w = (Inl e, w1)"
    and "IsNotFound (Some e)" and "diff_total E"
    and "sp_Routes (ab_Spec (m_bundle m)) \<noteq> None"
    and "CreateExpectedService (GetGeneratedServiceSpecData (blank_service (m_bundle m))) (m_bundle m) = (Inr svc, ab')"
  shows "writes A (ReconcileService E) w m =
      [(Create (ObjService svc), fst (api_write A (Create (ObjService svc)) w1))] \<and>
    fst (run A (ReconcileService E) w m) = fst (api_write A (Create (ObjService svc)) w1)"
proof -
  obtain r where r: "FormulateDiffMessageForSpecs E (AnyServiceSpec zero_service_spec)
      (AnyServiceSpec (svc_Spec svc)) = Inr r"
    using diff_total_messages(1) [OF assms(3)] by blast
  obtain l where l: "FormulateDiffMessageForLabels E (AnyStringMap None)
      (AnyStringMap (om_Labels (svc_ObjectMeta svc))) = Inr l"
    using diff_total_messages(2) [OF assms(3)] by blast
  have labels: "om_Labels (svc_ObjectMeta svc) = Some (SetDefaultAppBundleLabels (m_bundle m) None)"
    by (subst CreateExpectedService_Inr(1) [OF assms(5)]) simp
  note exp = assms(5) [unfolded blank_service_def]
  show ?thesis
    using r l labels assms(2,4)
    by (simp add: ReconcileService_def services.writes_GetInto_error [OF assms(1)]
        services.run_GetInto_error [OF assms(1)] exp labels_differ_from_none
        writes_upsert_create run_upsert_create split: prod.split)
qed

text \<open>A \<open>Get\<close> that fails for another reason than a missing service makes a reconciliation of a
  bundle with routes fail, and nothing is written.\<close>

lemma service_get_error_writes_nothing:
  assumes "api_get A KService (ab_Namespace (m_bundle m)) (ab_Name (m_bundle m)) w = (Inl e, w1)"
    and "\<not> IsNotFound (Some e)"
    and "sp_Routes (ab_Spec (m_bundle m)) \<noteq> None"
  shows "writes A (ReconcileService E) w m = [] \<and> fst (run A (ReconcileService E) w m) \<noteq> None"
proof -
  obtain rs where routes: "sp_Routes (ab_Spec (m_bundle m)) = Some rs"
    using assms(3) by auto
  obtain r ab' where exp: "CreateExpectedService
      (GetGeneratedServiceSpecData (blank_service (m_bundle m))) (m_bundle m) = (r, ab')"
    by fastforce
  note simps = ReconcileService_def services.writes_GetInto_error [OF assms(1)]
    services.run_GetInto_error [OF assms(1)] routes exp [unfolded blank_service_def]
  show ?thesis
  proof (cases r)
    case (Inl err)
    then show ?thesis by (simp add: simps)
  next
    case (Inr svc)
    have "om_Labels (svc_ObjectMeta svc) = Some (SetDefaultAppBundleLabels (m_bundle m) None)"
      by (subst CreateExpectedService_Inr(1) [OF exp [unfolded Inr]]) simp
    with Inr show ?thesis
      using assms(2) labels_differ_from_none
      by (simp add: simps with_reason_def upsert_get_error split: sum.split)
  qed
qed

text \<open>Nothing is written when the service exists, its spec already carries what is expected and
  its labels are the expected ones: a reconciled service is a fixed point.\<close>

lemma service_steady_state:
  assumes "api_get A KService (ab_Namespace (m_bundle m)) (ab_Name (m_bundle m)) w = (Inr (ObjService cur), w1)"
    and "sp_Routes (ab_Spec (m_bundle m)) \<noteq> None"
    and "CreateExpectedService (GetGeneratedServiceSpecData cur) (m_bundle m) = (Inr svc, ab')"
    and "ext_DeepDerivative E (AnyServiceSpec (svc_Spec svc)) (AnyServiceSpec (svc_Spec cur))"
    and "wf_map (entries (om_Labels (svc_ObjectMeta cur)))"
    and "\<forall>k. mget (om_Labels (svc_ObjectMeta cur)) k = map_of (SetDefaultAppBundleLabels (m_bundle m) None) k"
  shows "writes A (ReconcileService E) w m = [] \<and> fst (run A (ReconcileService E) w m) = None"
proof -
  have labels: "om_Labels (svc_ObjectMeta svc) = Some (SetDefaultAppBundleLabels (m_bundle m) None)"
    by (subst CreateExpectedService_Inr(1) [OF assms(3)]) simp
  have "StringMapsMatch (Some (SetDefaultAppBundleLabels (m_bundle m) None)) (om_Labels (svc_ObjectMeta cur))"
    using assms(5,6) by (simp add: StringMapsMatch_iff wf_default_labels)
  moreover obtain rs where "sp_Routes (ab_Spec (m_bundle m)) = Some rs"
    using assms(2) by auto
  ultimately show ?thesis
    using assms(4)
    by (simp add: ReconcileService_def services.writes_GetInto_found [OF assms(1)]
        services.run_GetInto_found [OF assms(1)] assms(3) labels)
qed

text \<open>A bundle without routes has no service: one that exists is deleted with one request,
  and one that does not exist causes no write.\<close>

lemma service_removed_without_routes:
  assumes "sp_Routes (ab_Spec (m_bundle m)) = None"
    and "api_get A KService (ab_Namespace (m_bundle m)) (ab_Name (m_bundle m)) w = (r, w1)"
    and "r = Inr (ObjService cur) \<or> (\<exists>e. r = Inl e \<and> IsNotFound (Some e))"
  shows "writes A (ReconcileService E) w m =
    (if r = Inr (ObjService cur)
     then [(Delete (ObjService cur), fst (api_write A (Delete (ObjService cur)) w1))] else [])"
  using assms(3)
proof
  assume r: "r = Inr (ObjService cur)"
  then show ?thesis
    using assms(1,2)
    by (simp add: ReconcileService_def services.writes_GetInto_found split: prod.split)
next
  assume "\<exists>e. r = Inl e \<and> IsNotFound (Some e)"
  then obtain e where "r = Inl e" "IsNotFound (Some e)" by blast
  then show ?thesis
    using assms(1,2) by (simp add: ReconcileService_def services.writes_GetInto_error)
qed

end
