(* ===== verification/IngressReconcile.thy ===== *)
theory IngressReconcile
  imports Homepage Samples
begin

section \<open>ingress.go\<close>

text \<open>
  \<open>internal/controller/ingress.go\<close>: the expected ingress of a route and the reconciliation of
  all ingresses of a bundle. \<open>CreateExpectedIngress\<close> starts from the bundle's own annotation map
  and writes into it, so when that map is not nil the Traefik annotations, the authentication
  middleware among them, land in the bundle; the function returns the bundle as well. Nil
  pointers (\<open>route.Ingress\<close>, its \<open>Auth\<close> and \<open>Domain\<close>, and \<open>route.Port\<close>) are nil dereferences, in the
  order of the code.
\<close>

subsection \<open>The expected ingress of a route\<close>

definition ik_entryPoints :: string where
  "ik_entryPoints = ''traefik.ingress.kubernetes.io/router.entryPoints''"

definition ik_tls :: string where
  "ik_tls = ''traefik.ingress.kubernetes.io/router.tls''"

definition ik_issuer :: string where
  "ik_issuer = ''cert-manager.io/cluster-issuer''"

definition ik_middlewares :: string where
  "ik_middlewares = ''traefik.ingress.kubernetes.io/router.middlewares''"

lemmas ingress_key_defs = ik_entryPoints_def ik_tls_def ik_issuer_def ik_middlewares_def

lemma ingress_keys_distinct [simp]:
  "ik_entryPoints \<noteq> ik_tls" "ik_entryPoints \<noteq> ik_issuer" "ik_entryPoints \<noteq> ik_middlewares"
  "ik_tls \<noteq> ik_entryPoints" "ik_tls \<noteq> ik_issuer" "ik_tls \<noteq> ik_middlewares"
  "ik_issuer \<noteq> ik_entryPoints" "ik_issuer \<noteq> ik_tls" "ik_issuer \<noteq> ik_middlewares"
  "ik_middlewares \<noteq> ik_entryPoints" "ik_middlewares \<noteq> ik_tls" "ik_middlewares \<noteq> ik_issuer"
  by (simp_all add: ingress_key_defs)

definition traefik_annotations :: "strmap \<Rightarrow> strmap" where
  "traefik_annotations m =
     mput ik_issuer cluster_issuer (mput ik_tls ''true'' (mput ik_entryPoints entry_point m))"

definition wants_auth :: "AppBundleRoute \<Rightarrow> goerr + bool" where
  "wants_auth route =
     (if auth_middleware \<noteq> [] then rbind (deref (rt_Ingress route)) (\<lambda>i. deref (ri_Auth i))
      else Inr False)"

definition ingress_spec :: "AppBundle \<Rightarrow> string \<Rightarrow> AppBundleRoute \<Rightarrow> goerr + IngressSpec" where
  "ingress_spec ab name route =
     rbind (deref (rt_Ingress route)) (\<lambda>ing.
     rbind (deref (ri_Domain ing)) (\<lambda>domain.
     rbind (deref (rt_Port route)) (\<lambda>port. Inr
       \<lparr>is_Rules = [\<lparr>ir_Host = domain,
          ir_Paths = [\<lparr>ip_Path = ''/'', ip_PathType = Some PathTypePrefix,
            ip_ServiceName = ab_Name ab, ip_ServicePort = int32 port\<rparr>]\<rparr>],
        is_TLS = [\<lparr>it_Hosts = [domain],
          it_SecretName = name @ ''-'' @ ab_Namespace ab @ ''-ingress-tls''\<rparr>],
        is_Rest = no_rest\<rparr>)))"

definition ends_on_web :: "string \<Rightarrow> bool" where
  "ends_on_web name \<longleftrightarrow> length name > 3 \<and> drop (length name - 3) name = ''web''"

definition CreateExpectedIngress ::
    "string \<Rightarrow> AppBundleRoute \<Rightarrow> AppBundle \<Rightarrow> (goerr + Ingress) \<times> AppBundle" where
  "CreateExpectedIngress name route ab =
     (let annotations = traefik_annotations (entries (om_Annotations (ab_ObjectMeta ab)));
          ab1 = set_annotations annotations ab
      in case wants_auth route of
           Inl e \<Rightarrow> (Inl e, ab1)
         | Inr auth \<Rightarrow>
             (let annotations2 = (if auth then mput ik_middlewares auth_middleware annotations
                                  else annotations);
                  ab2 = set_annotations annotations2 ab1;
                  ingress = rbind (ingress_spec ab2 name route) (\<lambda>spec.
                    rbind (if ends_on_web name \<and> sp_Homepage (ab_Spec ab2) \<noteq> None
                           then GetHomePageAnnotations (Some annotations2) ab2 else Inr annotations2)
                    (\<lambda>final. Inr
                      \<lparr>ing_ObjectMeta = zero_meta\<lparr>om_Name := name, om_Namespace := ab_Namespace ab2,
                         om_OwnerReferences := [ab_OwnerReference ab2],
                         om_Labels := Some (SetDefaultAppBundleLabels ab2 (Some [])),
                         om_Annotations := Some final\<rparr>,
                       ing_Spec = spec\<rparr>))
              in (ingress, ab2)))"

subsection \<open>ReconcileIngress\<close>

fun contains :: "string list \<Rightarrow> string \<Rightarrow> bool" where
  "contains [] str = False"
| "contains (v # s) str = (if v = str then True else contains s str)"

lemma contains_iff [simp]: "contains s str \<longleftrightarrow> str \<in> set s"
  by (induction s) auto

definition route_at :: "AppBundle \<Rightarrow> string \<Rightarrow> AppBundleRoute" where
  "route_at ab key = mget_or zero_route (sp_Routes (ab_Spec ab)) key"

definition ingress_keys :: "AppBundle \<Rightarrow> string list" where
  "ingress_keys ab =
     filter (\<lambda>key. rt_Ingress (route_at ab key) \<noteq> None) (getSortedKeys (sp_Routes (ab_Spec ab)))"

definition ingress_name :: "AppBundle \<Rightarrow> string \<Rightarrow> string" where
  "ingress_name ab key = ab_Name ab @ ''-'' @ key"

definition ingress_names :: "AppBundle \<Rightarrow> string list" where
  "ingress_names ab = map (ingress_name ab) (ingress_keys ab)"

definition reconcile_route :: "ext \<Rightarrow> AppBundle \<Rightarrow> string \<Rightarrow> goerr option mprog" where
  "reconcile_route E ab key =
     (let route = route_at ab key; name = ingress_name ab key in
      if rt_Ingress route = None then Done None
      else UpdateBundle (CreateExpectedIngress name route) (\<lambda>r. case r of
          Inl err \<Rightarrow> Done (Some err)
        | Inr expectedIngress \<Rightarrow>
            GetInto KIngress proj_Ingress (ab_Namespace ab) name
              \<lparr>ing_ObjectMeta = zero_meta\<lparr>om_Name := name, om_Namespace := ab_Namespace ab,
                 om_OwnerReferences := [ab_OwnerReference ab]\<rparr>,
               ing_Spec = zero_ingress_spec\<rparr>
              (\<lambda>currentIngress er.
                if \<not> ext_DeepDerivative E (AnyIngressSpec (ing_Spec expectedIngress))
                      (AnyIngressSpec (ing_Spec currentIngress))
                then with_reason
                  (FormulateDiffMessageForSpecs E (AnyIngressSpec (ing_Spec currentIngress))
                     (AnyIngressSpec (ing_Spec expectedIngress)))
                  (\<lambda>reason. UpsertResource (ObjIngress expectedIngress) reason er False)
                else Done None)))"

definition delete_unexpected :: "string list \<Rightarrow> Ingress \<Rightarrow> goerr option mprog" where
  "delete_unexpected names ingress =
     (if \<not> contains names (om_Name (ing_ObjectMeta ingress))
      then Log (''Deleting ingress '' @ om_Name (ing_ObjectMeta ingress))
        (Write (Delete (ObjIngress ingress)) Done)
      else Done None)"

definition ReconcileIngress :: "ext \<Rightarrow> goerr option mprog" where
  "ReconcileIngress E = ReadBundle (\<lambda>ab.
     with_mutex (mutex_key ''ingresses'' (ab_Name ab) (ab_Namespace ab))
       (let names = ingress_names ab in
        ListObjs KIngress (Some (ab_Namespace ab)) [(AppBundleSelector, ab_Name ab)] (\<lambda>r. case r of
            Inl err \<Rightarrow> Done (Some err)
          | Inr objs \<Rightarrow>
              (let items = items_of proj_Ingress objs in
               if sp_Routes (ab_Spec ab) = None \<and> items = [] then Done None
               else thenP (forP items (delete_unexpected names))
                 (if names = [] then Done None
                  else forP (getSortedKeys (sp_Routes (ab_Spec ab))) (reconcile_route E ab))))))"

subsection \<open>Facts about the expected ingress\<close>

lemma set_annotations_twice [simp]:
  "set_annotations m (set_annotations m' ab) = set_annotations m ab"
  by (simp add: set_annotations_def)

lemma ingress_spec_set_annotations [simp]:
  "ingress_spec (set_annotations m ab) name route = ingress_spec ab name route"
  by (simp add: ingress_spec_def)

lemma ingress_spec_agrees:
  assumes "agrees ab0 ab"
  shows "ingress_spec ab name route = ingress_spec ab0 name route"
  by (simp add: ingress_spec_def agrees_meta [OF assms])

lemma CreateExpectedIngress_agrees:
  "agrees ab0 ab \<Longrightarrow> agrees ab0 (snd (CreateExpectedIngress name route ab))"
  by (simp add: CreateExpectedIngress_def Let_def agrees_set_annotations split: sum.split)

lemma CreateExpectedIngress_Inr:
  assumes "CreateExpectedIngress name route ab = (Inr ing, ab')"
  shows "ingress_spec ab name route = Inr (ing_Spec ing)"
    and "om_Name (ing_ObjectMeta ing) = name"
    and "om_Namespace (ing_ObjectMeta ing) = ab_Namespace ab"
    and "om_OwnerReferences (ing_ObjectMeta ing) = [ab_OwnerReference ab]"
    and "om_Labels (ing_ObjectMeta ing) = Some (SetDefaultAppBundleLabels ab (Some []))"
proof -
  have ag: "agrees ab (set_annotations m ab)" for m
    by (simp add: agrees_set_annotations)
  show "ingress_spec ab name route = Inr (ing_Spec ing)"
    and "om_Name (ing_ObjectMeta ing) = name"
    and "om_Namespace (ing_ObjectMeta ing) = ab_Namespace ab"
    and "om_OwnerReferences (ing_ObjectMeta ing) = [ab_OwnerReference ab]"
    and "om_Labels (ing_ObjectMeta ing) = Some (SetDefaultAppBundleLabels ab (Some []))"
    using assms
    by (auto simp: CreateExpectedIngress_def Let_def rbind_Inr_iff agrees_owner [OF ag]
        agrees_labels [OF ag] split: sum.splits if_splits)
qed

lemma expected_ingress_owned:
  assumes "agrees ab0 ab" and "fst (CreateExpectedIngress name route ab) = Inr ing" and "name \<in> N"
    and "wobj q = ObjIngress ing"
  shows "owned_write ab0 KIngress N q"
proof -
  obtain ab' where "CreateExpectedIngress name route ab = (Inr ing, ab')"
    using assms(2) by (cases "CreateExpectedIngress name route ab") auto
  note facts = CreateExpectedIngress_Inr [OF this]
  show ?thesis
    using assms(3,4) facts by (simp add: owned_write_def agrees_simps [OF assms(1)])
qed

lemma traefik_lookup:
  "map_of (traefik_annotations m) k =
    (if k = ik_issuer then Some cluster_issuer else if k = ik_tls then Some ''true''
     else if k = ik_entryPoints then Some entry_point else map_of m k)"
  by (simp add: traefik_annotations_def)

lemma wf_traefik [simp]: "wf_map m \<Longrightarrow> wf_map (traefik_annotations m)"
  by (simp add: traefik_annotations_def)

text \<open>The annotations a successful call computes, and writes back unless the bundle's map is nil.\<close>

definition route_annotations :: "bool \<Rightarrow> AppBundle \<Rightarrow> strmap" where
  "route_annotations auth ab =
     (let annotations = traefik_annotations (entries (om_Annotations (ab_ObjectMeta ab)))
      in if auth then mput ik_middlewares auth_middleware annotations else annotations)"

lemma CreateExpectedIngress_bundle:
  assumes "CreateExpectedIngress name route ab = (Inr ing, ab')"
  obtains auth where "wants_auth route = Inr auth"
    and "ab' = set_annotations (route_annotations auth ab) ab"
proof (cases "wants_auth route")
  case (Inl e)
  with assms show ?thesis by (simp add: CreateExpectedIngress_def Let_def)
next
  case (Inr auth)
  with assms have "ab' = set_annotations (route_annotations auth ab) ab"
    by (cases auth) (simp_all add: CreateExpectedIngress_def Let_def route_annotations_def)
  with Inr show ?thesis by (rule that)
qed

lemma auth_middleware_set [simp]: "auth_middleware \<noteq> []"
  by (simp add: auth_middleware_def)

subsection \<open>Safety of the reconciliation\<close>

text \<open>
  The writes an ingress reconciliation may send: to an ingress that the bundle asks for, as
  an owned write; to any other ingress, a deletion only.
\<close>

definition ingress_write :: "AppBundle \<Rightarrow> wreq \<Rightarrow> bool" where
  "ingress_write ab q \<longleftrightarrow>
     kind_of (wobj q) = KIngress \<and>
     (if obj_Name (wobj q) \<in> set (ingress_names ab)
      then owned_write ab KIngress (set (ingress_names ab)) q else is_delete q)"

lemma agrees_ingress_names:
  assumes "agrees ab0 ab"
  shows "ingress_names ab = ingress_names ab0"
proof -
  have "ingress_name ab = ingress_name ab0"
    by (intro ext) (simp only: ingress_name_def agrees_meta [OF assms])
  moreover have "route_at ab = route_at ab0"
    by (intro ext) (simp only: route_at_def agrees_spec [OF assms])
  ultimately show ?thesis
    by (simp only: ingress_names_def ingress_keys_def agrees_spec [OF assms])
qed

lemma sat_reconcile_route:
  assumes "agrees ab0 ab" and "key \<in> set (getSortedKeys (sp_Routes (ab_Spec ab)))"
  shows "sat (frame ab0) (ingress_write ab0) (\<lambda>_. True) (reconcile_route E ab key)"
proof (cases "rt_Ingress (route_at ab key) = None")
  case True
  then show ?thesis by (simp add: reconcile_route_def)
next
  case False
  with assms(2) have "ingress_name ab key \<in> set (ingress_names ab)"
    by (simp add: ingress_names_def ingress_keys_def)
  then have name: "ingress_name ab key \<in> set (ingress_names ab0)"
    by (simp add: agrees_ingress_names [OF assms(1)])
  have ok: "ingress_write ab0 q"
    if "agrees ab0 ab'" "fst (CreateExpectedIngress (ingress_name ab key) r ab') = Inr ing" "wobj q = ObjIngress ing"
    for ab' r ing q
  proof -
    have "owned_write ab0 KIngress (set (ingress_names ab0)) q"
      by (rule expected_ingress_owned [OF that(1,2) name that(3)])
    then show ?thesis by (simp add: ingress_write_def owned_write_def)
  qed
  show ?thesis
    using False
    by (auto simp: reconcile_route_def Let_def with_reason_def CreateExpectedIngress_agrees ok
        split: sum.split intro!: sat_UpdateBundle ingresses.sat_GetInto sat_UpsertResource)
qed

lemma sat_ReconcileIngress: "sat (frame ab0) (ingress_write ab0) (\<lambda>_. True) (ReconcileIngress E)"
  unfolding ReconcileIngress_def
proof (rule sat_ReadBundle, subst sat_with_mutex, unfold Let_def)
  fix ab
  assume ag: "agrees ab0 ab"
  have del: "sat (frame ab0) (ingress_write ab0) (\<lambda>_. True)
      (forP is (delete_unexpected (ingress_names ab)))" for "is"
    by (rule sat_forP)
      (simp_all add: delete_unexpected_def ingress_write_def agrees_ingress_names [OF ag])
  have rec: "sat (frame ab0) (ingress_write ab0) (\<lambda>_. True)
      (forP (getSortedKeys (sp_Routes (ab_Spec ab))) (reconcile_route E ab))"
    by (rule sat_forP) (erule sat_reconcile_route [OF ag], simp)
  have tail: "sat (frame ab0) (ingress_write ab0) (\<lambda>_. True)
      (if ingress_names ab = [] then Done None
       else forP (getSortedKeys (sp_Routes (ab_Spec ab))) (reconcile_route E ab))"
    using rec by (cases "ingress_names ab = []") simp_all
  have step: "sat (frame ab0) (ingress_write ab0) (\<lambda>_. True)
      (thenP (forP is (delete_unexpected (ingress_names ab)))
        (if ingress_names ab = [] then Done None
         else forP (getSortedKeys (sp_Routes (ab_Spec ab))) (reconcile_route E ab)))" for "is"
    by (rule sat_thenP [OF del _ tail]) simp
  show "sat (frame ab0) (ingress_write ab0) (\<lambda>_. True)
     (ListObjs KIngress (Some (ab_Namespace ab)) [(AppBundleSelector, ab_Name ab)] (\<lambda>r. case r of
         Inl err \<Rightarrow> Done (Some err)
       | Inr objs \<Rightarrow> if sp_Routes (ab_Spec ab) = None \<and> items_of proj_Ingress objs = [] then Done None
           else thenP (forP (items_of proj_Ingress objs) (delete_unexpected (ingress_names ab)))
             (if ingress_names ab = [] then Done None
              else forP (getSortedKeys (sp_Routes (ab_Spec ab))) (reconcile_route E ab))))"
    by (intro sat_intros step) simp_all
qed

interpretation ingress_reconciler: reconciler "ReconcileIngress E" ab0 "ingress_write ab0"
  for E ab0
  by unfold_locales (rule sat_ReconcileIngress)

subsection \<open>Properties\<close>

text \<open>The annotations of the ingress itself: those of the route, and the homepage's.\<close>

definition final_annotations :: "string \<Rightarrow> AppBundle \<Rightarrow> strmap \<Rightarrow> strmap" where
  "final_annotations name ab m = (case sp_Homepage (ab_Spec ab) of
     None \<Rightarrow> m
   | Some hp \<Rightarrow> if ends_on_web name then home_annotations (Some m) hp (ab_Name ab) else m)"

lemma CreateExpectedIngress_ok:
  assumes "wants_auth route = Inr auth" and "ingress_spec ab name route = Inr spec"
  shows "\<exists>ing. CreateExpectedIngress name route ab =
      (Inr ing, set_annotations (route_annotations auth ab) ab) \<and> ing_Spec ing = spec \<and>
      om_Annotations (ing_ObjectMeta ing) = Some (final_annotations name ab (route_annotations auth ab))"
  by (cases auth; cases "sp_Homepage (ab_Spec ab)"; cases "ends_on_web name")
    (simp_all add: CreateExpectedIngress_def Let_def assms route_annotations_def
      GetHomePageAnnotations_def final_annotations_def)

lemma wants_auth_eq: "wants_auth route = rbind (deref (rt_Ingress route)) (\<lambda>i. deref (ri_Auth i))"
  by (simp add: wants_auth_def)

lemma ik_not_home [simp]: "home_value hp name ik_middlewares = None" "ik_middlewares \<noteq> hk_auth"
  by (simp_all add: home_value_def home_key_defs ingress_key_defs)

lemma wf_route_annotations:
  "wf_map (entries (om_Annotations (ab_ObjectMeta ab))) \<Longrightarrow> wf_map (route_annotations auth ab)"
  by (simp add: route_annotations_def Let_def)

lemma route_middlewares:
  "map_of (route_annotations auth ab) ik_middlewares =
    (if auth then Some auth_middleware else mget (om_Annotations (ab_ObjectMeta ab)) ik_middlewares)"
  by (simp add: route_annotations_def Let_def traefik_lookup mget_def)

lemma ingress_middlewares:
  assumes "CreateExpectedIngress name route ab = (Inr ing, ab')" and "wants_auth route = Inr auth"
    and "wf_map (entries (om_Annotations (ab_ObjectMeta ab)))"
  shows "mget (om_Annotations (ing_ObjectMeta ing)) ik_middlewares =
      (if auth then Some auth_middleware else mget (om_Annotations (ab_ObjectMeta ab)) ik_middlewares)"
proof -
  have "om_Annotations (ing_ObjectMeta ing) = Some (final_annotations name ab (route_annotations auth ab))"
    using CreateExpectedIngress_ok [OF assms(2) CreateExpectedIngress_Inr(1) [OF assms(1)]] assms(1)
    by auto
  then show ?thesis
    by (simp add: final_annotations_def home_annotations_lookup wf_route_annotations assms(3)
        route_middlewares split: option.split)
qed

text \<open>A route with an ingress, and a bundle with such routes.\<close>

definition exposed :: "string \<Rightarrow> bool \<Rightarrow> AppBundleRoute" where
  "exposed domain auth = (route_to 80)\<lparr>rt_Ingress := Some \<lparr>ri_Domain = Some domain, ri_Auth = Some auth\<rparr>\<rparr>"

lemma exposed_sel [simp]:
  "rt_Port (exposed d a) = Some 80"
  "rt_Ingress (exposed d a) = Some \<lparr>ri_Domain = Some d, ri_Auth = Some a\<rparr>"
  "wants_auth (exposed d a) = Inr a"
  by (simp_all add: exposed_def route_to_def wants_auth_def)

lemma exposed_ok: "\<exists>ing. CreateExpectedIngress name (exposed d a) ab =
    (Inr ing, set_annotations (route_annotations a ab) ab) \<and> ingress_spec ab name (exposed d a) = Inr (ing_Spec ing)"
proof -
  have "\<exists>spec. ingress_spec ab name (exposed d a) = Inr spec" by (simp add: ingress_spec_def)
  then obtain spec where spec: "ingress_spec ab name (exposed d a) = Inr spec" by blast
  with CreateExpectedIngress_ok [OF exposed_sel(3) spec] show ?thesis by auto
qed

text \<open>The expected ingress of a route: it can be computed when, and only when, the route has an
  ingress with an authentication flag and a domain, and a port; otherwise the code dereferences
  nil. Then its single rule sends the domain's root path to the service named after the bundle on
  the route's port (cut to 32 bits), and its TLS entry covers that domain, with a secret named
  after the ingress and the namespace.\<close>

lemma expected_ingress_spec:
  "case (Option.bind (rt_Ingress route) ri_Domain, Option.bind (rt_Ingress route) ri_Auth, rt_Port route) of
     (Some domain, Some auth, Some port) \<Rightarrow>
       (\<exists>ing ab'. CreateExpectedIngress name route ab = (Inr ing, ab') \<and>
          map ir_Host (is_Rules (ing_Spec ing)) = [domain] \<and>
          map (map (\<lambda>p. (ip_Path p, ip_ServiceName p, ip_ServicePort p)) \<circ> ir_Paths) (is_Rules (ing_Spec ing)) =
            [[(''/'', ab_Name ab, ucast port)]] \<and>
          map it_Hosts (is_TLS (ing_Spec ing)) = [[domain]] \<and>
          map it_SecretName (is_TLS (ing_Spec ing)) = [name @ ''-'' @ ab_Namespace ab @ ''-ingress-tls''] \<and>
          om_Name (ing_ObjectMeta ing) = name \<and> om_Namespace (ing_ObjectMeta ing) = ab_Namespace ab)
   | _ \<Rightarrow> fst (CreateExpectedIngress name route ab) = Inl (GoPanic ''nil pointer dereference'')"
proof (cases "\<exists>i d a p. rt_Ingress route = Some i \<and> ri_Domain i = Some d \<and> ri_Auth i = Some a \<and> rt_Port route = Some p")
  case True
  then obtain i d a p where r: "rt_Ingress route = Some i" "ri_Domain i = Some d" "ri_Auth i = Some a"
    "rt_Port route = Some p" by blast
  have auth: "wants_auth route = Inr a" using r by (simp add: wants_auth_def)
  have "\<exists>spec. ingress_spec ab name route = Inr spec" using r by (simp add: ingress_spec_def)
  then obtain spec where spec: "ingress_spec ab name route = Inr spec" by blast
  obtain ing where ing: "CreateExpectedIngress name route ab = (Inr ing, set_annotations (route_annotations a ab) ab)"
    "ing_Spec ing = spec"
    using CreateExpectedIngress_ok [OF auth spec] by blast
  have s: "spec = \<lparr>is_Rules = [\<lparr>ir_Host = d,
          ir_Paths = [\<lparr>ip_Path = ''/'', ip_PathType = Some PathTypePrefix,
            ip_ServiceName = ab_Name ab, ip_ServicePort = int32 p\<rparr>]\<rparr>],
        is_TLS = [\<lparr>it_Hosts = [d], it_SecretName = name @ ''-'' @ ab_Namespace ab @ ''-ingress-tls''\<rparr>],
        is_Rest = no_rest\<rparr>"
    using spec r by (simp add: ingress_spec_def)
  show ?thesis
    using ing CreateExpectedIngress_Inr(2,3) [OF ing(1)] by (simp add: r s int32_def)
next
  case False
  have e: "wants_auth route = Inr a \<Longrightarrow> \<exists>i. rt_Ingress route = Some i \<and> ri_Auth i = Some a" for a
    by (auto simp: wants_auth_def rbind_Inr_iff)
  have p: "wants_auth route = Inl x \<Longrightarrow> x = GoPanic ''nil pointer dereference''" for x
    by (auto simp: wants_auth_def rbind_def deref_def split: option.splits)
  have q: "ingress_spec ab' name route = Inl (GoPanic ''nil pointer dereference'')"
    if "wants_auth route = Inr a" for a ab'
    using e [OF that] False
    by (auto simp: ingress_spec_def rbind_def deref_def split: option.splits)
  have "fst (CreateExpectedIngress name route ab) = Inl (GoPanic ''nil pointer dereference'')"
    by (cases "wants_auth route") (auto simp: CreateExpectedIngress_def Let_def q dest: p)
  with False show ?thesis
    by (auto split: option.split simp: bind_eq_Some_conv)
qed

text \<open>C11. Authentication leaks between the routes of a bundle. When two expected ingresses are
  computed one after the other, the second has the authentication middleware exactly when its own
  route asks for it, or the bundle carried it before, or the first route asked for it and the bundle
  has an annotation map: then the first computation wrote it into the bundle's own map.\<close>

theorem ingress_auth_leak:
  assumes "CreateExpectedIngress n1 r1 ab = (Inr i1, ab1)"
    and "CreateExpectedIngress n2 r2 ab1 = (Inr i2, ab2)"
    and "wants_auth r1 = Inr auth1" and "wants_auth r2 = Inr auth2"
    and "wf_map (entries (om_Annotations (ab_ObjectMeta ab)))"
  shows "mget (om_Annotations (ing_ObjectMeta i2)) ik_middlewares = Some auth_middleware \<longleftrightarrow>
    auth2 \<or> (auth1 \<and> om_Annotations (ab_ObjectMeta ab) \<noteq> None) \<or>
    mget (om_Annotations (ab_ObjectMeta ab)) ik_middlewares = Some auth_middleware"
proof -
  have ab1: "ab1 = set_annotations (route_annotations auth1 ab) ab"
    using CreateExpectedIngress_bundle [OF assms(1)] assms(3) by (metis Inr_inject)
  have ann: "om_Annotations (ab_ObjectMeta ab1) =
      (if om_Annotations (ab_ObjectMeta ab) = None then None else Some (route_annotations auth1 ab))"
    by (simp add: ab1 set_annotations_def)
  have wf: "wf_map (entries (om_Annotations (ab_ObjectMeta ab1)))"
    using assms(5) by (simp add: ann wf_route_annotations)
  show ?thesis
    using ingress_middlewares [OF assms(2,4) wf] by (auto simp: ann route_middlewares)
qed

theorem ingress_auth_leak_witness:
  "let ab = zero_bundle\<lparr>ab_ObjectMeta := zero_meta\<lparr>om_Annotations := Some []\<rparr>\<rparr>;
       ab1 = snd (CreateExpectedIngress ''app-admin'' (exposed ''admin.example.com'' True) ab)
   in \<exists>i2. fst (CreateExpectedIngress ''app-www'' (exposed ''www.example.com'' False) ab1) = Inr i2 \<and>
        mget (om_Annotations (ing_ObjectMeta i2)) ik_middlewares = Some auth_middleware"
proof -
  let ?ab = "zero_bundle\<lparr>ab_ObjectMeta := zero_meta\<lparr>om_Annotations := Some []\<rparr>\<rparr>"
  let ?ab1 = "set_annotations (route_annotations True ?ab) ?ab"
  obtain i1 where i1: "CreateExpectedIngress ''app-admin'' (exposed ''admin.example.com'' True) ?ab = (Inr i1, ?ab1)"
    using exposed_ok by blast
  obtain i2 where i2: "CreateExpectedIngress ''app-www'' (exposed ''www.example.com'' False) ?ab1 =
      (Inr i2, set_annotations (route_annotations False ?ab1) ?ab1)"
    using exposed_ok by blast
  have "mget (om_Annotations (ing_ObjectMeta i2)) ik_middlewares = Some auth_middleware"
    using ingress_auth_leak [OF i1 i2, of True False] by simp
  with i1 i2 show ?thesis by simp
qed

text \<open>Every write of an ingress reconciliation, for any client and any behaviour of the other
  goroutines before it starts, concerns an ingress. It is either a deletion of an ingress that the
  bundle does not ask for, or it names an expected ingress, in the namespace of the bundle, and
  what it creates or updates is owned by the bundle.\<close>

lemma ingress_writes_safe:
  assumes "(q, r) \<in> set (writes A (ReconcileIngress E) w m)"
  shows "kind_of (wobj q) = KIngress \<and>
    (if obj_Name (wobj q) \<in> set (ingress_names (m_bundle m))
     then obj_Namespace (wobj q) = ab_Namespace (m_bundle m) \<and>
       (is_delete q \<or> om_OwnerReferences (obj_meta (wobj q)) = [ab_OwnerReference (m_bundle m)])
     else is_delete q)"
  using ingress_reconciler.writes_allowed [OF agrees_refl assms]
  by (auto simp: ingress_write_def owned_write_def split: if_splits)

definition stale_ingress :: Ingress where
  "stale_ingress = \<lparr>ing_ObjectMeta = (sample_meta ''app-old'' ''devel'')
     \<lparr>om_Labels := Some [(AppBundleSelector, ''app'')]\<rparr>, ing_Spec = zero_ingress_spec\<rparr>"

lemma stale_ingress_sel [simp]:
  "om_Name (ing_ObjectMeta stale_ingress) = ''app-old''"
  "om_Namespace (ing_ObjectMeta stale_ingress) = ''devel''"
  "om_Labels (ing_ObjectMeta stale_ingress) = Some [(AppBundleSelector, ''app'')]"
  by (simp_all add: stale_ingress_def)

text \<open>A route whose ingress exists with the expected spec is reconciled without a write.\<close>

lemma reconcile_route_silent:
  assumes J: "agrees ab (m_bundle s)"
    and "rt_Ingress (route_at ab key) \<noteq> None \<Longrightarrow> \<exists>cur spec auth.
      api_get A KIngress (ab_Namespace ab) (ingress_name ab key) w = (Inr (ObjIngress cur), w) \<and>
      ingress_spec ab (ingress_name ab key) (route_at ab key) = Inr spec \<and>
      wants_auth (route_at ab key) = Inr auth \<and>
      ext_DeepDerivative E (AnyIngressSpec spec) (AnyIngressSpec (ing_Spec cur))"
  shows "(\<exists>s'. run A (reconcile_route E ab key) w s = (None, w, s') \<and> agrees ab (m_bundle s')) \<and>
    writes A (reconcile_route E ab key) w s = []"
proof (cases "rt_Ingress (route_at ab key)")
  case None
  with J show ?thesis by (simp add: reconcile_route_def Let_def)
next
  case (Some i)
  then obtain cur spec auth
    where get: "api_get A KIngress (ab_Namespace ab) (ingress_name ab key) w = (Inr (ObjIngress cur), w)"
      and spec: "ingress_spec ab (ingress_name ab key) (route_at ab key) = Inr spec"
      and auth: "wants_auth (route_at ab key) = Inr auth"
      and eq: "ext_DeepDerivative E (AnyIngressSpec spec) (AnyIngressSpec (ing_Spec cur))"
    using assms(2) by auto
  have spec': "ingress_spec (m_bundle s) (ingress_name ab key) (route_at ab key) = Inr spec"
    by (subst ingress_spec_agrees [OF J]) (rule spec)
  obtain ing ab' where ing: "CreateExpectedIngress (ingress_name ab key) (route_at ab key) (m_bundle s) = (Inr ing, ab')"
      "ing_Spec ing = spec"
    using CreateExpectedIngress_ok [OF auth spec'] by blast
  have "agrees ab ab'"
    using CreateExpectedIngress_agrees [OF J] ing(1) by (metis snd_conv)
  then show ?thesis
    by (simp add: reconcile_route_def Let_def Some ing eq ingresses.run_GetInto_found [OF get]
        ingresses.writes_GetInto_found [OF get])
qed

text \<open>C12. Only the spec of an ingress is compared. When the cluster holds an ingress for every route
  that wants one, with the expected spec, and no others, nothing is written: whatever its
  annotations are, so switching authentication of a route on or off never reaches the cluster.\<close>

theorem ingress_annotations_never_reconciled:
  assumes "api_list A KIngress (Some (ab_Namespace (m_bundle m))) [(AppBundleSelector, ab_Name (m_bundle m))] w =
      (Inr objs, w)"
    and "\<forall>ing\<in>set (items_of proj_Ingress objs).
      om_Name (ing_ObjectMeta ing) \<in> set (ingress_names (m_bundle m))"
    and "\<forall>key\<in>set (ingress_keys (m_bundle m)). \<exists>cur spec auth.
      api_get A KIngress (ab_Namespace (m_bundle m)) (ingress_name (m_bundle m) key) w = (Inr (ObjIngress cur), w) \<and>
      ingress_spec (m_bundle m) (ingress_name (m_bundle m) key) (route_at (m_bundle m) key) = Inr spec \<and>
      wants_auth (route_at (m_bundle m) key) = Inr auth \<and>
      ext_DeepDerivative E (AnyIngressSpec spec) (AnyIngressSpec (ing_Spec cur))"
  shows "writes A (ReconcileIngress E) w m = [] \<and> fst (run A (ReconcileIngress E) w m) = None"
proof -
  let ?ab = "m_bundle m"
  let ?J = "\<lambda>m'. agrees ?ab (m_bundle m')"
  have del: "(\<exists>s'. run A (delete_unexpected (ingress_names ?ab) ing) w s = (None, w, s') \<and> ?J s') \<and>
      writes A (delete_unexpected (ingress_names ?ab) ing) w s = []"
    if "ing \<in> set (items_of proj_Ingress objs)" "?J s" for ing s
    using assms(2) that by (simp add: delete_unexpected_def)
  have route: "(\<exists>s'. run A (reconcile_route E ?ab key) w s = (None, w, s') \<and> ?J s') \<and>
      writes A (reconcile_route E ?ab key) w s = []"
    if "key \<in> set (getSortedKeys (sp_Routes (ab_Spec ?ab)))" "?J s" for key s
    by (rule reconcile_route_silent [OF that(2)]) (use assms(3) that(1) in \<open>simp add: ingress_keys_def\<close>)
  have "(\<exists>s1. run A (forP (items_of proj_Ingress objs) (delete_unexpected (ingress_names ?ab))) w m = (None, w, s1) \<and> ?J s1) \<and>
      writes A (forP (items_of proj_Ingress objs) (delete_unexpected (ingress_names ?ab))) w m = []"
    by (rule forP_silent [where J = ?J]) (rule del, assumption+, rule agrees_refl)
  then obtain s1 where s1: "run A (forP (items_of proj_Ingress objs) (delete_unexpected (ingress_names ?ab))) w m = (None, w, s1)"
      "?J s1" "writes A (forP (items_of proj_Ingress objs) (delete_unexpected (ingress_names ?ab))) w m = []"
    by blast
  have "(\<exists>s2. run A (forP (getSortedKeys (sp_Routes (ab_Spec ?ab))) (reconcile_route E ?ab)) w s1 = (None, w, s2) \<and> ?J s2) \<and>
      writes A (forP (getSortedKeys (sp_Routes (ab_Spec ?ab))) (reconcile_route E ?ab)) w s1 = []"
    by (rule forP_silent [where J = ?J]) (rule route, assumption+, rule s1(2))
  then obtain s2 where s2: "run A (forP (getSortedKeys (sp_Routes (ab_Spec ?ab))) (reconcile_route E ?ab)) w s1 = (None, w, s2)"
      "writes A (forP (getSortedKeys (sp_Routes (ab_Spec ?ab))) (reconcile_route E ?ab)) w s1 = []"
    by blast
  show ?thesis
    using s1 s2
    by (simp add: ReconcileIngress_def Let_def assms(1) run_thenP writes_thenP)
qed

definition exposed_bundle :: AppBundle where
  "exposed_bundle = sample_bundle ''app'' ''devel''
     (zero_spec\<lparr>sp_Routes := Some [(''web'', exposed ''app.example.com'' True)]\<rparr>)"

lemma exposed_bundle_sel [simp]:
  "ab_Name exposed_bundle = ''app''" "ab_Namespace exposed_bundle = ''devel''"
  "sp_Routes (ab_Spec exposed_bundle) = Some [(''web'', exposed ''app.example.com'' True)]"
  "ingress_keys exposed_bundle = [''web'']"
  "ingress_name exposed_bundle k = ''app-'' @ k"
  "route_at exposed_bundle ''web'' = exposed ''app.example.com'' True"
  by (simp_all add: exposed_bundle_def ingress_keys_def getSortedKeys_def mkeys_def route_at_def
      mget_or_def ingress_name_def)

definition open_ingress :: "IngressSpec \<Rightarrow> Ingress" where
  "open_ingress spec = \<lparr>ing_ObjectMeta = (sample_meta ''app-web'' ''devel'')
     \<lparr>om_Labels := Some [(AppBundleSelector, ''app'')]\<rparr>, ing_Spec = spec\<rparr>"

lemma open_ingress_sel [simp]:
  "om_Name (ing_ObjectMeta (open_ingress spec)) = ''app-web''"
  "om_Namespace (ing_ObjectMeta (open_ingress spec)) = ''devel''"
  "om_Labels (ing_ObjectMeta (open_ingress spec)) = Some [(AppBundleSelector, ''app'')]"
  "om_Annotations (ing_ObjectMeta (open_ingress spec)) = None"
  "ing_Spec (open_ingress spec) = spec"
  by (simp_all add: open_ingress_def)

text \<open>An ingress without any annotation, for a route that asks for authentication.\<close>

theorem ingress_annotations_never_reconciled_witness:
  "\<exists>spec. ingress_spec exposed_bundle ''app-web'' (exposed ''app.example.com'' True) = Inr spec \<and>
     om_Annotations (ing_ObjectMeta (open_ingress spec)) = None \<and>
     writes store_api (ReconcileIngress sample_ext) [ObjIngress (open_ingress spec)] (sample_mem exposed_bundle) = []"
proof -
  obtain ing :: Ingress where "ingress_spec exposed_bundle ''app-web'' (exposed ''app.example.com'' True) = Inr (ing_Spec ing)"
    using exposed_ok [of "''app-web''" "''app.example.com''" True exposed_bundle] by blast
  then obtain spec where spec: "ingress_spec exposed_bundle ''app-web'' (exposed ''app.example.com'' True) = Inr spec"
    by blast
  have "writes store_api (ReconcileIngress sample_ext) [ObjIngress (open_ingress spec)] (sample_mem exposed_bundle) = []"
    by (rule ingress_annotations_never_reconciled
          [where objs = "[ObjIngress (open_ingress spec)]", THEN conjunct1])
      (simp_all add: has_labels_def items_of_def List.map_filter_def ingress_names_def same_object_def spec ex_bool_eq)
  with spec show ?thesis by simp
qed

end
