(* ===== verification/ConfigMapReconcile.thy ===== *)
theory ConfigMapReconcile
  imports Samples
begin

section \<open>config_map.go\<close>

text \<open>
  \<open>internal/controller/config_map.go\<close>: the config map that holds the contents of the configs of a
  bundle that neither refer to an existing config map nor hold secrets, and its reconciliation,
  which restarts the pod of the bundle after a change. The pods are listed in all namespaces.
\<close>

subsection \<open>The expected config map\<close>

definition zero_config :: AppBundleConfig where
  "zero_config = \<lparr>cfg_FileName = [], cfg_Content = [], cfg_Existing = None, cfg_Secrets = None,
     cfg_DirPath = [], cfg_CopyOver = None\<rparr>"

fun config_data :: "AppBundleConfig gomap option \<Rightarrow> string list \<Rightarrow> strmap \<Rightarrow> strmap" where
  "config_data configs [] data = data"
| "config_data configs (key # keys) data =
     (let config = mget_or zero_config configs key in
      if cfg_Existing config \<noteq> None then config_data configs keys data
      else if entries (cfg_Secrets config) \<noteq> [] then config_data configs keys data
      else config_data configs keys (mput key (cfg_Content config) data))"

definition CreateExpectedConfigMap :: "AppBundle \<Rightarrow> goerr + ConfigMap option" where
  "CreateExpectedConfigMap ab =
     (if sp_Configs (ab_Spec ab) = None then Inr None
      else let data = config_data (sp_Configs (ab_Spec ab)) (getSortedKeys (sp_Configs (ab_Spec ab))) []
        in if data = [] then Inr None
        else Inr (Some \<lparr>cm_ObjectMeta = GetAppBundleObjectMetaWithOwnerReference ab,
               cm_Data = Some data, cm_Rest = no_rest\<rparr>))"

subsection \<open>ReconcileConfigMap\<close>

definition restart_pod :: "AppBundle \<Rightarrow> goerr option mprog" where
  "restart_pod ab = ListObjs KPod None [(AppBundleSelector, ab_Name ab)] (\<lambda>r. case r of
      Inl err \<Rightarrow> Done (Some err)
    | Inr objs \<Rightarrow> (case items_of proj_Pod objs of
        [] \<Rightarrow> Done None
      | [pod] \<Rightarrow> Write (Delete (ObjPod pod)) Done
      | _ \<Rightarrow> Done (Some (APIStatus ReasonBadRequest ''More than one pod found for appbundle''))))"

definition ReconcileConfigMap :: "ext \<Rightarrow> goerr option mprog" where
  "ReconcileConfigMap E = ReadBundle (\<lambda>ab.
     with_mutex (mutex_key ''configmap'' (ab_Name ab) (ab_Namespace ab))
       (GetInto KConfigMap proj_ConfigMap (ab_Namespace ab) (ab_Name ab)
          \<lparr>cm_ObjectMeta = GetAppBundleObjectMetaWithOwnerReference ab, cm_Data = None, cm_Rest = no_rest\<rparr>
        (\<lambda>currentConfigMap er.
          case CreateExpectedConfigMap ab of
            Inl err \<Rightarrow> Done (Some err)
          | Inr None \<Rightarrow>
              if er \<noteq> None \<and> \<not> IsNotFound er then Done er
              else if IsNotFound er then Done None
              else Write (Delete (ObjConfigMap currentConfigMap)) Done
          | Inr (Some expectedConfigMap) \<Rightarrow>
              if \<not> ext_DeepDerivative E (AnyStringMap (cm_Data expectedConfigMap))
                    (AnyStringMap (cm_Data currentConfigMap))
              then thenP
                (UpsertResource (ObjConfigMap expectedConfigMap)
                  (''Data in the ConfigMap '' @ ab_Name ab @ '' has changed.'') er False)
                (restart_pod ab)
              else Done None)))"

subsection \<open>Facts about the expected config map\<close>

definition in_config_map :: "AppBundleConfig \<Rightarrow> bool" where
  "in_config_map cfg \<longleftrightarrow> cfg_Existing cfg = None \<and> entries (cfg_Secrets cfg) = []"

lemma config_data_lookup:
  "map_of (config_data configs keys data) k =
    (if k \<in> set keys \<and> in_config_map (mget_or zero_config configs k)
     then Some (cfg_Content (mget_or zero_config configs k)) else map_of data k)"
  by (induction configs keys data rule: config_data.induct) (auto simp: Let_def in_config_map_def)

lemma wf_config_data: "wf_map data \<Longrightarrow> wf_map (config_data configs keys data)"
  by (induction configs keys data rule: config_data.induct) (auto simp: Let_def)

lemma config_map_lookup:
  "map_of (config_data configs (getSortedKeys configs) []) k =
    (case mget configs k of
       Some cfg \<Rightarrow> if in_config_map cfg then Some (cfg_Content cfg) else None
     | None \<Rightarrow> None)"
proof (cases "mget configs k")
  case None
  then have "k \<notin> set (getSortedKeys configs)" by (rule mget_None_iff [THEN iffD1])
  with None show ?thesis by (simp add: config_data_lookup del: set_getSortedKeys)
next
  case (Some cfg)
  with mget_Some_key [OF this] show ?thesis
    by (simp add: config_data_lookup mget_or_def del: set_getSortedKeys)
qed

lemma CreateExpectedConfigMap_Some:
  assumes "CreateExpectedConfigMap ab = Inr (Some cm)"
  shows "cm_ObjectMeta cm = GetAppBundleObjectMetaWithOwnerReference ab"
    and "cm_Data cm = Some (config_data (sp_Configs (ab_Spec ab)) (getSortedKeys (sp_Configs (ab_Spec ab))) [])"
  using assms by (auto simp: CreateExpectedConfigMap_def Let_def split: if_splits)

lemma CreateExpectedConfigMap_Inr: "\<exists>r. CreateExpectedConfigMap ab = Inr r"
  by (simp add: CreateExpectedConfigMap_def Let_def)

subsection \<open>Safety of the reconciliation\<close>

text \<open>
  The writes of a config-map reconciliation: to the bundle's config map, the deletion of a config
  map when the bundle needs none, and the deletion of a pod.
\<close>

definition config_map_write :: "AppBundle \<Rightarrow> wreq \<Rightarrow> bool" where
  "config_map_write ab q \<longleftrightarrow>
     is_delete q \<and> kind_of (wobj q) = KPod \<or>
     (if CreateExpectedConfigMap ab = Inr None then is_delete q \<and> kind_of (wobj q) = KConfigMap
      else owned_write ab KConfigMap {ab_Name ab} q)"

lemma agrees_config_map:
  assumes "agrees ab0 ab"
  shows "CreateExpectedConfigMap ab = CreateExpectedConfigMap ab0"
  by (simp add: CreateExpectedConfigMap_def Let_def agrees_simps [OF assms])

lemma sat_ReconcileConfigMap: "sat (frame ab0) (config_map_write ab0) (\<lambda>_. True) (ReconcileConfigMap E)"
proof -
  have own: "owned_write ab0 KConfigMap {ab_Name ab0} q"
    if "CreateExpectedConfigMap ab0 = Inr (Some cm)" "wobj q = ObjConfigMap cm" for cm q
    using CreateExpectedConfigMap_Some(1) [OF that(1)] that(2) by (simp add: owned_write_def)
  have pod: "sat (frame ab0) (config_map_write ab0) (\<lambda>_. True) (restart_pod ab)" for ab
    unfolding restart_pod_def
    by (intro sat_intros) (auto simp: config_map_write_def split: list.split)
  show ?thesis
    unfolding ReconcileConfigMap_def
    by (intro sat_ReadBundle sat_mutexI config_maps.sat_GetInto sat_intros sat_thenP [OF _ _ pod]
        sat_UpsertResource)
      (auto simp: agrees_config_map config_map_write_def intro: own)
qed

interpretation config_map_reconciler: reconciler "ReconcileConfigMap E" ab0 "config_map_write ab0"
  for E ab0
  by unfold_locales (rule sat_ReconcileConfigMap)

subsection \<open>Properties\<close>

text \<open>The contents of the config map. The expected config map is computed without an error;
  it is none exactly when every config refers to an existing config map or holds secrets; and when there is one,
  it holds under each name exactly the content of the config of that name, unless that config is
  of those two sorts.\<close>

lemma config_map_content:
  "\<exists>r. CreateExpectedConfigMap ab = Inr r \<and>
     (r = None \<longleftrightarrow> (\<nexists>k cfg. mget (sp_Configs (ab_Spec ab)) k = Some cfg \<and>
        cfg_Existing cfg = None \<and> entries (cfg_Secrets cfg) = [])) \<and>
     (\<forall>k. (case r of None \<Rightarrow> None | Some cm \<Rightarrow> mget (cm_Data cm) k) =
       (case mget (sp_Configs (ab_Spec ab)) k of
          None \<Rightarrow> None
        | Some cfg \<Rightarrow> if cfg_Existing cfg = None \<and> entries (cfg_Secrets cfg) = []
            then Some (cfg_Content cfg) else None))"
proof -
  let ?cs = "sp_Configs (ab_Spec ab)"
  let ?data = "config_data ?cs (getSortedKeys ?cs) []"
  have look: "map_of ?data k = (case mget ?cs k of None \<Rightarrow> None
      | Some cfg \<Rightarrow> if cfg_Existing cfg = None \<and> entries (cfg_Secrets cfg) = []
            then Some (cfg_Content cfg) else None)" for k
    by (simp add: config_map_lookup in_config_map_def split: option.split)
  show ?thesis
  proof (cases "?data = []")
    case True
    then have "CreateExpectedConfigMap ab = Inr None" by (simp add: CreateExpectedConfigMap_def)
    moreover have none: "(case mget ?cs k of None \<Rightarrow> None
      | Some cfg \<Rightarrow> if cfg_Existing cfg = None \<and> entries (cfg_Secrets cfg) = []
            then Some (cfg_Content cfg) else None) = None" for k
      using look [of k] True by simp
    moreover have "\<not> (mget ?cs k = Some cfg \<and> cfg_Existing cfg = None \<and> entries (cfg_Secrets cfg) = [])" for k cfg
      using none [of k] by auto
    ultimately show ?thesis by (intro exI [of _ None]) simp
  next
    case False
    then have "?cs \<noteq> None" by (cases ?cs) simp_all
    with False have cm: "CreateExpectedConfigMap ab = Inr (Some \<lparr>cm_ObjectMeta = GetAppBundleObjectMetaWithOwnerReference ab,
        cm_Data = Some ?data, cm_Rest = no_rest\<rparr>)"
      by (simp add: CreateExpectedConfigMap_def)
    from False obtain k v where "(k, v) \<in> set ?data" by (cases ?data) auto
    then obtain v' where "map_of ?data k = Some v'" using weak_map_of_SomeI by metis
    then have "\<exists>k cfg. mget ?cs k = Some cfg \<and> cfg_Existing cfg = None \<and> entries (cfg_Secrets cfg) = []"
      by (intro exI [of _ k]) (simp add: look split: option.splits if_splits)
    with cm show ?thesis by (simp add: look)
  qed
qed

text \<open>C23. A change of the contents restarts the pod. When the config map is missing or differs, and the
  server accepts its creation or update, the pods with the bundle's label are listed in all namespaces:
  with none of them the reconciliation succeeds; the only one is deleted, whatever its
  namespace; with more than one nothing is deleted and the result is a bad request, although the config
  map has already been written.\<close>

theorem config_map_restarts_pod:
  assumes "api_get A KConfigMap (ab_Namespace (m_bundle m)) (ab_Name (m_bundle m)) w = (r, w1)"
    and "(r = Inr (ObjConfigMap cur) \<and> q = Update (ObjConfigMap cm)) \<or>
      (\<exists>e. r = Inl e \<and> IsNotFound (Some e) \<and> cm_Data cur = None \<and> q = Create (ObjConfigMap cm))"
    and "CreateExpectedConfigMap (m_bundle m) = Inr (Some cm)"
    and "\<not> ext_DeepDerivative E (AnyStringMap (cm_Data cm)) (AnyStringMap (cm_Data cur))"
    and "api_write A q w1 = (None, w2)"
    and "api_list A KPod None [(AppBundleSelector, ab_Name (m_bundle m))] w2 = (Inr objs, w3)"
  shows "(writes A (ReconcileConfigMap E) w m, fst (run A (ReconcileConfigMap E) w m)) =
    (case items_of proj_Pod objs of
       [] \<Rightarrow> ([(q, None)], None)
     | [pod] \<Rightarrow> (let e = fst (api_write A (Delete (ObjPod pod)) w3) in ([(q, None), (Delete (ObjPod pod), e)], e))
     | _ \<Rightarrow> ([(q, None)], Some (APIStatus ReasonBadRequest ''More than one pod found for appbundle'')))"
proof -
  have pods: "(writes A (restart_pod (m_bundle m)) w2 m, fst (run A (restart_pod (m_bundle m)) w2 m)) =
    (case items_of proj_Pod objs of
       [] \<Rightarrow> ([], None)
     | [pod] \<Rightarrow> (let e = fst (api_write A (Delete (ObjPod pod)) w3) in ([(Delete (ObjPod pod), e)], e))
     | _ \<Rightarrow> ([], Some (APIStatus ReasonBadRequest ''More than one pod found for appbundle'')))"
    by (simp add: restart_pod_def assms(6) Let_def split: list.split prod.split)
  from assms(2) show ?thesis
  proof
    assume found: "r = Inr (ObjConfigMap cur) \<and> q = Update (ObjConfigMap cm)"
    with assms(1) have get: "api_get A KConfigMap (ab_Namespace (m_bundle m)) (ab_Name (m_bundle m)) w =
        (Inr (ObjConfigMap cur), w1)" by simp
    have up: "api_write A (Update (ObjConfigMap cm)) w1 = (None, w2)" using found assms(5) by simp
    show ?thesis
      using pods found
      by (simp add: ReconcileConfigMap_def config_maps.writes_GetInto_found [OF get]
          config_maps.run_GetInto_found [OF get] assms(3,4) writes_thenP run_thenP
          writes_upsert_update [OF up] run_upsert_update [OF up] Let_def split: list.splits)
  next
    assume "\<exists>e. r = Inl e \<and> IsNotFound (Some e) \<and> cm_Data cur = None \<and> q = Create (ObjConfigMap cm)"
    then obtain e where e: "r = Inl e" "IsNotFound (Some e)" "cm_Data cur = None" "q = Create (ObjConfigMap cm)"
      by blast
    with assms(1) have get: "api_get A KConfigMap (ab_Namespace (m_bundle m)) (ab_Name (m_bundle m)) w = (Inl e, w1)"
      by simp
    have cr: "api_write A (Create (ObjConfigMap cm)) w1 = (None, w2)" using e assms(5) by simp
    have dd: "\<not> ext_DeepDerivative E (AnyStringMap (cm_Data cm)) (AnyStringMap None)"
      using assms(4) e(3) by simp
    show ?thesis
      using pods e(2,4) dd
      by (simp add: ReconcileConfigMap_def config_maps.writes_GetInto_error [OF get]
          config_maps.run_GetInto_error [OF get] assms(3) writes_thenP run_thenP
          writes_upsert_create run_upsert_create cr Let_def split: list.splits)
  qed
qed

definition config_bundle :: AppBundle where
  "config_bundle = sample_bundle ''app'' ''devel''
     (zero_spec\<lparr>sp_Configs := Some [(''main'', zero_config\<lparr>cfg_Content := ''x'', cfg_FileName := ''f''\<rparr>)]\<rparr>)"

definition config_bundle_map :: ConfigMap where
  "config_bundle_map = \<lparr>cm_ObjectMeta = GetAppBundleObjectMetaWithOwnerReference config_bundle,
     cm_Data = Some [(''main'', ''x'')], cm_Rest = no_rest\<rparr>"

lemma config_bundle_sel [simp]:
  "ab_Name config_bundle = ''app''" "ab_Namespace config_bundle = ''devel''"
  "CreateExpectedConfigMap config_bundle = Inr (Some config_bundle_map)"
  by (simp_all add: config_bundle_def config_bundle_map_def CreateExpectedConfigMap_def getSortedKeys_def
      mkeys_def mget_or_def zero_config_def mput_def)

text \<open>A pod of another namespace that carries the same label value.\<close>

definition foreign_pod :: Pod where
  "foreign_pod = \<lparr>pod_ObjectMeta = (sample_meta ''app-7f'' ''prod'')
     \<lparr>om_Labels := Some [(AppBundleSelector, ''app'')]\<rparr>, pod_Rest = no_rest\<rparr>"

lemma foreign_pod_sel [simp]:
  "om_Name (pod_ObjectMeta foreign_pod) = ''app-7f''" "om_Namespace (pod_ObjectMeta foreign_pod) = ''prod''"
  "om_Labels (pod_ObjectMeta foreign_pod) = Some [(AppBundleSelector, ''app'')]"
  by (simp_all add: foreign_pod_def)

theorem config_map_restarts_pod_witness:
  "writes store_api (ReconcileConfigMap sample_ext) [ObjPod foreign_pod] (sample_mem config_bundle) =
     [(Create (ObjConfigMap config_bundle_map), None), (Delete (ObjPod foreign_pod), None)] \<and>
   om_Namespace (pod_ObjectMeta foreign_pod) \<noteq> ab_Namespace config_bundle"
proof -
  let ?cm = "ObjConfigMap config_bundle_map"
  have cm: "cm_Data config_bundle_map = Some [(''main'', ''x'')]"
    "cm_ObjectMeta config_bundle_map = GetAppBundleObjectMetaWithOwnerReference config_bundle"
    by (simp_all add: config_bundle_map_def)
  have "(writes store_api (ReconcileConfigMap sample_ext) [ObjPod foreign_pod] (sample_mem config_bundle),
      fst (run store_api (ReconcileConfigMap sample_ext) [ObjPod foreign_pod] (sample_mem config_bundle))) =
    (case items_of proj_Pod [ObjPod foreign_pod] of
       [] \<Rightarrow> ([(Create ?cm, None)], None)
     | [pod] \<Rightarrow> (let e = fst (api_write store_api (Delete (ObjPod pod)) [ObjPod foreign_pod, ?cm])
         in ([(Create ?cm, None), (Delete (ObjPod pod), e)], e))
     | _ \<Rightarrow> ([(Create ?cm, None)], Some (APIStatus ReasonBadRequest ''More than one pod found for appbundle'')))"
    by (rule config_map_restarts_pod [where r = "Inl not_found" and cm = config_bundle_map and
          cur = "config_bundle_map\<lparr>cm_Data := None\<rparr>" and ?w1.0 = "[ObjPod foreign_pod]"
          and ?w2.0 = "[ObjPod foreign_pod, ?cm]"])
      (simp_all add: same_object_def same_as_def has_labels_def cm)
  then show ?thesis
    by (simp add: items_of_def List.map_filter_def same_as_def same_object_def)
qed

text \<open>Every write of a config-map reconciliation is a deletion of a pod, a write to the config map with the
  name and in the namespace of the bundle, owned by the bundle, or the deletion of a
  config map that the bundle does not need. It never deletes a config map that the bundle needs,
  except in order to recreate it.\<close>

lemma config_map_writes_safe:
  assumes "(q, r) \<in> set (writes A (ReconcileConfigMap E) w m)"
  shows "(kind_of (wobj q) = KPod \<and> is_delete q) \<or>
    (kind_of (wobj q) = KConfigMap \<and>
     (if CreateExpectedConfigMap (m_bundle m) = Inr None then is_delete q
      else obj_Name (wobj q) = ab_Name (m_bundle m) \<and> obj_Namespace (wobj q) = ab_Namespace (m_bundle m) \<and>
        (is_delete q \<or> om_OwnerReferences (obj_meta (wobj q)) = [ab_OwnerReference (m_bundle m)])))"
  using config_map_reconciler.writes_allowed [OF agrees_refl assms]
  by (auto simp: config_map_write_def owned_write_def)

end
