(* ===== verification/SecretsReconcile.thy ===== *)
theory SecretsReconcile
  imports ConfigMapReconcile Homepage
begin

section \<open>secrets.go\<close>

text \<open>
  \<open>internal/controller/secrets.go\<close>: the external secret that collects the remote secrets of the
  sourced environment variables and of the configs of a bundle, and its reconciliation. The loops over
  \<open>SourcedEnvs\<close>, over \<open>Configs\<close> and over the secrets of a config run in the iteration order of the
  maps, so a secret key that two configs define differently gets the value of the later one.
\<close>

subsection \<open>The expected external secret\<close>

definition zero_sourced_env :: AppBundleSourcedEnv where
  "zero_sourced_env = \<lparr>se_ExternalSecret = [], se_Secret = [], se_ConfigMap = [], se_Key = []\<rparr>"

definition env_secret_body :: "string \<Rightarrow> AppBundleSourcedEnv \<Rightarrow> strmap \<Rightarrow> strmap" where
  "env_secret_body key value m =
     (if se_ExternalSecret value \<noteq> [] then mput key (se_ExternalSecret value) m else m)"

definition cfg_secrets_body :: "string \<Rightarrow> AppBundleConfig \<Rightarrow> strmap \<Rightarrow> strmap" where
  "cfg_secrets_body _ cfg m = range_loop mput (entries (cfg_Secrets cfg)) m"

definition secretsToGet :: "AppBundle \<Rightarrow> strmap" where
  "secretsToGet ab =
     range_loop cfg_secrets_body (entries (sp_Configs (ab_Spec ab)))
       (range_loop env_secret_body (entries (sp_SourcedEnvs (ab_Spec ab))) [])"

definition secret_data :: "strmap \<Rightarrow> ExternalSecretData list" where
  "secret_data secrets =
     map (\<lambda>key. \<lparr>ed_SecretKey = key, ed_RemoteKey = mget_or [] (Some secrets) key,
        ed_DecodingStrategy = ExternalSecretDecodeNone,
        ed_ConversionStrategy = ExternalSecretConversionDefault,
        ed_MetadataPolicy = ExternalSecretMetadataPolicyNone\<rparr>)
       (getSortedKeys (Some secrets))"

text \<open>The keys of the templates.\<close>

definition env_key :: "string \<Rightarrow> string" where
  "env_key key = ''env'' @ key"

definition cfg_key :: "string \<Rightarrow> string" where
  "cfg_key key = ''cfg'' @ key"

lemma template_keys [simp]:
  "env_key k = env_key k' \<longleftrightarrow> k = k'" "cfg_key k = cfg_key k' \<longleftrightarrow> k = k'"
  "env_key k \<noteq> cfg_key k'" "cfg_key k \<noteq> env_key k'"
  by (simp_all add: env_key_def cfg_key_def)

fun env_templates :: "AppBundleSourcedEnv gomap option \<Rightarrow> string list \<Rightarrow> strmap \<Rightarrow> strmap" where
  "env_templates envs [] templates = templates"
| "env_templates envs (key # keys) templates = env_templates envs keys
     (if se_ExternalSecret (mget_or zero_sourced_env envs key) \<noteq> []
      then mput (env_key key) (''{{ .'' @ key @ '' }}'') templates else templates)"

definition cfg_template_body :: "string \<Rightarrow> AppBundleConfig \<Rightarrow> strmap \<Rightarrow> strmap" where
  "cfg_template_body key cfg templates =
     (if entries (cfg_Secrets cfg) \<noteq> [] then mput (cfg_key key) (cfg_Content cfg) templates else templates)"

definition secret_templates :: "AppBundle \<Rightarrow> strmap" where
  "secret_templates ab =
     range_loop cfg_template_body (entries (sp_Configs (ab_Spec ab)))
       (env_templates (sp_SourcedEnvs (ab_Spec ab)) (getSortedKeys (sp_SourcedEnvs (ab_Spec ab))) [])"

definition refreshInterval :: int where
  "refreshInterval = 15 * 60 * 1000000000"

definition CreateExpectedExternalSecret :: "AppBundle \<Rightarrow> goerr + ExternalSecret option" where
  "CreateExpectedExternalSecret ab =
     (let secrets = secretsToGet ab in
      if secrets = [] then Inr None
      else case sp_SecretStoreRef (ab_Spec ab) of
        None \<Rightarrow> Inl (DeveloperError ''SecretStoreRef is nil'')
      | Some store \<Rightarrow> Inr (Some
          \<lparr>xs_ObjectMeta = GetAppBundleObjectMetaWithOwnerReference ab,
           xs_Spec = \<lparr>es_StoreName = store, es_StoreKind = ''SecretStore'',
             es_RefreshInterval = Some refreshInterval,
             es_Data = secret_data secrets,
             es_Target = \<lparr>eg_Name = ab_Name ab,
               eg_Template = Some \<lparr>et_EngineVersion = ''v2'', et_Data = Some (secret_templates ab),
                 et_MergePolicy = MergePolicyReplace\<rparr>,
               eg_CreationPolicy = CreatePolicyOwner, eg_DeletionPolicy = DeletionPolicyDelete\<rparr>,
             es_Rest = no_rest\<rparr>\<rparr>))"

subsection \<open>ReconcileExternalSecret\<close>

definition blank_secret :: "AppBundle \<Rightarrow> ExternalSecret" where
  "blank_secret ab = \<lparr>xs_ObjectMeta = GetAppBundleObjectMetaWithOwnerReference ab,
     xs_Spec = zero_external_secret_spec\<rparr>"

definition ReconcileExternalSecret :: "ext \<Rightarrow> goerr option mprog" where
  "ReconcileExternalSecret E = ReadBundle (\<lambda>ab.
     with_mutex (mutex_key ''extsec'' (ab_Name ab) (ab_Namespace ab))
       (GetInto KExternalSecret proj_ExternalSecret (ab_Namespace ab) (ab_Name ab) (blank_secret ab)
        (\<lambda>currentExternalSecret er.
          case CreateExpectedExternalSecret ab of
            Inl err \<Rightarrow> Done (Some err)
          | Inr expectedExternalSecret \<Rightarrow>
              if IsNotFound er \<and> expectedExternalSecret = None then Done None
              else (case expectedExternalSecret of
                None \<Rightarrow>
                  if er \<noteq> None then Done er
                  else Write (Delete (ObjExternalSecret currentExternalSecret)) Done
              | Some expected \<Rightarrow>
                  if \<not> ext_DeepDerivative E (AnyExternalSecretSpec (xs_Spec expected))
                        (AnyExternalSecretSpec (xs_Spec currentExternalSecret))
                  then with_reason
                    (FormulateDiffMessageForSpecs E (AnyExternalSecretSpec (xs_Spec currentExternalSecret))
                       (AnyExternalSecretSpec (xs_Spec expected)))
                    (\<lambda>reason. Write (Delete (ObjExternalSecret currentExternalSecret)) (\<lambda>err.
                       if err \<noteq> None \<and> \<not> IsNotFound err then Done err
                       else UpsertResource (ObjExternalSecret expected) reason er False))
                  else Done None))))"

subsection \<open>Facts about the secrets\<close>

lemma blank_secret_sel [simp]:
  "xs_ObjectMeta (blank_secret ab) = GetAppBundleObjectMetaWithOwnerReference ab"
  "xs_Spec (blank_secret ab) = zero_external_secret_spec"
  by (simp_all add: blank_secret_def)

lemma wf_env_secrets: "wf_map m \<Longrightarrow> wf_map (range_loop env_secret_body es m)"
  by (induction es arbitrary: m) (auto simp: env_secret_body_def)

lemma wf_cfg_secrets: "wf_map m \<Longrightarrow> wf_map (range_loop cfg_secrets_body cs m)"
  by (induction cs arbitrary: m) (auto simp: cfg_secrets_body_def wf_copy_loop)

lemma wf_secretsToGet: "wf_map (secretsToGet ab)"
  by (simp add: secretsToGet_def wf_env_secrets wf_cfg_secrets)

text \<open>
  The configs agree on the remote reference of every secret key they share.
\<close>

definition consistent_secrets :: "AppBundleConfig gomap \<Rightarrow> bool" where
  "consistent_secrets cs \<longleftrightarrow>
     (\<forall>(n, cfg)\<in>set cs. wf_map (entries (cfg_Secrets cfg))) \<and>
     (\<forall>(n, cfg)\<in>set cs. \<forall>(n', cfg')\<in>set cs. \<forall>(k, v)\<in>set (entries (cfg_Secrets cfg)).
        case mget (cfg_Secrets cfg') k of None \<Rightarrow> True | Some v' \<Rightarrow> v' = v)"

lemma cfg_secrets_body_lookup:
  "wf_map (entries (cfg_Secrets cfg)) \<Longrightarrow>
    map_of (cfg_secrets_body n cfg m) k =
      (case mget (cfg_Secrets cfg) k of Some v \<Rightarrow> Some v | None \<Rightarrow> map_of m k)"
  by (simp add: cfg_secrets_body_def copy_loop_lookup mget_def map_add_def)

lemma cfg_secrets_lookup_none:
  assumes "\<And>n cfg. (n, cfg) \<in> set cs \<Longrightarrow> wf_map (entries (cfg_Secrets cfg)) \<and> mget (cfg_Secrets cfg) k = None"
  shows "map_of (range_loop cfg_secrets_body cs m) k = map_of m k"
  using assms
proof (induction cs arbitrary: m)
  case Nil
  then show ?case by simp
next
  case (Cons c cs)
  obtain n cfg where c: "c = (n, cfg)" by (cases c)
  with Cons.prems [of n cfg] have "map_of (cfg_secrets_body n cfg m) k = map_of m k"
    by (simp add: cfg_secrets_body_lookup)
  moreover have "map_of (range_loop cfg_secrets_body cs (cfg_secrets_body n cfg m)) k =
      map_of (cfg_secrets_body n cfg m) k"
    by (rule Cons.IH) (use Cons.prems in auto)
  ultimately show ?case by (simp add: c)
qed

lemma cfg_secrets_lookup_some:
  assumes "\<And>n cfg. (n, cfg) \<in> set cs \<Longrightarrow> wf_map (entries (cfg_Secrets cfg)) \<and>
      (mget (cfg_Secrets cfg) k = None \<or> mget (cfg_Secrets cfg) k = Some v)"
    and "(\<exists>(n, cfg)\<in>set cs. mget (cfg_Secrets cfg) k = Some v) \<or> map_of m k = Some v"
  shows "map_of (range_loop cfg_secrets_body cs m) k = Some v"
  using assms
proof (induction cs arbitrary: m)
  case Nil
  then show ?case by simp
next
  case (Cons c cs)
  obtain n cfg where c: "c = (n, cfg)" by (cases c)
  have step: "map_of (cfg_secrets_body n cfg m) k =
      (case mget (cfg_Secrets cfg) k of Some v \<Rightarrow> Some v | None \<Rightarrow> map_of m k)"
    using Cons.prems(1) [of n cfg] by (simp add: c cfg_secrets_body_lookup)
  have "map_of (range_loop cfg_secrets_body cs (cfg_secrets_body n cfg m)) k = Some v"
  proof (rule Cons.IH)
    show "(\<exists>(n, cfg)\<in>set cs. mget (cfg_Secrets cfg) k = Some v) \<or>
        map_of (cfg_secrets_body n cfg m) k = Some v"
      using Cons.prems(1) [of n cfg] Cons.prems(2) by (auto simp: c step split: option.split)
  qed (use Cons.prems(1) in auto)
  then show ?case by (simp add: c)
qed

interpretation env_loop: commuting_range env_secret_body map_of
    "\<lambda>k e m. if se_ExternalSecret e \<noteq> [] then m(k \<mapsto> se_ExternalSecret e) else m"
  by unfold_locales (auto simp: env_secret_body_def fun_upd_twist)

interpretation template_loop: commuting_range cfg_template_body map_of
    "\<lambda>k cfg m. if entries (cfg_Secrets cfg) \<noteq> [] then m(cfg_key k \<mapsto> cfg_Content cfg) else m"
  by unfold_locales (auto simp: cfg_template_body_def fun_upd_twist)

lemma consistent_at:
  assumes "consistent_secrets cs" and "(n, cfg) \<in> set cs" and "mget (cfg_Secrets cfg) k = Some v"
    and "(n', cfg') \<in> set cs"
  shows "wf_map (entries (cfg_Secrets cfg')) \<and>
    (mget (cfg_Secrets cfg') k = None \<or> mget (cfg_Secrets cfg') k = Some v)"
proof -
  have "(k, v) \<in> set (entries (cfg_Secrets cfg))"
    using assms(3) by (simp add: mget_def map_of_SomeD)
  with assms(1,2,4) have "case mget (cfg_Secrets cfg') k of None \<Rightarrow> True | Some v' \<Rightarrow> v' = v"
    and "wf_map (entries (cfg_Secrets cfg'))"
    unfolding consistent_secrets_def by blast+
  then show ?thesis by (cases "mget (cfg_Secrets cfg') k") simp_all
qed

lemma cfg_secrets_consistent:
  assumes "consistent_secrets cs" and "(n, cfg) \<in> set cs" and "mget (cfg_Secrets cfg) k = Some v"
  shows "map_of (range_loop cfg_secrets_body cs m) k = Some v"
  by (rule cfg_secrets_lookup_some) (use consistent_at [OF assms] assms(2,3) in auto)

lemma cfg_secrets_order:
  assumes "consistent_secrets cs" and "set cs = set cs'" and "map_of m = map_of m'"
  shows "map_of (range_loop cfg_secrets_body cs m) = map_of (range_loop cfg_secrets_body cs' m')"
proof
  fix k
  have cons': "consistent_secrets cs'" using assms(1,2) by (simp add: consistent_secrets_def)
  show "map_of (range_loop cfg_secrets_body cs m) k = map_of (range_loop cfg_secrets_body cs' m') k"
  proof (cases "\<exists>n cfg v. (n, cfg) \<in> set cs \<and> mget (cfg_Secrets cfg) k = Some v")
    case True
    then obtain n cfg v where *: "(n, cfg) \<in> set cs" "mget (cfg_Secrets cfg) k = Some v" by blast
    from * assms(2) show ?thesis
      by (simp add: cfg_secrets_consistent [OF assms(1) *] cfg_secrets_consistent [OF cons' _ *(2)])
  next
    case False
    then have none: "wf_map (entries (cfg_Secrets cfg)) \<and> mget (cfg_Secrets cfg) k = None"
      if "(n, cfg) \<in> set cs" for n cfg
      using that assms(1) by (auto simp: consistent_secrets_def)
    show ?thesis
      using cfg_secrets_lookup_none [of cs k m, OF none] cfg_secrets_lookup_none [of cs' k m']
        none assms(2,3) by simp
  qed
qed

lemma env_templates_env:
  "map_of (env_templates envs keys m) (env_key k) =
    (if k \<in> set keys \<and> se_ExternalSecret (mget_or zero_sourced_env envs k) \<noteq> []
     then Some (''{{ .'' @ k @ '' }}'') else map_of m (env_key k))"
  by (induction envs keys m rule: env_templates.induct) auto

lemma env_templates_other:
  "(\<And>k. t \<noteq> env_key k) \<Longrightarrow> map_of (env_templates envs keys m) t = map_of m t"
  by (induction envs keys m rule: env_templates.induct) auto

lemma wf_env_templates: "wf_map m \<Longrightarrow> wf_map (env_templates envs keys m)"
  by (induction envs keys m rule: env_templates.induct) auto

lemma wf_cfg_templates: "wf_map m \<Longrightarrow> wf_map (range_loop cfg_template_body cs m)"
  by (induction cs arbitrary: m) (auto simp: cfg_template_body_def)

lemma wf_secret_templates: "wf_map (secret_templates ab)"
  by (simp add: secret_templates_def wf_cfg_templates wf_env_templates)

lemma cfg_templates_cfg:
  assumes "wf_map cs"
  shows "map_of (range_loop cfg_template_body cs m) (cfg_key k) =
    (case map_of cs k of
       Some cfg \<Rightarrow> if entries (cfg_Secrets cfg) \<noteq> [] then Some (cfg_Content cfg) else map_of m (cfg_key k)
     | None \<Rightarrow> map_of m (cfg_key k))"
  using assms
proof (induction cs arbitrary: m)
  case Nil
  then show ?case by simp
next
  case (Cons c cs)
  obtain n cfg where c: "c = (n, cfg)" by (cases c)
  with Cons.prems have "wf_map cs" "map_of cs n = None"
    by (auto simp: wf_map_def map_of_eq_None_iff)
  with Cons.IH show ?case by (auto simp: c cfg_template_body_def split: option.splits)
qed

lemma cfg_templates_other:
  "(\<And>k. t \<noteq> cfg_key k) \<Longrightarrow> map_of (range_loop cfg_template_body cs m) t = map_of m t"
  by (induction cs arbitrary: m) (auto simp: cfg_template_body_def)

text \<open>What the templates hold: an entry per config with secrets, and one per external variable.\<close>

lemma secret_templates_cfg:
  assumes "wf_map (entries (sp_Configs (ab_Spec ab)))"
  shows "map_of (secret_templates ab) (cfg_key k) =
    (case mget (sp_Configs (ab_Spec ab)) k of
       Some cfg \<Rightarrow> if entries (cfg_Secrets cfg) \<noteq> [] then Some (cfg_Content cfg) else None
     | None \<Rightarrow> None)"
proof -
  have "map_of (env_templates envs keys []) (cfg_key k) = None" for envs keys
    using env_templates_other [of "cfg_key k" envs keys "[]"] by simp
  then show ?thesis
    using assms by (simp add: secret_templates_def cfg_templates_cfg mget_def split: option.split)
qed

lemma secret_templates_env:
  "map_of (secret_templates ab) (env_key k) =
    (case mget (sp_SourcedEnvs (ab_Spec ab)) k of
       Some e \<Rightarrow> if se_ExternalSecret e \<noteq> [] then Some (''{{ .'' @ k @ '' }}'') else None
     | None \<Rightarrow> None)"
proof (cases "mget (sp_SourcedEnvs (ab_Spec ab)) k")
  case None
  with mget_None_iff [THEN iffD1, OF this] show ?thesis
    by (simp add: secret_templates_def cfg_templates_other env_templates_env del: set_getSortedKeys)
next
  case (Some e)
  with mget_Some_key [OF this] show ?thesis
    by (simp add: secret_templates_def cfg_templates_other env_templates_env mget_or_def
        del: set_getSortedKeys)
qed

lemma secretsToGet_env:
  assumes "mget (sp_SourcedEnvs (ab_Spec ab)) k = Some e" and "se_ExternalSecret e \<noteq> []"
    and "wf_map (entries (sp_SourcedEnvs (ab_Spec ab)))"
  shows "k \<in> set (getSortedKeys (Some (secretsToGet ab)))"
proof -
  have env: "k \<in> fst ` set (range_loop env_secret_body es m)"
    if "(k, e) \<in> set es \<or> k \<in> fst ` set m" for es m
    using that
  proof (induction es arbitrary: m)
    case Nil
    then show ?case by simp
  next
    case (Cons x es)
    obtain n e' where x: "x = (n, e')" by (cases x)
    have "(k, e) \<in> set es \<or> k \<in> fst ` set (env_secret_body n e' m)"
      using Cons.prems assms(2) by (auto simp: x env_secret_body_def set_keys_mput)
    then show ?case using Cons.IH by (simp add: x)
  qed
  have keep: "k \<in> fst ` set (range_loop mput ss m)" if "k \<in> fst ` set m" for ss and m :: strmap
    using that
  proof (induction ss arbitrary: m)
    case (Cons x ss)
    obtain n v where x: "x = (n, v)" by (cases x)
    have "k \<in> fst ` set (mput n v m)" using Cons.prems by (simp only: set_keys_mput insertI2)
    then show ?case using Cons.IH by (simp add: x)
  qed simp
  have cfg: "k \<in> fst ` set (range_loop cfg_secrets_body cs m)" if "k \<in> fst ` set m" for cs m
    using that
  proof (induction cs arbitrary: m)
    case (Cons x cs)
    obtain n c where x: "x = (n, c)" by (cases x)
    have "k \<in> fst ` set (cfg_secrets_body n c m)" using Cons.prems keep by (simp add: cfg_secrets_body_def)
    then show ?case using Cons.IH by (simp add: x)
  qed simp
  have "(k, e) \<in> set (entries (sp_SourcedEnvs (ab_Spec ab)))"
    using assms(1) by (simp add: mget_def map_of_SomeD)
  then show ?thesis by (simp add: secretsToGet_def cfg env)
qed

lemma CreateExpectedExternalSecret_Some:
  assumes "CreateExpectedExternalSecret ab = Inr (Some xs)"
  shows "xs_ObjectMeta xs = GetAppBundleObjectMetaWithOwnerReference ab"
    and "es_Data (xs_Spec xs) = secret_data (secretsToGet ab)"
    and "eg_Name (es_Target (xs_Spec xs)) = ab_Name ab"
    and "\<exists>t. eg_Template (es_Target (xs_Spec xs)) = Some t \<and> et_Data t = Some (secret_templates ab)"
  using assms by (auto simp: CreateExpectedExternalSecret_def Let_def split: if_splits option.splits)

subsection \<open>Safety of the reconciliation\<close>

definition secret_write :: "AppBundle \<Rightarrow> wreq \<Rightarrow> bool" where
  "secret_write ab q \<longleftrightarrow>
     kind_of (wobj q) = KExternalSecret \<and>
     (is_delete q \<or> owned_write ab KExternalSecret {ab_Name ab} q)"

lemma agrees_external_secret:
  assumes "agrees ab0 ab"
  shows "CreateExpectedExternalSecret ab = CreateExpectedExternalSecret ab0"
  unfolding CreateExpectedExternalSecret_def secretsToGet_def secret_templates_def agrees_simps [OF assms]
  by (rule refl)

lemma sat_ReconcileExternalSecret:
  "sat (frame ab0) (secret_write ab0) (\<lambda>_. True) (ReconcileExternalSecret E)"
proof -
  have own: "owned_write ab0 KExternalSecret {ab_Name ab0} q"
    if "CreateExpectedExternalSecret ab0 = Inr (Some xs)" "wobj q = ObjExternalSecret xs" for xs q
    using CreateExpectedExternalSecret_Some(1) [OF that(1)] that(2) by (simp add: owned_write_def)
  show ?thesis
    unfolding ReconcileExternalSecret_def with_reason_def
    by (intro sat_ReadBundle sat_mutexI external_secrets.sat_GetInto sat_intros sat_UpsertResource)
      (auto simp: agrees_external_secret secret_write_def intro: own)
qed

interpretation external_secret_reconciler: reconciler "ReconcileExternalSecret E" ab0 "secret_write ab0"
  for E ab0
  by unfold_locales (rule sat_ReconcileExternalSecret)

lemma secret_data_fetches:
  assumes "consistent_secrets (entries (sp_Configs (ab_Spec ab)))"
    and "(n, cfg) \<in> set (entries (sp_Configs (ab_Spec ab)))" and "(k, remote) \<in> set (entries (cfg_Secrets cfg))"
  shows "\<exists>d\<in>set (secret_data (secretsToGet ab)). ed_SecretKey d = k \<and> ed_RemoteKey d = remote"
proof -
  have "wf_map (entries (cfg_Secrets cfg))" using assms(1,2) by (auto simp: consistent_secrets_def)
  with assms(3) have "mget (cfg_Secrets cfg) k = Some remote" by (simp add: mget_def wf_map_def)
  then have s: "mget (Some (secretsToGet ab)) k = Some remote"
    unfolding secretsToGet_def mget_simps by (rule cfg_secrets_consistent [OF assms(1,2)])
  from mget_Some_key [OF s] s show ?thesis
    by (auto simp: secret_data_def mget_or_def simp del: set_getSortedKeys)
qed

subsection \<open>Properties\<close>


definition secret_bundle :: AppBundle where
  "secret_bundle = sample_bundle ''app'' ''devel''
     (zero_spec\<lparr>sp_Configs := Some [(''main'', zero_config\<lparr>cfg_Secrets := Some [(''token'', ''vault/token'')],
        cfg_Content := ''x''\<rparr>)], sp_SecretStoreRef := Some ''vault''\<rparr>)"

lemma secret_bundle_sel [simp]:
  "ab_Name secret_bundle = ''app''" "ab_Namespace secret_bundle = ''devel''"
  "sp_Configs (ab_Spec secret_bundle) =
     Some [(''main'', zero_config\<lparr>cfg_Secrets := Some [(''token'', ''vault/token'')], cfg_Content := ''x''\<rparr>)]"
  "sp_SecretStoreRef (ab_Spec secret_bundle) = Some ''vault''"
  "sp_SourcedEnvs (ab_Spec secret_bundle) = None"
  by (simp_all add: secret_bundle_def)

lemma secret_bundle_secrets [simp]: "secretsToGet secret_bundle = [(''token'', ''vault/token'')]"
  by (simp add: secretsToGet_def cfg_secrets_body_def mput_def)

lemma secret_bundle_expected: "\<exists>xs. CreateExpectedExternalSecret secret_bundle = Inr (Some xs)"
  by (simp add: CreateExpectedExternalSecret_def)


text \<open>The external secret depends on the iteration order of the configs only where two of them
  define the same secret key with different remote references: for consistent configs, any two
  orders of the configs and of the sourced variables give the same entries and the same templates.\<close>

lemma external_secret_order_independent:
  assumes "same_map (entries (sp_Configs (ab_Spec ab))) (entries (sp_Configs (ab_Spec ab')))"
    and "same_map (entries (sp_SourcedEnvs (ab_Spec ab))) (entries (sp_SourcedEnvs (ab_Spec ab')))"
    and "consistent_secrets (entries (sp_Configs (ab_Spec ab)))"
  shows "secret_data (secretsToGet ab) = secret_data (secretsToGet ab') \<and>
    same_map (secret_templates ab) (secret_templates ab')"
proof
  have sets: "set (entries (sp_Configs (ab_Spec ab))) = set (entries (sp_Configs (ab_Spec ab')))"
    using assms(1) unfolding same_map_def by (blast dest: mset_eq_setD)
  have eq: "map_of (secretsToGet ab) = map_of (secretsToGet ab')"
    unfolding secretsToGet_def
    by (rule cfg_secrets_order [OF assms(3) sets env_loop.order_independent [OF assms(2)]]) simp
  have "getSortedKeys (Some (secretsToGet ab)) = getSortedKeys (Some (secretsToGet ab'))"
    by (rule getSortedKeys_same) (simp add: same_map_iff wf_secretsToGet eq)
  then show "secret_data (secretsToGet ab) = secret_data (secretsToGet ab')"
    by (simp add: secret_data_def mget_or_def eq)
  have envs: "mget (sp_SourcedEnvs (ab_Spec ab)) = mget (sp_SourcedEnvs (ab_Spec ab'))"
    by (intro ext) (simp add: mget_def same_mapD [OF assms(2)])
  have "env_templates (sp_SourcedEnvs (ab_Spec ab)) keys m = env_templates (sp_SourcedEnvs (ab_Spec ab')) keys m" for keys m
    by (induction keys arbitrary: m) (simp_all add: mget_or_def envs)
  then have "map_of (secret_templates ab) = map_of (secret_templates ab')"
    unfolding secret_templates_def getSortedKeys_same [OF assms(2)]
    by (intro template_loop.order_independent [OF assms(1)]) simp
  then show "same_map (secret_templates ab) (secret_templates ab')"
    by (simp add: same_map_iff wf_secret_templates)
qed

text \<open>Two configs that define one secret key differently make the external secret depend on the
  order in which the runtime iterates over the configs: the same bundle asks for different
  remote secrets in two reconciliations.\<close>

lemma external_secret_order_dependent:
  "\<exists>ab ab'. same_map (entries (sp_Configs (ab_Spec ab))) (entries (sp_Configs (ab_Spec ab'))) \<and>
     sp_SourcedEnvs (ab_Spec ab) = sp_SourcedEnvs (ab_Spec ab') \<and>
     map ed_RemoteKey (secret_data (secretsToGet ab)) \<noteq> map ed_RemoteKey (secret_data (secretsToGet ab'))"
proof -
  let ?cfg = "\<lambda>v. zero_config\<lparr>cfg_Secrets := Some [(''token'', v)]\<rparr>"
  let ?mk = "\<lambda>cs. sample_bundle ''app'' ''devel'' (zero_spec\<lparr>sp_Configs := Some cs\<rparr>)"
  have one: "map ed_RemoteKey (secret_data (secretsToGet (?mk [(a, ?cfg v), (b, ?cfg v')]))) = [v']" for a b v v'
    by (simp add: secretsToGet_def cfg_secrets_body_def mput_def secret_data_def getSortedKeys_def
        mkeys_def mget_or_def)
  show ?thesis
    by (rule exI [of _ "?mk [(''a'', ?cfg ''vault/a''), (''b'', ?cfg ''vault/b'')]"],
        rule exI [of _ "?mk [(''b'', ?cfg ''vault/b''), (''a'', ?cfg ''vault/a'')]"])
      (simp add: one same_map_def wf_map_def)
qed

text \<open>C20. A transient failure to read the external secret deletes it. When \<open>Get\<close> fails with an
  error other than not found, the bundle needs an external secret and the blank one does not already
  match, the reconciliation deletes the external secret with the bundle's name and namespace, writes
  nothing else, and returns the error of the \<open>Get\<close>.\<close>

theorem external_secret_get_error_deletes:
  assumes "api_get A KExternalSecret (ab_Namespace (m_bundle m)) (ab_Name (m_bundle m)) w = (Inl e, w1)"
    and "\<not> IsNotFound (Some e)" and "diff_total E"
    and "CreateExpectedExternalSecret (m_bundle m) = Inr (Some xs)"
    and "\<not> ext_DeepDerivative E (AnyExternalSecretSpec (xs_Spec xs)) (AnyExternalSecretSpec zero_external_secret_spec)"
    and "api_write A (Delete (ObjExternalSecret (blank_secret (m_bundle m)))) w1 = (None, w2)"
  shows "writes A (ReconcileExternalSecret E) w m = [(Delete (ObjExternalSecret (blank_secret (m_bundle m))), None)] \<and>
    fst (run A (ReconcileExternalSecret E) w m) = Some e \<and>
    obj_Name (ObjExternalSecret (blank_secret (m_bundle m))) = ab_Name (m_bundle m) \<and>
    obj_Namespace (ObjExternalSecret (blank_secret (m_bundle m))) = ab_Namespace (m_bundle m)"
proof -
  obtain r where r: "FormulateDiffMessageForSpecs E (AnyExternalSecretSpec zero_external_secret_spec)
      (AnyExternalSecretSpec (xs_Spec xs)) = Inr r"
    using diff_total_messages(1) [OF assms(3)] by blast
  have up: "UpsertResource x r' (Some e) nd = Done (Some e)" for x r' nd
    using assms(2) by (simp add: upsert_get_error)
  show ?thesis
    using assms(2,5)
    by (simp add: ReconcileExternalSecret_def external_secrets.writes_GetInto_error [OF assms(1)]
        external_secrets.run_GetInto_error [OF assms(1)] assms(4,6) r up)
qed

theorem external_secret_get_error_deletes_witness:
  "let A = store_api\<lparr>api_get := (\<lambda>_ _ _ w. (Inl (ErrorString ''timeout''), w))\<rparr>;
       live = ObjExternalSecret (blank_secret secret_bundle)
   in snd (store_write (Delete live) [live]) = [] \<and>
      writes A (ReconcileExternalSecret sample_ext) [live] (sample_mem secret_bundle) = [(Delete live, None)]"
proof -
  let ?A = "store_api\<lparr>api_get := (\<lambda>_ _ _ w. (Inl (ErrorString ''timeout''), w))\<rparr>"
  let ?live = "ObjExternalSecret (blank_secret secret_bundle)"
  obtain xs where xs: "CreateExpectedExternalSecret secret_bundle = Inr (Some xs)"
    using secret_bundle_expected by blast
  have "es_Data (xs_Spec xs) \<noteq> es_Data zero_external_secret_spec"
    using CreateExpectedExternalSecret_Some(2) [OF xs]
    by (simp add: secret_data_def getSortedKeys_def mkeys_def zero_external_secret_spec_def)
  then have ne: "xs_Spec xs \<noteq> zero_external_secret_spec" by auto
  have gone: "store_write (Delete ?live) [?live] = (None, [])"
    by (simp add: same_as_def same_object_def)
  have "writes ?A (ReconcileExternalSecret sample_ext) [?live] (sample_mem secret_bundle) = [(Delete ?live, None)]"
    by (rule external_secret_get_error_deletes [where m = "sample_mem secret_bundle" and ?w2.0 = "[]"
          and ?w1.0 = "[?live]" and e = "ErrorString ''timeout''", unfolded sample_mem_sel, THEN conjunct1])
      (use xs ne in \<open>simp_all add: diff_total_def gone del: store_write.simps\<close>)
  with gone show ?thesis by (simp add: Let_def)
qed

text \<open>C21. A change of the external secret removes it. When the secret exists and differs, the
  deletion succeeds, and the server then refuses to update the deleted object, the reconciliation
  ends with that error: it has deleted the secret and created none.\<close>

theorem external_secret_change_removes:
  assumes "api_get A KExternalSecret (ab_Namespace (m_bundle m)) (ab_Name (m_bundle m)) w = (Inr (ObjExternalSecret cur), w1)"
    and "diff_total E"
    and "CreateExpectedExternalSecret (m_bundle m) = Inr (Some xs)"
    and "\<not> ext_DeepDerivative E (AnyExternalSecretSpec (xs_Spec xs)) (AnyExternalSecretSpec (xs_Spec cur))"
    and "api_write A (Delete (ObjExternalSecret cur)) w1 = (None, w2)"
    and "api_write A (Update (ObjExternalSecret xs)) w2 = (Some e, w3)" and "\<not> ShouldRecreateResource e"
  shows "writes A (ReconcileExternalSecret E) w m =
      [(Delete (ObjExternalSecret cur), None), (Update (ObjExternalSecret xs), Some e)] \<and>
    fst (run A (ReconcileExternalSecret E) w m) = Some e"
proof -
  obtain r where r: "FormulateDiffMessageForSpecs E (AnyExternalSecretSpec (xs_Spec cur))
      (AnyExternalSecretSpec (xs_Spec xs)) = Inr r"
    using diff_total_messages(1) [OF assms(2)] by blast
  note refused = run_upsert_update_refused [OF assms(6) disjI2 [OF assms(7)]]
  show ?thesis
    by (simp add: ReconcileExternalSecret_def external_secrets.writes_GetInto_found [OF assms(1)]
        external_secrets.run_GetInto_found [OF assms(1)] assms(3,4,5) r refused)
qed

theorem external_secret_change_removes_witness:
  "let cur = ObjExternalSecret (blank_secret secret_bundle)
   in \<exists>q. writes store_api (ReconcileExternalSecret sample_ext) [cur] (sample_mem secret_bundle) =
          [(Delete cur, None), (Update q, Some not_found)] \<and>
        snd (store_write (Delete cur) [cur]) = []"
proof -
  let ?cur = "blank_secret secret_bundle"
  obtain xs where xs: "CreateExpectedExternalSecret secret_bundle = Inr (Some xs)"
    using secret_bundle_expected by blast
  have "es_Data (xs_Spec xs) \<noteq> es_Data zero_external_secret_spec"
    using CreateExpectedExternalSecret_Some(2) [OF xs]
    by (simp add: secret_data_def getSortedKeys_def mkeys_def zero_external_secret_spec_def)
  then have ne: "xs_Spec xs \<noteq> zero_external_secret_spec" by auto
  have gone: "store_write (Delete (ObjExternalSecret ?cur)) [ObjExternalSecret ?cur] = (None, [])"
    by (simp add: same_as_def same_object_def)
  have keep: "\<not> ShouldRecreateResource not_found"
    by (auto simp: ShouldRecreateResource_def not_found_def dest: sublist_length_le)
  have "writes store_api (ReconcileExternalSecret sample_ext) [ObjExternalSecret ?cur] (sample_mem secret_bundle) =
      [(Delete (ObjExternalSecret ?cur), None), (Update (ObjExternalSecret xs), Some not_found)]"
    by (rule external_secret_change_removes [where m = "sample_mem secret_bundle" and ?w2.0 = "[]"
          and ?w1.0 = "[ObjExternalSecret ?cur]", THEN conjunct1])
      (use xs ne keep in \<open>simp_all add: diff_total_def same_object_def gone del: store_write.simps(3)\<close>)
  with gone show ?thesis by (simp add: Let_def)
qed

end
