(* ===== verification/VolumesReconcile.thy ===== *)
theory VolumesReconcile
  imports SecretsReconcile
begin

section \<open>volumes.go and longhorn_backups_plugin.go\<close>

text \<open>
  \<open>internal/controller/volumes.go\<close>: the persistent volume claims of a bundle, those it owns and
  those it only labels, and \<open>internal/controller/longhorn_backups_plugin.go\<close>: the recurring Longhorn job
  that backs them up. Claims are upserted with \<open>neverDelete\<close>. A nil \<open>Size\<close>, \<open>Frequency\<close> or
  \<open>Retain\<close> is a nil dereference, and a size that does not parse makes \<open>resource.MustParse\<close>
  panic.
\<close>

subsection \<open>Labels and the expected claim\<close>

definition zero_volume :: AppBundleVolume where
  "zero_volume = \<lparr>av_HostPath = None, av_EmptyDir = None, av_Path = None, av_Size = None,
     av_StorageClass = None, av_ExistingClaim = None, av_Backup = None\<rparr>"

definition volume_at :: "AppBundle \<Rightarrow> string \<Rightarrow> AppBundleVolume" where
  "volume_at ab key = mget_or zero_volume (sp_Volumes (ab_Spec ab)) key"

definition reccuringJobName :: "AppBundle \<Rightarrow> string" where
  "reccuringJobName ab = ab_Name ab @ ''-'' @ ab_Namespace ab"

definition jobSpecificKey :: "AppBundle \<Rightarrow> string" where
  "jobSpecificKey ab = ''recurring-job.longhorn.io/'' @ reccuringJobName ab"

definition jobGenericKey :: string where
  "jobGenericKey = ''recurring-job.longhorn.io/source''"

definition defaultGroupKey :: string where
  "defaultGroupKey = ''recurring-job-group.longhorn.io/default''"

definition shouldBackup :: "AppBundle \<Rightarrow> AppBundleVolume \<Rightarrow> bool" where
  "shouldBackup ab volume \<longleftrightarrow>
     sp_Backup (ab_Spec ab) \<noteq> None \<and> \<not> (av_Backup volume \<noteq> None \<and> av_Backup volume = Some False)"

definition GetPVCLabels :: "AppBundle \<Rightarrow> AppBundleVolume \<Rightarrow> strmap" where
  "GetPVCLabels ab volume =
     (let labels = SetDefaultAppBundleLabels ab None in
      if shouldBackup ab volume
      then mput defaultGroupKey ''enabled''
        (mput jobGenericKey ''enabled'' (mput (jobSpecificKey ab) ''enabled'' labels))
      else labels)"

definition must_parse :: "ext \<Rightarrow> string \<Rightarrow> goerr + Quantity" where
  "must_parse E s = (case ext_ParseQuantity E s of
     None \<Rightarrow> Inl (GoPanic ''cannot parse quantity'') | Some q \<Rightarrow> Inr q)"

definition CreateExpectedPVC :: "ext \<Rightarrow> AppBundle \<Rightarrow> AppBundleVolume \<Rightarrow> string \<Rightarrow> goerr + PersistentVolumeClaim"
where
  "CreateExpectedPVC E ab volume volumeName =
     rbind (deref (av_Size volume)) (\<lambda>size. rbind (must_parse E size) (\<lambda>quantity. Inr
       \<lparr>pvc_ObjectMeta = zero_meta\<lparr>om_Name := volumeName, om_Namespace := ab_Namespace ab,
          om_OwnerReferences := [ab_OwnerReference ab],
          om_Labels := Some (GetPVCLabels ab volume)\<rparr>,
        pvc_Spec = zero_pvc_spec\<lparr>vc_AccessModes := [ReadWriteOnce],
          vc_StorageClassName := av_StorageClass volume,
          vc_Requests := Some [(ResourceStorage, quantity)]\<rparr>,
        pvc_Phase = []\<rparr>))"

definition blank_pvc :: "string \<Rightarrow> string \<Rightarrow> PersistentVolumeClaim" where
  "blank_pvc name namespace = \<lparr>pvc_ObjectMeta = zero_meta\<lparr>om_Name := name, om_Namespace := namespace\<rparr>,
     pvc_Spec = zero_pvc_spec, pvc_Phase = []\<rparr>"

definition set_labels :: "strmap \<Rightarrow> PersistentVolumeClaim \<Rightarrow> PersistentVolumeClaim" where
  "set_labels labels pvc = pvc\<lparr>pvc_ObjectMeta := (pvc_ObjectMeta pvc)\<lparr>om_Labels := Some labels\<rparr>\<rparr>"

subsection \<open>Reconciling the claims\<close>

definition ReconcileExistingPVC :: "ext \<Rightarrow> AppBundle \<Rightarrow> AppBundleVolume \<Rightarrow> goerr option mprog" where
  "ReconcileExistingPVC E ab volume = (case deref (av_ExistingClaim volume) of
     Inl err \<Rightarrow> Done (Some err)
   | Inr claim \<Rightarrow> GetInto KPVC proj_PVC (ab_Namespace ab) claim (blank_pvc claim (ab_Namespace ab))
      (\<lambda>currentPVC er.
        let currentLabels = om_Labels (pvc_ObjectMeta currentPVC);
            expectedLabels = range_loop mput (entries currentLabels) (GetPVCLabels ab volume)
        in if \<not> StringMapsMatch currentLabels (Some expectedLabels)
           then with_reason
             (FormulateDiffMessageForSpecs E (AnyStringMap currentLabels) (AnyStringMap (Some expectedLabels)))
             (\<lambda>reason. UpsertResource (ObjPVC (set_labels expectedLabels currentPVC)) reason er True)
           else Done None))"

definition ReconcilePVC :: "ext \<Rightarrow> AppBundle \<Rightarrow> AppBundleVolume \<Rightarrow> string \<Rightarrow> goerr option mprog" where
  "ReconcilePVC E ab volume volumeName =
     GetInto KPVC proj_PVC (ab_Namespace ab) volumeName (blank_pvc volumeName (ab_Namespace ab))
      (\<lambda>currentPVC er. case CreateExpectedPVC E ab volume volumeName of
          Inl err \<Rightarrow> Done (Some err)
        | Inr expectedPVC \<Rightarrow>
            if \<not> ext_DeepDerivative E (AnyPVCSpec (pvc_Spec expectedPVC)) (AnyPVCSpec (pvc_Spec currentPVC))
            then with_reason
              (FormulateDiffMessageForSpecs E (AnyPVCSpec (pvc_Spec currentPVC)) (AnyPVCSpec (pvc_Spec expectedPVC)))
              (\<lambda>reason. with_reason
                (if reason = []
                 then rbind (GetDiffPaths E (AnyStringMap (om_Labels (pvc_ObjectMeta currentPVC)))
                        (AnyStringMap (om_Labels (pvc_ObjectMeta expectedPVC))))
                      (\<lambda>labelReason. Inr (''labels changed: '' @ labelReason))
                 else Inr reason)
                (\<lambda>reason'. UpsertResource (ObjPVC expectedPVC) reason' er True))
            else if \<not> StringMapsMatch (om_Labels (pvc_ObjectMeta expectedPVC)) (om_Labels (pvc_ObjectMeta currentPVC))
            then with_reason
              (FormulateDiffMessageForSpecs E (AnyStringMap (om_Labels (pvc_ObjectMeta currentPVC)))
                 (AnyStringMap (om_Labels (pvc_ObjectMeta expectedPVC))))
              (\<lambda>reason. UpsertResource
                (ObjPVC (set_labels (entries (om_Labels (pvc_ObjectMeta expectedPVC))) currentPVC)) reason er True)
            else Done None)"

subsection \<open>The backup job\<close>

definition longhorn_ns :: string where
  "longhorn_ns = ''longhorn-system''"

fun backup_owner :: "AppBundle \<Rightarrow> string list \<Rightarrow> RecurringJob \<Rightarrow>
    (goerr + RecurringJob \<Rightarrow> 'a mprog) \<Rightarrow> 'a mprog" where
  "backup_owner ab [] recurringJob c = c (Inr recurringJob)"
| "backup_owner ab (key # keys) recurringJob c =
     (let abVol = volume_at ab key in
      if av_HostPath abVol \<noteq> None then backup_owner ab keys recurringJob c
      else if av_EmptyDir abVol \<noteq> None then backup_owner ab keys recurringJob c
      else let volName = (case av_ExistingClaim abVol of None \<Rightarrow> ab_Name ab @ ''-'' @ key | Some claim \<Rightarrow> claim)
        in GetInto KPVC proj_PVC (ab_Namespace ab) volName (blank_pvc volName (ab_Namespace ab)) (\<lambda>pvc er.
          case er of
            Some err \<Rightarrow> c (Inl err)
          | None \<Rightarrow>
              if pvc_Phase pvc = ClaimBound
              then GetInto KLonghornVolume proj_LonghornVolume longhorn_ns (vc_VolumeName (pvc_Spec pvc))
                \<lparr>lv_ObjectMeta = zero_meta\<lparr>om_Name := vc_VolumeName (pvc_Spec pvc), om_Namespace := longhorn_ns\<rparr>,
                 lv_Rest = no_rest\<rparr>
                (\<lambda>vol er'. case er' of
                    Some err \<Rightarrow> c (Inl err)
                  | None \<Rightarrow> c (Inr (recurringJob\<lparr>job_ObjectMeta := (job_ObjectMeta recurringJob)
                      \<lparr>om_OwnerReferences := [\<lparr>or_APIVersion = ''longhorn.io/v1beta2'', or_Kind = ''Volume'',
                         or_Name = om_Name (lv_ObjectMeta vol), or_UID = om_UID (lv_ObjectMeta vol)\<rparr>]\<rparr>\<rparr>)))
              else backup_owner ab keys recurringJob c))"

definition backup_job_spec :: "AppBundle \<Rightarrow> AppBundleVolumeLonghornBackup \<Rightarrow> goerr + RecurringJobSpec" where
  "backup_job_spec ab backup =
     rbind (deref (lb_Frequency backup)) (\<lambda>cron. rbind (deref (lb_Retain backup)) (\<lambda>retain. Inr
       \<lparr>rj_Name = reccuringJobName ab, rj_Groups = [], rj_Task = RecurringJobTypeBackup, rj_Cron = cron,
        rj_Retain = retain, rj_Concurrency = 1, rj_Labels = Some (SetDefaultAppBundleLabels ab None),
        rj_Rest = no_rest\<rparr>))"

definition with_result :: "goerr + 'x \<Rightarrow> ('x \<Rightarrow> goerr option mprog) \<Rightarrow> goerr option mprog" where
  "with_result r c = (case r of Inl err \<Rightarrow> Done (Some err) | Inr x \<Rightarrow> c x)"

definition ReconcileRecurringBackupJob :: "ext \<Rightarrow> AppBundle \<Rightarrow> goerr option mprog" where
  "ReconcileRecurringBackupJob E ab = (case sp_Backup (ab_Spec ab) of
     None \<Rightarrow> Done None
   | Some backup \<Rightarrow>
      if sp_Volumes (ab_Spec ab) = None \<or> entries (sp_Volumes (ab_Spec ab)) = [] then Done None
      else GetInto KRecurringJob proj_RecurringJob longhorn_ns (reccuringJobName ab)
        \<lparr>job_ObjectMeta = zero_meta\<lparr>om_Name := reccuringJobName ab, om_Namespace := longhorn_ns\<rparr>,
         job_Spec = zero_recurring_job_spec\<rparr>
        (\<lambda>recurringJob er.
          if er \<noteq> None \<and> \<not> IsNotFound er then Done er
          else with_result (ext_HashRecurringJobSpec E (job_Spec recurringJob)) (\<lambda>rjBeforeHash.
            with_result (backup_job_spec ab backup) (\<lambda>spec.
            backup_owner ab (getSortedKeys (sp_Volumes (ab_Spec ab))) (recurringJob\<lparr>job_Spec := spec\<rparr>)
              (\<lambda>r. with_result r (\<lambda>job.
                with_result (ext_HashRecurringJobSpec E (job_Spec job)) (\<lambda>rjAfterHash.
                  if rjBeforeHash = rjAfterHash then Done None
                  else UpsertResource (ObjRecurringJob job) [] er False)))))))"

subsection \<open>ReconcileVolumes\<close>

definition reconcile_volume :: "ext \<Rightarrow> AppBundle \<Rightarrow> string \<Rightarrow> goerr option mprog" where
  "reconcile_volume E ab key =
     (let volume = volume_at ab key; volumeName = ab_Name ab @ ''-'' @ key in
      if av_ExistingClaim volume \<noteq> None then ReconcileExistingPVC E ab volume
      else if av_HostPath volume \<noteq> None then Done None
      else if av_EmptyDir volume \<noteq> None \<and> av_EmptyDir volume = Some True then Done None
      else ReconcilePVC E ab volume volumeName)"

definition ReconcileVolumes :: "ext \<Rightarrow> goerr option mprog" where
  "ReconcileVolumes E = ReadBundle (\<lambda>ab.
     with_mutex (mutex_key ''volume'' (ab_Name ab) (ab_Namespace ab))
       (if sp_Volumes (ab_Spec ab) = None then Done None
        else thenP (forP (getSortedKeys (sp_Volumes (ab_Spec ab))) (reconcile_volume E ab))
          (if sp_Backup (ab_Spec ab) \<noteq> None then ReconcileRecurringBackupJob E ab else Done None)))"

subsection \<open>Safety of the reconciliation\<close>

definition claim_name :: "AppBundle \<Rightarrow> string \<Rightarrow> string" where
  "claim_name ab key = (case av_ExistingClaim (volume_at ab key) of
     None \<Rightarrow> ab_Name ab @ ''-'' @ key | Some claim \<Rightarrow> claim)"

text \<open>
  The writes of a volume reconciliation: a claim is never deleted, and is created only under
  the name of a volume of the bundle, in its namespace; the other writes concern recurring jobs.
\<close>

fun created_claim :: "AppBundle \<Rightarrow> wreq \<Rightarrow> bool" where
  "created_claim ab (Create x) \<longleftrightarrow> obj_Namespace x = ab_Namespace ab \<and>
     obj_Name x \<in> claim_name ab ` set (getSortedKeys (sp_Volumes (ab_Spec ab)))"
| "created_claim ab _ \<longleftrightarrow> True"

definition volume_write :: "AppBundle \<Rightarrow> wreq \<Rightarrow> bool" where
  "volume_write ab q \<longleftrightarrow>
     (if kind_of (wobj q) = KPVC then \<not> is_delete q \<and> created_claim ab q
      else kind_of (wobj q) = KRecurringJob)"

lemma set_labels_sel [simp]:
  "om_Name (pvc_ObjectMeta (set_labels l pvc)) = om_Name (pvc_ObjectMeta pvc)"
  "om_Namespace (pvc_ObjectMeta (set_labels l pvc)) = om_Namespace (pvc_ObjectMeta pvc)"
  "om_Labels (pvc_ObjectMeta (set_labels l pvc)) = Some l"
  "om_OwnerReferences (pvc_ObjectMeta (set_labels l pvc)) = om_OwnerReferences (pvc_ObjectMeta pvc)"
  "pvc_Spec (set_labels l pvc) = pvc_Spec pvc"
  by (simp_all add: set_labels_def)

lemma blank_pvc_sel [simp]:
  "om_Name (pvc_ObjectMeta (blank_pvc n ns)) = n" "om_Namespace (pvc_ObjectMeta (blank_pvc n ns)) = ns"
  "om_Labels (pvc_ObjectMeta (blank_pvc n ns)) = None" "pvc_Spec (blank_pvc n ns) = zero_pvc_spec"
  "om_OwnerReferences (pvc_ObjectMeta (blank_pvc n ns)) = []"
  by (simp_all add: blank_pvc_def)

lemma CreateExpectedPVC_Inr:
  assumes "CreateExpectedPVC E ab volume name = Inr pvc"
  shows "om_Name (pvc_ObjectMeta pvc) = name" and "om_Namespace (pvc_ObjectMeta pvc) = ab_Namespace ab"
    and "om_Labels (pvc_ObjectMeta pvc) = Some (GetPVCLabels ab volume)"
    and "om_OwnerReferences (pvc_ObjectMeta pvc) = [ab_OwnerReference ab]"
  using assms by (auto simp: CreateExpectedPVC_def rbind_Inr_iff)

text \<open>An upsert that never deletes sends a creation after a \<open>Get\<close> that found nothing, and an update
  after one that found the object.\<close>

lemma sat_upsert_claim:
  assumes "IsNotFound er \<Longrightarrow> created_claim ab (Create (ObjPVC pvc))"
  shows "sat I (volume_write ab) (\<lambda>_. True) (UpsertResource (ObjPVC pvc) reason er True)"
  by (rule sat_UpsertResource) (use assms in \<open>simp_all add: volume_write_def\<close>)

lemma created_claimI:
  assumes "agrees ab0 ab" and "key \<in> set (getSortedKeys (sp_Volumes (ab_Spec ab)))"
    and "obj_Namespace x = ab_Namespace ab" and "obj_Name x = claim_name ab key"
  shows "created_claim ab0 (Create x)"
proof -
  have "claim_name ab = claim_name ab0"
    unfolding claim_name_def volume_at_def agrees_simps [OF assms(1)] by (rule refl)
  then show ?thesis
    using assms(2-4) by (auto simp: agrees_simps [OF assms(1)] simp del: set_getSortedKeys)
qed

text \<open>\<open>GetInto\<close> keeps the initial object exactly when it reports an error.\<close>

lemma sat_GetInto_init:
  assumes "\<And>cur. sat I P Q (c cur None)" and "\<And>e. sat I P Q (c init (Some e))"
  shows "sat I P Q (GetInto kd proj ns n init c)"
  using assms by (auto simp: GetInto_def split: sum.split option.split)

lemma sat_ReconcileExistingPVC:
  assumes "agrees ab0 ab" and "key \<in> set (getSortedKeys (sp_Volumes (ab_Spec ab)))"
  shows "sat (frame ab0) (volume_write ab0) (\<lambda>_. True) (ReconcileExistingPVC E ab (volume_at ab key))"
proof (cases "av_ExistingClaim (volume_at ab key)")
  case None
  then show ?thesis by (simp add: ReconcileExistingPVC_def)
next
  case (Some claim)
  have blank: "created_claim ab0 (Create (ObjPVC (set_labels l (blank_pvc claim (ab_Namespace ab)))))" for l
    by (rule created_claimI [OF assms]) (simp_all add: claim_name_def Some)
  show ?thesis
    unfolding ReconcileExistingPVC_def with_reason_def Some deref_simps sum.case Let_def
    by (intro sat_GetInto_init sat_intros sat_upsert_claim)
      (simp_all add: blank del: created_claim.simps(1))
qed

lemma sat_ReconcilePVC:
  assumes "agrees ab0 ab" and "key \<in> set (getSortedKeys (sp_Volumes (ab_Spec ab)))"
    and "claim_name ab key = name"
  shows "sat (frame ab0) (volume_write ab0) (\<lambda>_. True) (ReconcilePVC E ab (volume_at ab key) name)"
proof -
  have blank: "created_claim ab0 (Create (ObjPVC (set_labels l (blank_pvc name (ab_Namespace ab)))))" for l
    by (rule created_claimI [OF assms(1,2)]) (simp_all add: assms(3))
  have exp: "created_claim ab0 (Create (ObjPVC pvc))"
    if "CreateExpectedPVC E ab (volume_at ab key) name = Inr pvc" for pvc
    by (rule created_claimI [OF assms(1,2)]) (use CreateExpectedPVC_Inr [OF that] in \<open>simp_all add: assms(3)\<close>)
  show ?thesis
    unfolding ReconcilePVC_def with_reason_def
    by (intro sat_GetInto_init sat_intros sat_upsert_claim) (simp_all add: blank exp del: created_claim.simps(1))
qed

lemma sat_backup_owner:
  assumes "\<And>r. sat I P Q (c r)"
  shows "sat I P Q (backup_owner ab keys job c)"
proof (induction keys)
  case Nil
  then show ?case by (simp add: assms)
next
  case (Cons key keys)
  show ?case
    unfolding backup_owner.simps(2) Let_def
    by (intro sat_if pvcs.sat_GetInto sat_case_option longhorn_volumes.sat_GetInto Cons.IH assms)
qed

lemma sat_ReconcileRecurringBackupJob:
  "sat I (volume_write ab0) (\<lambda>_. True) (ReconcileRecurringBackupJob E ab)"
  unfolding ReconcileRecurringBackupJob_def with_result_def
  by (intro recurring_jobs.sat_GetInto sat_intros sat_backup_owner sat_UpsertResource)
    (simp_all add: volume_write_def)

lemma sat_ReconcileVolumes: "sat (frame ab0) (volume_write ab0) (\<lambda>_. True) (ReconcileVolumes E)"
proof -
  have vol: "sat (frame ab0) (volume_write ab0) (\<lambda>_. True) (reconcile_volume E ab key)"
    if "agrees ab0 ab" "key \<in> set (getSortedKeys (sp_Volumes (ab_Spec ab)))" for ab key
    unfolding reconcile_volume_def Let_def
    by (intro sat_if sat_Done sat_ReconcileExistingPVC sat_ReconcilePVC that) (simp_all add: claim_name_def)
  show ?thesis
    unfolding ReconcileVolumes_def
    by (intro sat_ReadBundle sat_mutexI sat_if sat_Done sat_thenP [where Q = "\<lambda>_. True"] sat_forP vol
        sat_ReconcileRecurringBackupJob) simp_all
qed

interpretation volume_reconciler: reconciler "ReconcileVolumes E" ab0 "volume_write ab0"
  for E ab0
  by unfold_locales (rule sat_ReconcileVolumes)

subsection \<open>Properties\<close>

lemma wf_GetPVCLabels [simp]: "wf_map (GetPVCLabels ab volume)"
  by (simp add: GetPVCLabels_def Let_def wf_default_labels)

lemma PVCLabels_selector: "map_of (GetPVCLabels ab volume) AppBundleSelector = Some (ab_Name ab)"
proof -
  have "AppBundleSelector \<noteq> jobSpecificKey ab" "AppBundleSelector \<noteq> jobGenericKey"
    "AppBundleSelector \<noteq> defaultGroupKey"
    by (simp_all add: jobSpecificKey_def jobGenericKey_def defaultGroupKey_def)
  then show ?thesis by (simp add: GetPVCLabels_def Let_def)
qed

lemma run_upsert_never_delete:
  "writes A (UpsertResource obj reason None True) w s = [(Update obj, fst (api_write A (Update obj) w))]"
  "fst (run A (UpsertResource obj reason None True) w s) = fst (api_write A (Update obj) w)"
  by (auto simp: UpsertResource_def split: prod.split option.split)

text \<open>C24. Every write of a volume reconciliation, for any client, concerns a persistent volume claim
  or a recurring job. A claim is never deleted, and a claim is created only in the namespace of
  the bundle and under the name of one of its volumes: the existing claim, or the name of the
  bundle joined with the key of the volume.\<close>

theorem volumes_never_delete_claims:
  assumes "(q, r) \<in> set (writes A (ReconcileVolumes E) w m)"
  shows "if kind_of (wobj q) = KPVC
    then \<not> is_delete q \<and> (\<exists>p. q = Update p \<or> q = StatusUpdate p \<or> (q = Create p \<and> obj_Namespace p = ab_Namespace (m_bundle m) \<and>
      (\<exists>key\<in>set (getSortedKeys (sp_Volumes (ab_Spec (m_bundle m)))). obj_Name p = claim_name (m_bundle m) key)))
    else kind_of (wobj q) = KRecurringJob"
proof -
  have "volume_write (m_bundle m) q"
    by (rule volume_reconciler.writes_allowed [OF agrees_refl assms])
  then show ?thesis
    by (cases q) (auto simp: volume_write_def split: if_splits)
qed

definition claiming_bundle :: AppBundle where
  "claiming_bundle = sample_bundle ''app'' ''devel''
     (zero_spec\<lparr>sp_Volumes := Some [(''data'', zero_volume\<lparr>av_ExistingClaim := Some ''shared''\<rparr>)]\<rparr>)"

theorem volumes_never_delete_claims_witness:
  "\<exists>pvc. (Create (ObjPVC pvc), None) \<in> set (writes store_api (ReconcileVolumes sample_ext) [] (sample_mem claiming_bundle)) \<and>
     om_Namespace (pvc_ObjectMeta pvc) = ''devel''"
proof -
  let ?v = "zero_volume\<lparr>av_ExistingClaim := Some ''shared''\<rparr>"
  have b: "sp_Volumes (ab_Spec claiming_bundle) = Some [(''data'', ?v)]" "volume_at claiming_bundle ''data'' = ?v"
    "getSortedKeys (Some [(''data'', ?v)]) = [''data'']" "ab_Namespace claiming_bundle = ''devel''"
    "sp_Backup (ab_Spec claiming_bundle) = None"
    by (simp_all add: claiming_bundle_def volume_at_def mget_or_def getSortedKeys_def mkeys_def)
  have "GetPVCLabels claiming_bundle ?v \<noteq> []"
    using PVCLabels_selector [of claiming_bundle ?v] by (cases "GetPVCLabels claiming_bundle ?v") simp_all
  then have differ: "\<not> StringMapsMatch None (Some (GetPVCLabels claiming_bundle ?v))"
    by (simp add: StringMapsMatch_def)
  then have "\<exists>pvc. (Create (ObjPVC pvc), None) \<in> set (writes store_api (ReconcileVolumes sample_ext) [] (sample_mem claiming_bundle))"
    by (simp add: ReconcileVolumes_def b reconcile_volume_def ReconcileExistingPVC_def pvcs.writes_GetInto_error
        writes_upsert_create writes_thenP)
  then obtain pvc where w: "(Create (ObjPVC pvc), None) \<in> set (writes store_api (ReconcileVolumes sample_ext) [] (sample_mem claiming_bundle))"
    by blast
  from volumes_never_delete_claims [OF w] w show ?thesis by (auto simp: b)
qed

text \<open>C25. Labelling an existing claim. When the claim is found, a label it already has is never
  changed: if it has a value, right or wrong, for every label the operator wants, nothing is
  written; otherwise one update is sent, of the claim itself with its own labels plus the missing ones.\<close>

theorem existing_claim_labels:
  assumes "av_ExistingClaim volume = Some claim"
    and "api_get A KPVC (ab_Namespace ab) claim w = (Inr (ObjPVC cur), w1)"
    and "wf_map (entries (om_Labels (pvc_ObjectMeta cur)))" and "diff_total E"
  shows "if \<forall>k v. map_of (GetPVCLabels ab volume) k = Some v \<longrightarrow> mget (om_Labels (pvc_ObjectMeta cur)) k \<noteq> None
    then writes A (ReconcileExistingPVC E ab volume) w m = []
    else \<exists>labels. writes A (ReconcileExistingPVC E ab volume) w m =
        [(Update (ObjPVC (set_labels labels cur)), fst (api_write A (Update (ObjPVC (set_labels labels cur))) w1))] \<and>
      (\<forall>k. map_of labels k = (case mget (om_Labels (pvc_ObjectMeta cur)) k of
           Some v \<Rightarrow> Some v | None \<Rightarrow> map_of (GetPVCLabels ab volume) k))"
proof -
  let ?cur = "om_Labels (pvc_ObjectMeta cur)"
  let ?merged = "range_loop mput (entries ?cur) (GetPVCLabels ab volume)"
  have look: "map_of ?merged k = (case mget ?cur k of Some v \<Rightarrow> Some v | None \<Rightarrow> map_of (GetPVCLabels ab volume) k)" for k
    using assms(3) by (simp add: copy_loop_lookup mget_def map_add_def)
  have wf: "wf_map ?merged" by (simp add: wf_copy_loop)
  have match: "StringMapsMatch ?cur (Some ?merged) \<longleftrightarrow>
      (\<forall>k v. map_of (GetPVCLabels ab volume) k = Some v \<longrightarrow> mget ?cur k \<noteq> None)"
  proof -
    have "StringMapsMatch ?cur (Some ?merged) \<longleftrightarrow> (\<forall>k. mget ?cur k = map_of ?merged k)"
      using assms(3) wf by (simp add: StringMapsMatch_iff)
    also have "\<dots> \<longleftrightarrow> (\<forall>k. mget ?cur k = None \<longrightarrow> map_of (GetPVCLabels ab volume) k = None)"
      unfolding look by (auto split: option.splits)
    also have "\<dots> \<longleftrightarrow> (\<forall>k v. map_of (GetPVCLabels ab volume) k = Some v \<longrightarrow> mget ?cur k \<noteq> None)"
      by (metis option.exhaust option.distinct(1))
    finally show ?thesis .
  qed
  obtain reason where reason: "FormulateDiffMessageForSpecs E (AnyStringMap ?cur) (AnyStringMap (Some ?merged)) = Inr reason"
    using diff_total_messages(1) [OF assms(4)] by blast
  show ?thesis
    unfolding match [symmetric]
    using look
    by (auto simp: ReconcileExistingPVC_def assms(1) pvcs.writes_GetInto_found [OF assms(2)] Let_def reason
        run_upsert_never_delete intro!: exI [of _ ?merged])
qed

theorem existing_claim_labels_witness:
  "let cur = set_labels [(AppBundleSelector, ''other'')] (blank_pvc ''data'' ''devel'');
       ab = sample_bundle ''app'' ''devel'' zero_spec
   in \<exists>labels. writes store_api (ReconcileExistingPVC sample_ext ab (zero_volume\<lparr>av_ExistingClaim := Some ''data''\<rparr>))
        [ObjPVC cur] (sample_mem ab) = [(Update (ObjPVC (set_labels labels cur)), None)] \<and>
      map_of labels AppBundleSelector = Some ''other''"
proof -
  let ?cur = "set_labels [(AppBundleSelector, ''other'')] (blank_pvc ''data'' ''devel'')"
  let ?ab = "sample_bundle ''app'' ''devel'' zero_spec"
  let ?v = "zero_volume\<lparr>av_ExistingClaim := Some ''data''\<rparr>"
  have miss: "map_of (GetPVCLabels ?ab ?v) ''app.kubernetes.io/name'' = Some ''app''"
    by (simp add: GetPVCLabels_def Let_def shouldBackup_def default_labels_own own_labels_def)
  have ne: "\<not> (\<forall>k v. map_of (GetPVCLabels ?ab ?v) k = Some v \<longrightarrow> mget (om_Labels (pvc_ObjectMeta ?cur)) k \<noteq> None)"
  proof
    assume "\<forall>k v. map_of (GetPVCLabels ?ab ?v) k = Some v \<longrightarrow> mget (om_Labels (pvc_ObjectMeta ?cur)) k \<noteq> None"
    with miss have "mget (om_Labels (pvc_ObjectMeta ?cur)) ''app.kubernetes.io/name'' \<noteq> None" by blast
    then show False by simp
  qed
  have up: "store_write (Update (ObjPVC (set_labels l ?cur))) [ObjPVC ?cur] = (None, [ObjPVC (set_labels l ?cur)])" for l
    by (simp add: same_as_def same_object_def)
  have hyps: "av_ExistingClaim ?v = Some ''data''"
    "api_get store_api KPVC (ab_Namespace ?ab) ''data'' [ObjPVC ?cur] = (Inr (ObjPVC ?cur), [ObjPVC ?cur])"
    "wf_map (entries (om_Labels (pvc_ObjectMeta ?cur)))" "diff_total sample_ext"
    by (simp_all add: same_object_def wf_map_def diff_total_def)
  from existing_claim_labels [OF hyps, of "sample_mem ?ab", unfolded if_not_P [OF ne] store_api_sel up fst_conv]
  show ?thesis unfolding Let_def by (auto simp: same_as_def simp del: store_write.simps)
qed

text \<open>C26. An existing claim that does not exist is created empty. When the claim that a volume refers
  to is missing, the operator, which should only label it, asks the server to create a claim of that name
  without access mode, storage class, size or owner.\<close>

theorem missing_existing_claim_created_blank:
  assumes "av_ExistingClaim volume = Some claim"
    and "api_get A KPVC (ab_Namespace ab) claim w = (Inl e, w1)" and "IsNotFound (Some e)"
    and "diff_total E"
  shows "\<exists>pvc. writes A (ReconcileExistingPVC E ab volume) w m =
      [(Create (ObjPVC pvc), fst (api_write A (Create (ObjPVC pvc)) w1))] \<and>
    om_Name (pvc_ObjectMeta pvc) = claim \<and> om_OwnerReferences (pvc_ObjectMeta pvc) = [] \<and>
    vc_AccessModes (pvc_Spec pvc) = [] \<and> vc_StorageClassName (pvc_Spec pvc) = None \<and>
    vc_Requests (pvc_Spec pvc) = None"
proof -
  have "GetPVCLabels ab volume \<noteq> []"
    using PVCLabels_selector [of ab volume] by (cases "GetPVCLabels ab volume") simp_all
  then have differ: "\<not> StringMapsMatch None (Some (GetPVCLabels ab volume))"
    by (simp add: StringMapsMatch_def)
  obtain reason where "FormulateDiffMessageForSpecs E (AnyStringMap None) (AnyStringMap (Some (GetPVCLabels ab volume))) = Inr reason"
    using diff_total_messages(1) [OF assms(4)] by blast
  with differ show ?thesis
    using assms(3)
    by (intro exI [of _ "set_labels (GetPVCLabels ab volume) (blank_pvc claim (ab_Namespace ab))"])
      (simp add: ReconcileExistingPVC_def assms(1) pvcs.writes_GetInto_error [OF assms(2)] Let_def
        writes_upsert_create zero_pvc_spec_def)
qed

theorem missing_existing_claim_created_blank_witness:
  "let ab = sample_bundle ''app'' ''devel'' zero_spec
   in \<exists>pvc. writes store_api (ReconcileExistingPVC sample_ext ab (zero_volume\<lparr>av_ExistingClaim := Some ''data''\<rparr>))
        [] (sample_mem ab) = [(Create (ObjPVC pvc), None)] \<and> vc_Requests (pvc_Spec pvc) = None"
  using missing_existing_claim_created_blank [of "zero_volume\<lparr>av_ExistingClaim := Some ''data''\<rparr>" "''data''" store_api
      "sample_bundle ''app'' ''devel'' zero_spec" "[]" not_found "[]" sample_ext "sample_mem (sample_bundle ''app'' ''devel'' zero_spec)"]
  by (auto simp: diff_total_def)

text \<open>C27. A claim that the bundle owns. When it is missing it is created as expected, whatever the size and
  storage class. When it exists with the expected spec and other labels, one update is sent, and
  the claim's labels become exactly the expected ones: labels that others put there are lost.\<close>

theorem owned_claim_reconciled:
  assumes "CreateExpectedPVC E ab volume name = Inr pvc" and "diff_total E"
    and "api_get A KPVC (ab_Namespace ab) name w = (r, w1)"
    and "(\<exists>e. r = Inl e \<and> IsNotFound (Some e) \<and> cur = blank_pvc name (ab_Namespace ab)) \<or>
      (r = Inr (ObjPVC cur) \<and> ext_DeepDerivative E (AnyPVCSpec (pvc_Spec pvc)) (AnyPVCSpec (pvc_Spec cur)))"
    and "\<not> ext_DeepDerivative E (AnyPVCSpec (pvc_Spec pvc)) (AnyPVCSpec zero_pvc_spec)"
  shows "writes A (ReconcilePVC E ab volume name) w m =
    (if r \<noteq> Inr (ObjPVC cur) then [(Create (ObjPVC pvc), fst (api_write A (Create (ObjPVC pvc)) w1))]
     else if StringMapsMatch (Some (GetPVCLabels ab volume)) (om_Labels (pvc_ObjectMeta cur)) then []
     else (let q = Update (ObjPVC (set_labels (GetPVCLabels ab volume) cur)) in [(q, fst (api_write A q w1))]))"
  using assms(4)
proof
  assume "\<exists>e. r = Inl e \<and> IsNotFound (Some e) \<and> cur = blank_pvc name (ab_Namespace ab)"
  then obtain e where e: "r = Inl e" "IsNotFound (Some e)" by blast
  obtain reason where reason: "FormulateDiffMessageForSpecs E (AnyPVCSpec zero_pvc_spec) (AnyPVCSpec (pvc_Spec pvc)) = Inr reason"
    using diff_total_messages(1) [OF assms(2)] by blast
  have get: "api_get A KPVC (ab_Namespace ab) name w = (Inl e, w1)"
    using assms(3) e(1) by simp
  show ?thesis
    using assms(5) e FormulateDiffMessageForSpecs_nonempty [OF reason]
    by (simp add: ReconcilePVC_def pvcs.writes_GetInto_error [OF get] assms(1) reason writes_upsert_create)
next
  assume found: "r = Inr (ObjPVC cur) \<and> ext_DeepDerivative E (AnyPVCSpec (pvc_Spec pvc)) (AnyPVCSpec (pvc_Spec cur))"
  have get: "api_get A KPVC (ab_Namespace ab) name w = (Inr (ObjPVC cur), w1)"
    using assms(3) found by simp
  obtain reason where reason: "FormulateDiffMessageForSpecs E (AnyStringMap (om_Labels (pvc_ObjectMeta cur)))
      (AnyStringMap (om_Labels (pvc_ObjectMeta pvc))) = Inr reason"
    using diff_total_messages(1) [OF assms(2)] by blast
  have labels: "om_Labels (pvc_ObjectMeta pvc) = Some (GetPVCLabels ab volume)"
    by (rule CreateExpectedPVC_Inr(3) [OF assms(1)])
  show ?thesis
    using found reason
    by (simp add: ReconcilePVC_def pvcs.writes_GetInto_found [OF get] assms(1) labels run_upsert_never_delete Let_def)
qed

theorem owned_claim_reconciled_witness:
  "let ab = sample_bundle ''app'' ''devel'' zero_spec; volume = zero_volume\<lparr>av_Size := Some ''1Gi''\<rparr>
   in \<exists>pvc. CreateExpectedPVC sample_ext ab volume ''app-data'' = Inr pvc \<and>
        writes store_api (ReconcilePVC sample_ext ab volume ''app-data'') [] (sample_mem ab) = [(Create (ObjPVC pvc), None)]"
proof -
  let ?ab = "sample_bundle ''app'' ''devel'' zero_spec"
  let ?v = "zero_volume\<lparr>av_Size := Some ''1Gi''\<rparr>"
  obtain pvc where pvc: "CreateExpectedPVC sample_ext ?ab ?v ''app-data'' = Inr pvc"
      and ne: "pvc_Spec pvc \<noteq> zero_pvc_spec"
    by (simp add: CreateExpectedPVC_def must_parse_def zero_pvc_spec_def)
  have "writes store_api (ReconcilePVC sample_ext ?ab ?v ''app-data'') [] (sample_mem ?ab) =
    (if (Inl not_found :: goerr + kobj) \<noteq> Inr (ObjPVC (blank_pvc ''app-data'' ''devel''))
     then [(Create (ObjPVC pvc), fst (api_write store_api (Create (ObjPVC pvc)) []))]
     else if StringMapsMatch (Some (GetPVCLabels ?ab ?v)) (om_Labels (pvc_ObjectMeta (blank_pvc ''app-data'' ''devel''))) then []
     else (let q = Update (ObjPVC (set_labels (GetPVCLabels ?ab ?v) (blank_pvc ''app-data'' ''devel'')))
       in [(q, fst (api_write store_api q []))]))"
    by (rule owned_claim_reconciled [OF pvc]) (use ne in \<open>simp_all add: diff_total_def\<close>)
  with pvc show ?thesis by simp
qed

text \<open>C28. A recurring backup job that exists with the expected hash is left alone, whatever its owner:
  a job that was created before the claim was bound, and therefore without an owner, never
  gets one.\<close>

theorem backup_job_owner_never_updated:
  assumes "sp_Backup (ab_Spec ab) = Some backup" and "backup_job_spec ab backup = Inr spec"
    and "api_get A KRecurringJob longhorn_ns (reccuringJobName ab) w = (Inr (ObjRecurringJob cur), w1)"
    and "ext_HashRecurringJobSpec E (job_Spec cur) = Inr h" and "ext_HashRecurringJobSpec E spec = Inr h"
  shows "writes A (ReconcileRecurringBackupJob E ab) w m = []"
proof -
  define fin where "fin = (\<lambda>r. with_result r (\<lambda>job. with_result (ext_HashRecurringJobSpec E (job_Spec job)) (\<lambda>rjAfterHash.
      if h = rjAfterHash then Done None else UpsertResource (ObjRecurringJob job) [] None False)))"
  have fin: "writes A (fin (Inl e)) w' m = []" "job_Spec job = spec \<Longrightarrow> writes A (fin (Inr job)) w' m = []"
    for e job w'
    using assms(5) by (simp_all add: fin_def with_result_def)
  have loop: "writes A (backup_owner ab keys job fin) w' m = []" if "job_Spec job = spec" for keys job w'
    using that
  proof (induction keys arbitrary: w')
    case Nil
    then show ?case by (simp add: fin)
  next
    case (Cons key keys)
    then show ?case
      by (auto simp: Let_def GetInto_def fin split: prod.split sum.split option.split)
  qed
  have "sp_Volumes (ab_Spec ab) = None \<or> entries (sp_Volumes (ab_Spec ab)) = [] \<or>
      writes A (ReconcileRecurringBackupJob E ab) w m =
      writes A (backup_owner ab (getSortedKeys (sp_Volumes (ab_Spec ab))) (cur\<lparr>job_Spec := spec\<rparr>) fin) w1 m"
    by (simp add: ReconcileRecurringBackupJob_def assms(1) recurring_jobs.writes_GetInto_found [OF assms(3)]
        with_result_def assms(2,4)) (simp add: fin_def with_result_def)
  then show ?thesis
    by (auto simp: loop ReconcileRecurringBackupJob_def assms(1))
qed

definition backed_up :: AppBundle where
  "backed_up = sample_bundle ''app'' ''devel''
     (zero_spec\<lparr>sp_Volumes := Some [(''data'', zero_volume)],
       sp_Backup := Some \<lparr>lb_Frequency = Some ''0 0 * * *'', lb_Retain = Some 7\<rparr>\<rparr>)"

theorem backup_job_owner_never_updated_witness:
  "\<exists>spec. let job = \<lparr>job_ObjectMeta = sample_meta ''app-devel'' ''longhorn-system'', job_Spec = spec\<rparr> in
     om_OwnerReferences (job_ObjectMeta job) = [] \<and>
     writes store_api (ReconcileRecurringBackupJob sample_ext backed_up) [ObjRecurringJob job] (sample_mem backed_up) = []"
proof -
  obtain spec where spec: "backup_job_spec backed_up \<lparr>lb_Frequency = Some ''0 0 * * *'', lb_Retain = Some 7\<rparr> = Inr spec"
      and cron: "rj_Cron spec = ''0 0 * * *''"
    by (simp add: backup_job_spec_def)
  let ?job = "\<lparr>job_ObjectMeta = sample_meta ''app-devel'' ''longhorn-system'', job_Spec = spec\<rparr>"
  have "writes store_api (ReconcileRecurringBackupJob sample_ext backed_up) [ObjRecurringJob ?job] (sample_mem backed_up) = []"
    by (rule backup_job_owner_never_updated [OF _ spec, where cur = ?job and h = "''0 0 * * *''"])
      (simp_all add: backed_up_def same_object_def longhorn_ns_def reccuringJobName_def cron [unfolded backed_up_def])
  then show ?thesis by (intro exI [of _ spec]) (simp add: Let_def)
qed

text \<open>C29. The name of the recurring job, in the one namespace of Longhorn, identifies the bundle only when
  namespaces have no dash: two different bundles can share a job.\<close>

theorem recurring_job_name_identifies_bundle:
  "((\<forall>ab ab'. CHR ''-'' \<in> set (ab_Namespace ab) \<or> CHR ''-'' \<in> set (ab_Namespace ab') \<or>
       (reccuringJobName ab = reccuringJobName ab') = (ab_Name ab = ab_Name ab' \<and> ab_Namespace ab = ab_Namespace ab')) \<and>
    (\<exists>ab ab'. reccuringJobName ab = reccuringJobName ab' \<and> ab_Name ab \<noteq> ab_Name ab' \<and> ab_Namespace ab \<noteq> ab_Namespace ab'))"
proof
  show "\<forall>ab ab'. CHR ''-'' \<in> set (ab_Namespace ab) \<or> CHR ''-'' \<in> set (ab_Namespace ab') \<or>
       (reccuringJobName ab = reccuringJobName ab') = (ab_Name ab = ab_Name ab' \<and> ab_Namespace ab = ab_Namespace ab')"
    using fullName_inject unfolding reccuringJobName_def fullName_def by blast
  show "\<exists>ab ab'. reccuringJobName ab = reccuringJobName ab' \<and> ab_Name ab \<noteq> ab_Name ab' \<and> ab_Namespace ab \<noteq> ab_Namespace ab'"
    by (rule exI [of _ "sample_bundle ''app'' ''team-prod'' zero_spec"],
        rule exI [of _ "sample_bundle ''app-team'' ''prod'' zero_spec"])
      (simp add: reccuringJobName_def)
qed

end
