(* ===== verification/GoSlices.thy ===== *)
theory GoSlices
  imports Prelude
begin

section \<open>Go slices with their backing arrays\<close>

text \<open>
  Most slices of the operator have one owner, and are lists here. The volume mounts of a deployment are not: two
  slices made by \<open>append\<close> from one share its backing array when the array has room. A
  slice is therefore the address of its array, a length and a capacity (no slice of the code starts
  inside its array), and the heap is the list of all arrays allocated so far. The capacity of a new array is
  chosen by the runtime, and its unused cells hold the zero value: the parameter \<open>grow\<close>, of which the language promises only that the new array is large
  enough, \<open>grows grow\<close>.
\<close>

record slice =
  sl_addr :: nat
  sl_len :: nat
  sl_cap :: nat

definition nil_slice :: slice where
  "nil_slice = \<lparr>sl_addr = 0, sl_len = 0, sl_cap = 0\<rparr>"

type_synonym 'a arrays = "'a list list"

definition elements :: "'a arrays \<Rightarrow> slice \<Rightarrow> 'a list" where
  "elements h s = (if sl_cap s = 0 then [] else take (sl_len s) (h ! sl_addr s))"

definition append_slice :: "'a \<Rightarrow> (nat \<Rightarrow> nat) \<Rightarrow> slice \<Rightarrow> 'a \<Rightarrow> 'a arrays \<Rightarrow> slice \<times> 'a arrays" where
  "append_slice zero grow s x h =
     (if sl_len s < sl_cap s
      then (s\<lparr>sl_len := Suc (sl_len s)\<rparr>, h[sl_addr s := (h ! sl_addr s)[sl_len s := x]])
      else let cap = grow (sl_cap s)
        in (\<lparr>sl_addr = length h, sl_len = Suc (sl_len s), sl_cap = cap\<rparr>,
            h @ [elements h s @ x # replicate (cap - Suc (sl_len s)) zero]))"

definition grows :: "(nat \<Rightarrow> nat) \<Rightarrow> bool" where
  "grows grow \<longleftrightarrow> (\<forall>n. n < grow n)"

definition slice_ok :: "'a arrays \<Rightarrow> slice \<Rightarrow> bool" where
  "slice_ok h s \<longleftrightarrow> sl_len s \<le> sl_cap s \<and>
     (0 < sl_cap s \<longrightarrow> sl_addr s < length h \<and> length (h ! sl_addr s) = sl_cap s)"

lemma elements_nil [simp]: "elements h nil_slice = []"
  by (simp add: elements_def nil_slice_def)

lemma slice_ok_nil [simp]: "slice_ok h nil_slice"
  by (simp add: slice_ok_def nil_slice_def)

lemma length_elements: "slice_ok h s \<Longrightarrow> length (elements h s) = sl_len s"
  by (auto simp: slice_ok_def elements_def)

text \<open>\<open>append\<close> gives the elements with the new one at the end.\<close>

lemma append_slice_spec:
  assumes "slice_ok h s" and "grows grow" and "append_slice zero grow s x h = (s', h')"
  shows "elements h' s' = elements h s @ [x]" and "slice_ok h' s'" and "sl_len s' = Suc (sl_len s)"
proof -
  have g: "sl_cap s < grow (sl_cap s)" using assms(2) by (simp add: grows_def)
  show "elements h' s' = elements h s @ [x]"
  proof (cases "sl_len s < sl_cap s")
    case True
    with assms(1,3) show ?thesis
      by (auto simp: append_slice_def slice_ok_def elements_def take_Suc_conv_app_nth)
  next
    case False
    with assms(1) have len: "sl_len s = sl_cap s" by (simp add: slice_ok_def)
    with assms(1) have "length (elements h s) = sl_len s" by (simp add: length_elements)
    then show ?thesis
      using assms(3) False g by (auto simp: append_slice_def Let_def elements_def [of h'] nth_append)
  qed
  show "slice_ok h' s'" "sl_len s' = Suc (sl_len s)"
    using assms(1,3) g
    by (auto simp: append_slice_def slice_ok_def Let_def length_elements elements_def split: if_splits)
qed

text \<open>
  What \<open>append\<close> does to another slice \<open>t\<close>: it stays a slice of the same length, and keeps its
  elements when \<open>t\<close> has another array, is not longer than the slice appended to, or that one was full.
  In any case its elements are old ones or the new one.
\<close>

lemma append_slice_other:
  assumes "slice_ok h t" and "append_slice zero grow s x h = (s', h')"
  shows "slice_ok h' t"
    and "sl_addr t \<noteq> sl_addr s \<or> sl_len t \<le> sl_len s \<or> sl_cap s \<le> sl_len s \<Longrightarrow> elements h' t = elements h t"
    and "set (elements h' t) \<subseteq> insert x (set (elements h t))"
proof -
  show "slice_ok h' t"
    using assms
    by (cases "sl_addr t = sl_addr s")
      (auto simp: append_slice_def slice_ok_def Let_def nth_append split: if_splits)
  show keep: "elements h' t = elements h t"
    if "sl_addr t \<noteq> sl_addr s \<or> sl_len t \<le> sl_len s \<or> sl_cap s \<le> sl_len s"
    using assms that
    by (cases "sl_addr t = sl_addr s")
      (auto simp: append_slice_def elements_def slice_ok_def Let_def nth_append split: if_splits)
  show "set (elements h' t) \<subseteq> insert x (set (elements h t))"
  proof (cases "sl_addr t \<noteq> sl_addr s \<or> sl_len t \<le> sl_len s \<or> sl_cap s \<le> sl_len s")
    case True
    then show ?thesis by (auto simp: keep)
  next
    case False
    with assms have "elements h' t = (elements h t)[sl_len s := x]"
      by (auto simp: append_slice_def elements_def slice_ok_def take_update_swap)
    then show ?thesis by (simp add: set_update_subset_insert)
  qed
qed

text \<open>Everything but the cell at the end of the slice appended to is untouched.\<close>

lemma append_slice_prefix:
  assumes "slice_ok h t" and "append_slice zero grow s x h = (s', h')" and "n \<le> sl_len s"
  shows "take n (elements h' t) = take n (elements h t)"
proof (cases "sl_addr t \<noteq> sl_addr s \<or> sl_len t \<le> sl_len s \<or> sl_cap s \<le> sl_len s")
  case True
  then show ?thesis using append_slice_other(2) [OF assms(1,2)] by simp
next
  case False
  with assms have "elements h' t = (elements h t)[sl_len s := x]"
    by (auto simp: append_slice_def elements_def slice_ok_def take_update_swap)
  with assms(3) show ?thesis by simp
qed

end
