(* ===== verification/DeploymentBuild.thy ===== *)
theory DeploymentBuild
  imports SecretsReconcile VolumesReconcile GoSlices
begin

section \<open>deployment.go: the expected deployment\<close>

text \<open>
  \<open>CreateExpectedDeployment\<close> of \<open>internal/controller/deployment.go\<close>. The steps are those of the
  function, in its order, so that the first error or nil dereference is the one returned: ports, volume mounts,
  volumes, configs, image, environment, command and arguments, pod template. The volume mounts are a slice with
  its backing array (\<open>GoSlices\<close>), because the init container of a config with \<open>CopyOver\<close> gets
  \<open>append(volumeMounts, ...)\<close>, which may share the array of \<open>volumeMounts\<close> while later configs are still
  appended to it. The contents of the slices are read at the end, from the final heap.
\<close>

subsection \<open>Ports, volume mounts and volumes\<close>

definition container_port :: "AppBundle \<Rightarrow> string \<Rightarrow> goerr + ContainerPort" where
  "container_port ab key =
     rbind (deref (rt_Port (mget_or zero_route (sp_Routes (ab_Spec ab)) key))) (\<lambda>port.
       Inr \<lparr>cp_Name = key, cp_ContainerPort = int32 port, cp_Protocol = ''TCP''\<rparr>)"

definition mount_name :: "AppBundle \<Rightarrow> string \<Rightarrow> string" where
  "mount_name ab key = (case av_ExistingClaim (volume_at ab key) of None \<Rightarrow> key | Some claim \<Rightarrow> claim)"

definition zero_mount :: VolumeMount where
  "zero_mount = \<lparr>vm_Name = [], vm_MountPath = [], vm_SubPath = [], vm_ReadOnly = False\<rparr>"

type_synonym mounts = "VolumeMount arrays"

definition volume_mount :: "AppBundle \<Rightarrow> string \<Rightarrow> goerr + VolumeMount" where
  "volume_mount ab key = (case av_Path (volume_at ab key) of
     None \<Rightarrow> Inl (ErrorString (''volume '' @ key @ '' has no path''))
   | Some path \<Rightarrow> Inr \<lparr>vm_Name = mount_name ab key, vm_MountPath = path, vm_SubPath = [], vm_ReadOnly = False\<rparr>)"

fun mount_loop :: "(nat \<Rightarrow> nat) \<Rightarrow> AppBundle \<Rightarrow> string list \<Rightarrow> slice \<times> mounts \<Rightarrow> goerr + slice \<times> mounts" where
  "mount_loop grow ab [] acc = Inr acc"
| "mount_loop grow ab (key # keys) acc =
     rbind (volume_mount ab key) (\<lambda>mount.
       mount_loop grow ab keys (append_slice zero_mount grow (fst acc) mount (snd acc)))"

definition pod_volume :: "AppBundle \<Rightarrow> string \<Rightarrow> Volume" where
  "pod_volume ab key =
     (let volume = volume_at ab key;
          name = mount_name ab key;
          volName = (case av_ExistingClaim volume of None \<Rightarrow> ab_Name ab @ ''-'' @ key | Some claim \<Rightarrow> claim)
      in case av_HostPath volume of
           Some path \<Rightarrow> \<lparr>vol_Name = name, vol_Source = HostPathVolumeSource path HostPathDirectoryOrCreate\<rparr>
         | None \<Rightarrow>
             if av_EmptyDir volume \<noteq> None \<and> av_EmptyDir volume = Some True
             then \<lparr>vol_Name = name, vol_Source = EmptyDirVolumeSource\<rparr>
             else \<lparr>vol_Name = name, vol_Source = PersistentVolumeClaimVolumeSource volName\<rparr>)"

subsection \<open>Configs\<close>

definition config_at :: "AppBundle \<Rightarrow> string \<Rightarrow> AppBundleConfig" where
  "config_at ab key = mget_or zero_config (sp_Configs (ab_Spec ab)) key"

definition config_volume :: "AppBundle \<Rightarrow> string \<Rightarrow> Volume" where
  "config_volume ab key =
     (let config = config_at ab key in
      case cfg_Existing config of
        Some existing \<Rightarrow> \<lparr>vol_Name = ''cm-'' @ key,
          vol_Source = ConfigMapVolumeSource existing [\<lparr>kp_Key = key, kp_Path = cfg_FileName config\<rparr>]\<rparr>
      | None \<Rightarrow>
          if entries (cfg_Secrets config) = []
          then \<lparr>vol_Name = ''cm-'' @ key,
            vol_Source = ConfigMapVolumeSource (ab_Name ab) [\<lparr>kp_Key = key, kp_Path = cfg_FileName config\<rparr>]\<rparr>
          else \<lparr>vol_Name = ''sec-'' @ key,
            vol_Source = SecretVolumeSource (ab_Name ab) [\<lparr>kp_Key = cfg_key key, kp_Path = cfg_FileName config\<rparr>]\<rparr>)"

definition config_mount :: "AppBundle \<Rightarrow> string \<Rightarrow> string \<Rightarrow> VolumeMount" where
  "config_mount ab key path = \<lparr>vm_Name = vol_Name (config_volume ab key), vm_MountPath = path,
     vm_SubPath = cfg_FileName (config_at ab key), vm_ReadOnly = True\<rparr>"

definition mountPath :: "AppBundleConfig \<Rightarrow> string" where
  "mountPath config = cfg_DirPath config @ ''/'' @ cfg_FileName config"

definition tempMountPath :: "AppBundleConfig \<Rightarrow> string" where
  "tempMountPath config = ''/atrok'' @ cfg_DirPath config @ ''/'' @ cfg_FileName config"

definition copy_container :: "AppBundle \<Rightarrow> string \<Rightarrow> Container" where
  "copy_container ab key = (let config = config_at ab key in
     zero_container\<lparr>ct_Name := ''copy-over-'' @ key, ct_Image := ''busybox:stable'',
       ct_Command := Some [''sh'', ''-c'',
         ''cp '' @ tempMountPath config @ '' '' @ mountPath config @ '' && chmod 777 '' @ mountPath config]\<rparr>)"

record config_state =
  cs_mounts :: slice
  cs_heap :: mounts
  cs_init :: "(Container \<times> slice) list"

definition copies_over :: "AppBundleConfig \<Rightarrow> bool" where
  "copies_over config \<longleftrightarrow> cfg_CopyOver config \<noteq> None \<and> cfg_CopyOver config = Some True"

definition config_step :: "(nat \<Rightarrow> nat) \<Rightarrow> AppBundle \<Rightarrow> string \<Rightarrow> config_state \<Rightarrow> config_state" where
  "config_step grow ab key st =
     (if copies_over (config_at ab key)
      then (case append_slice zero_mount grow (cs_mounts st)
                  (config_mount ab key (tempMountPath (config_at ab key))) (cs_heap st) of
          (initVolumeMounts, h) \<Rightarrow> st\<lparr>cs_heap := h,
             cs_init := cs_init st @ [(copy_container ab key, initVolumeMounts)]\<rparr>)
      else (case append_slice zero_mount grow (cs_mounts st)
                  (config_mount ab key (mountPath (config_at ab key))) (cs_heap st) of
          (volumeMounts, h) \<Rightarrow> st\<lparr>cs_heap := h, cs_mounts := volumeMounts\<rparr>))"

definition config_loop :: "(nat \<Rightarrow> nat) \<Rightarrow> AppBundle \<Rightarrow> string list \<Rightarrow> config_state \<Rightarrow> config_state" where
  "config_loop grow ab keys st = fold (config_step grow ab) keys st"

subsection \<open>Environment, command and arguments\<close>

definition env_var :: "AppBundle \<Rightarrow> string \<Rightarrow> EnvVar" where
  "env_var ab key = \<lparr>ev_Name = key, ev_Value = mget_or [] (sp_Envs (ab_Spec ab)) key, ev_ValueFrom = None\<rparr>"

definition sourced_env :: "AppBundle \<Rightarrow> string \<Rightarrow> goerr + EnvVar" where
  "sourced_env ab key =
     (let e = mget_or zero_sourced_env (sp_SourcedEnvs (ab_Spec ab)) key;
          var = (\<lambda>source. \<lparr>ev_Name = key, ev_Value = [], ev_ValueFrom = Some source\<rparr>)
      in if se_Secret e \<noteq> [] then Inr (var (SecretKeyRef (se_Secret e) (se_Key e)))
      else if se_ConfigMap e \<noteq> [] then Inr (var (ConfigMapKeyRef (se_ConfigMap e) (se_Key e)))
      else if se_ExternalSecret e \<noteq> [] then Inr (var (SecretKeyRef (ab_Name ab) (env_key key)))
      else Inl (ErrorString (''SourcedEnv '' @ key @ '' has neither Secret nor ConfigMap'')))"

definition nvidia_env_name :: string where
  "nvidia_env_name = ''NVIDIA_VISIBLE_DEVICES''"

definition nvidia_env :: "EnvVar list \<Rightarrow> EnvVar list" where
  "nvidia_env env =
     (if list_ex (\<lambda>e. ev_Name e = nvidia_env_name) env then env
      else env @ [\<lparr>ev_Name = nvidia_env_name, ev_Value = ''all'', ev_ValueFrom = None\<rparr>])"

definition uses_nvidia :: "AppBundle \<Rightarrow> bool" where
  "uses_nvidia ab \<longleftrightarrow> sp_UseNvidia (ab_Spec ab) \<noteq> None \<and> sp_UseNvidia (ab_Spec ab) = Some True"

definition deref_list :: "string option list option \<Rightarrow> goerr + string list option" where
  "deref_list xs = (case xs of None \<Rightarrow> Inr None | Some ys \<Rightarrow> rbind (mapM deref ys) (\<lambda>zs. Inr (Some zs)))"

definition image_ref :: "AppBundle \<Rightarrow> goerr + string \<times> string" where
  "image_ref ab =
     rbind (deref (sp_Image (ab_Spec ab))) (\<lambda>image.
     rbind (deref (img_Repository image)) (\<lambda>repository.
     rbind (deref (img_Tag image)) (\<lambda>tag. Inr
       (repository @ '':'' @ tag, case img_PullPolicy image of None \<Rightarrow> PullAlways | Some p \<Rightarrow> p))))"

subsection \<open>The pod template and the deployment\<close>

definition nvidia_tolerations :: "Toleration list \<Rightarrow> Toleration list" where
  "nvidia_tolerations tolerations =
     (if list_ex (\<lambda>t. to_Key t = ''nvidia.com/gpu'') tolerations then tolerations
      else tolerations @ [\<lparr>to_Key = ''nvidia.com/gpu'', to_Operator = TolerationOpExists, to_Effect = TaintEffectNoSchedule\<rparr>])"

definition match_labels :: "AppBundle \<Rightarrow> strmap" where
  "match_labels ab = [(AppBundleSelector, ab_Name ab)]"

definition pod_spec :: "AppBundle \<Rightarrow> Volume list \<Rightarrow> Container list \<Rightarrow> Container \<Rightarrow> PodSpec" where
  "pod_spec ab volumes initContainers container =
     zero_pod_spec\<lparr>ps_Volumes := volumes, ps_ImagePullSecrets := image_pull_secrets,
       ps_InitContainers := initContainers,
       ps_PodAntiAffinityRequired := [\<lparr>pa_TopologyKey = ''kubernetes.io/hostname'',
         pa_LabelSelector = \<lparr>ls_MatchLabels = None, ls_MatchExpressions =
           [\<lparr>lr_Key = AppBundleSelector, lr_Operator = LabelSelectorOpIn, lr_Values = [ab_Name ab]\<rparr>]\<rparr>\<rparr>],
       ps_Containers := [container],
       ps_NodeSelector := (case sp_NodeSelector (ab_Spec ab) of None \<Rightarrow> None | Some sel \<Rightarrow> sel),
       ps_Tolerations := (if uses_nvidia ab then nvidia_tolerations [] else []),
       ps_RuntimeClassName := (if uses_nvidia ab then Some ''nvidia'' else None)\<rparr>"

definition deployment_spec :: "AppBundle \<Rightarrow> PodSpec \<Rightarrow> DeploymentSpec" where
  "deployment_spec ab spec =
     \<lparr>ds_Replicas = sp_Replicas (ab_Spec ab), ds_RevisionHistoryLimit = Some 3,
      ds_Strategy = RecreateDeploymentStrategyType,
      ds_Selector = Some \<lparr>ls_MatchLabels = Some (match_labels ab), ls_MatchExpressions = []\<rparr>,
      ds_Template = \<lparr>pt_Labels = Some (match_labels ab), pt_Spec = spec\<rparr>, ds_Rest = no_rest\<rparr>"

text \<open>The state of the config loop when it ends, and the pod built from it.\<close>

definition final_configs :: "(nat \<Rightarrow> nat) \<Rightarrow> AppBundle \<Rightarrow> slice \<times> mounts \<Rightarrow> config_state" where
  "final_configs grow ab acc =
     (let st = \<lparr>cs_mounts = fst acc, cs_heap = snd acc, cs_init = []\<rparr> in
      if sp_Configs (ab_Spec ab) \<noteq> None
      then config_loop grow ab (getSortedKeys (sp_Configs (ab_Spec ab))) st else st)"

definition init_containers :: "config_state \<Rightarrow> Container list" where
  "init_containers st = map (\<lambda>(c, s). c\<lparr>ct_VolumeMounts := elements (cs_heap st) s\<rparr>) (cs_init st)"

definition pod_volumes :: "AppBundle \<Rightarrow> Volume list" where
  "pod_volumes ab =
     map (pod_volume ab) (getSortedKeys (sp_Volumes (ab_Spec ab))) @
     (if sp_Configs (ab_Spec ab) \<noteq> None
      then map (config_volume ab) (getSortedKeys (sp_Configs (ab_Spec ab))) else [])"

definition container_env :: "AppBundle \<Rightarrow> goerr + EnvVar list" where
  "container_env ab =
     (let env = (if sp_Envs (ab_Spec ab) \<noteq> None
                 then map (env_var ab) (getSortedKeys (sp_Envs (ab_Spec ab))) else [])
      in if sp_SourcedEnvs (ab_Spec ab) \<noteq> None
         then rbind (mapM (sourced_env ab) (getSortedKeys (sp_SourcedEnvs (ab_Spec ab)))) (\<lambda>sourced. Inr (env @ sourced))
         else Inr env)"

definition main_container :: "AppBundle \<Rightarrow> ContainerPort list \<Rightarrow> string \<Rightarrow> string \<Rightarrow> EnvVar list \<Rightarrow>
    string list option \<Rightarrow> string list option \<Rightarrow> config_state \<Rightarrow> Container" where
  "main_container ab ports img imagePullPolicy env command args st =
     \<lparr>ct_Name = ab_Name ab, ct_Image = img, ct_ImagePullPolicy = imagePullPolicy,
      ct_Command = command, ct_Args = args,
      ct_Resources = (case sp_Resources (ab_Spec ab) of None \<Rightarrow> zero_resources | Some r \<Rightarrow> r),
      ct_Ports = ports,
      ct_Env = (if uses_nvidia ab then nvidia_env env else env),
      ct_VolumeMounts = elements (cs_heap st) (cs_mounts st),
      ct_LivenessProbe = sp_LivenessProbe (ab_Spec ab), ct_ReadinessProbe = sp_ReadinessProbe (ab_Spec ab),
      ct_StartupProbe = sp_StartupProbe (ab_Spec ab)\<rparr>"

definition deployment_meta :: "AppBundle \<Rightarrow> ObjectMeta" where
  "deployment_meta ab = (GetAppBundleObjectMetaWithOwnerReference ab)
     \<lparr>om_Annotations := Some (entries (om_Annotations (ab_ObjectMeta ab))),
      om_Labels := Some (SetDefaultAppBundleLabels ab None)\<rparr>"

definition CreateExpectedDeployment :: "(nat \<Rightarrow> nat) \<Rightarrow> AppBundle \<Rightarrow> goerr + Deployment" where
  "CreateExpectedDeployment grow ab =
     rbind (mapM (container_port ab) (getSortedKeys (sp_Routes (ab_Spec ab)))) (\<lambda>ports.
     rbind (mount_loop grow ab (getSortedKeys (sp_Volumes (ab_Spec ab))) (nil_slice, [])) (\<lambda>acc.
     let st = final_configs grow ab acc in
     rbind (image_ref ab) (\<lambda>(img, imagePullPolicy).
     rbind (container_env ab) (\<lambda>env.
     rbind (deref_list (sp_Command (ab_Spec ab))) (\<lambda>command.
     rbind (deref_list (sp_Args (ab_Spec ab))) (\<lambda>args. Inr
       \<lparr>dep_ObjectMeta = deployment_meta ab,
        dep_Spec = deployment_spec ab (pod_spec ab (pod_volumes ab) (init_containers st)
          (main_container ab ports img imagePullPolicy env command args st))\<rparr>))))))"

end
