(* ===== verification/DeploymentFacts.thy ===== *)
theory DeploymentFacts
  imports DeploymentBuild
begin

section \<open>deployment.go: facts about the expected deployment\<close>

text \<open>
  What the containers of the expected deployment mount, where the pod's volumes come from, when the deployment can
  be computed, and that it does not depend on the iteration order of any map of the bundle.
\<close>

subsection \<open>Volume mounts\<close>

lemma mount_loop_spec:
  assumes "slice_ok h s" and "grows grow"
  shows "case mapM (volume_mount ab) keys of
      Inl e \<Rightarrow> mount_loop grow ab keys (s, h) = Inl e
    | Inr ms \<Rightarrow> (\<exists>s' h'. mount_loop grow ab keys (s, h) = Inr (s', h') \<and>
        elements h' s' = elements h s @ ms \<and> slice_ok h' s')"
  using assms(1)
proof (induction keys arbitrary: s h)
  case Nil
  then show ?case by simp
next
  case (Cons key keys)
  show ?case
  proof (cases "volume_mount ab key")
    case (Inl e)
    then show ?thesis by simp
  next
    case (Inr mount)
    obtain s1 h1 where ap: "append_slice zero_mount grow s mount h = (s1, h1)" by fastforce
    note sp = append_slice_spec [OF Cons.prems assms(2) ap]
    from Cons.IH [OF sp(2)] sp(1) Inr ap show ?thesis
      by (cases "mapM (volume_mount ab) keys") auto
  qed
qed

definition config_inv :: "config_state \<Rightarrow> bool" where
  "config_inv st \<longleftrightarrow> slice_ok (cs_heap st) (cs_mounts st) \<and> (\<forall>(c, s)\<in>set (cs_init st). slice_ok (cs_heap st) s)"

definition own_mount :: "AppBundle \<Rightarrow> string \<Rightarrow> VolumeMount" where
  "own_mount ab key = config_mount ab key
     (if copies_over (config_at ab key) then tempMountPath (config_at ab key) else mountPath (config_at ab key))"

text \<open>One iteration of the config loop.\<close>

lemma config_step_spec:
  assumes "config_inv st" and "grows grow"
  shows "config_inv (config_step grow ab key st)"
    and "elements (cs_heap (config_step grow ab key st)) (cs_mounts (config_step grow ab key st)) =
      elements (cs_heap st) (cs_mounts st) @ (if copies_over (config_at ab key) then [] else [own_mount ab key])"
    and "(c, s) \<in> set (cs_init (config_step grow ab key st)) \<Longrightarrow>
      ((c, s) \<in> set (cs_init st) \<and>
        set (elements (cs_heap (config_step grow ab key st)) s) \<subseteq> insert (own_mount ab key) (set (elements (cs_heap st) s))) \<or>
      (c = copy_container ab key \<and> copies_over (config_at ab key) \<and>
        elements (cs_heap (config_step grow ab key st)) s = elements (cs_heap st) (cs_mounts st) @ [own_mount ab key])"
proof -
  let ?st' = "config_step grow ab key st"
  obtain s' h' where ap: "append_slice zero_mount grow (cs_mounts st) (own_mount ab key) (cs_heap st) = (s', h')"
    by fastforce
  have ok: "slice_ok (cs_heap st) (cs_mounts st)" and init: "\<And>c s. (c, s) \<in> set (cs_init st) \<Longrightarrow> slice_ok (cs_heap st) s"
    using assms(1) by (auto simp: config_inv_def)
  note sp = append_slice_spec [OF ok assms(2) ap] and other = append_slice_other [OF _ ap]
  have keep: "elements h' (cs_mounts st) = elements (cs_heap st) (cs_mounts st)"
    by (rule other(2) [OF ok]) simp
  have st': "?st' = (if copies_over (config_at ab key)
      then st\<lparr>cs_heap := h', cs_init := cs_init st @ [(copy_container ab key, s')]\<rparr>
      else st\<lparr>cs_heap := h', cs_mounts := s'\<rparr>)"
    using ap by (auto simp: config_step_def own_mount_def)
  show "config_inv ?st'"
    using sp(2) other(1) ok init by (auto simp: st' config_inv_def)
  show "elements (cs_heap ?st') (cs_mounts ?st') =
      elements (cs_heap st) (cs_mounts st) @ (if copies_over (config_at ab key) then [] else [own_mount ab key])"
    by (simp add: st' keep sp(1))
  show "((c, s) \<in> set (cs_init st) \<and>
        set (elements (cs_heap ?st') s) \<subseteq> insert (own_mount ab key) (set (elements (cs_heap st) s))) \<or>
      (c = copy_container ab key \<and> copies_over (config_at ab key) \<and>
        elements (cs_heap ?st') s = elements (cs_heap st) (cs_mounts st) @ [own_mount ab key])"
    if "(c, s) \<in> set (cs_init ?st')"
    using that other(3) [OF init] sp(1) by (cases "copies_over (config_at ab key)") (auto simp: st')
qed

lemma config_loop_inv:
  "config_inv st \<Longrightarrow> grows grow \<Longrightarrow> config_inv (config_loop grow ab keys st)"
  unfolding config_loop_def by (induction keys arbitrary: st) (auto intro: config_step_spec(1))

lemma config_loop_mounts:
  assumes "config_inv st" and "grows grow"
  shows "elements (cs_heap (config_loop grow ab keys st)) (cs_mounts (config_loop grow ab keys st)) =
    elements (cs_heap st) (cs_mounts st) @
    map (own_mount ab) (filter (\<lambda>key. \<not> copies_over (config_at ab key)) keys)"
  using assms(1) unfolding config_loop_def
proof (induction keys arbitrary: st)
  case Nil
  then show ?case by simp
next
  case (Cons key keys)
  with config_step_spec(1,2) [OF Cons.prems assms(2), of ab key] show ?case by simp
qed

text \<open>Whatever the sharing of arrays, a container mounts only what was appended at some time.\<close>

lemma config_loop_sources:
  assumes "config_inv st" and "grows grow"
    and "(c, s) \<in> set (cs_init (config_loop grow ab keys st))"
    and "\<And>c s. (c, s) \<in> set (cs_init st) \<Longrightarrow> set (elements (cs_heap st) s) \<subseteq> M"
    and "set (elements (cs_heap st) (cs_mounts st)) \<subseteq> M" and "own_mount ab ` set keys \<subseteq> M"
  shows "set (elements (cs_heap (config_loop grow ab keys st)) s) \<subseteq> M"
  using assms(1,3-6) unfolding config_loop_def
proof (induction keys arbitrary: st)
  case Nil
  then show ?case by auto
next
  case (Cons key keys)
  let ?st' = "config_step grow ab key st"
  note sp = config_step_spec [OF Cons.prems(1) assms(2), where ab = ab and key = key]
  have own: "own_mount ab key \<in> M" using Cons.prems(5) by simp
  have "set (elements (cs_heap ?st') s) \<subseteq> M" if "(c, s) \<in> set (cs_init ?st')" for c s
    using sp(3) [OF that] Cons.prems(3,4) own by fastforce
  moreover have "set (elements (cs_heap ?st') (cs_mounts ?st')) \<subseteq> M"
    using sp(2) Cons.prems(4) own by auto
  ultimately show ?case
    using Cons.IH [OF sp(1)] Cons.prems(2,5) by simp
qed

text \<open>What comes out of the two loops together.\<close>

lemma final_configs_spec:
  assumes "mount_loop grow ab (getSortedKeys (sp_Volumes (ab_Spec ab))) (nil_slice, []) = Inr acc"
    and "grows grow"
  shows "\<exists>ms. mapM (volume_mount ab) (getSortedKeys (sp_Volumes (ab_Spec ab))) = Inr ms \<and>
      elements (cs_heap (final_configs grow ab acc)) (cs_mounts (final_configs grow ab acc)) =
        ms @ map (own_mount ab) (filter (\<lambda>key. \<not> copies_over (config_at ab key)) (getSortedKeys (sp_Configs (ab_Spec ab)))) \<and>
      (\<forall>(c, s)\<in>set (cs_init (final_configs grow ab acc)).
         set (elements (cs_heap (final_configs grow ab acc)) s) \<subseteq>
         set ms \<union> own_mount ab ` set (getSortedKeys (sp_Configs (ab_Spec ab))))"
proof -
  obtain s h where acc: "acc = (s, h)" by (cases acc)
  obtain ms where ms: "mapM (volume_mount ab) (getSortedKeys (sp_Volumes (ab_Spec ab))) = Inr ms"
    "elements h s = ms" "slice_ok h s"
    using mount_loop_spec [OF slice_ok_nil assms(2), of ab "getSortedKeys (sp_Volumes (ab_Spec ab))" "[]"] assms(1)
    by (auto simp: acc split: sum.splits)
  let ?st = "\<lparr>cs_mounts = s, cs_heap = h, cs_init = []\<rparr>"
  have inv: "config_inv ?st" using ms(3) by (simp add: config_inv_def)
  have fin: "final_configs grow ab acc = config_loop grow ab (getSortedKeys (sp_Configs (ab_Spec ab))) ?st"
    by (cases "sp_Configs (ab_Spec ab)") (simp_all add: final_configs_def acc config_loop_def)
  have src: "set (elements (cs_heap (final_configs grow ab acc)) t) \<subseteq>
      set ms \<union> own_mount ab ` set (getSortedKeys (sp_Configs (ab_Spec ab)))"
    if "(c, t) \<in> set (cs_init (final_configs grow ab acc))" for c t
    using that unfolding fin
    by (rule config_loop_sources [OF inv assms(2)]) (auto simp: ms(2))
  show ?thesis
    using ms(1) config_loop_mounts [OF inv assms(2), of ab "getSortedKeys (sp_Configs (ab_Spec ab))"] src
    by (auto simp: fin ms(2))
qed

subsection \<open>The pod's volumes\<close>

lemma pod_volume_name: "vol_Name (pod_volume ab key) = mount_name ab key"
  by (simp add: pod_volume_def Let_def split: option.split)

lemma volume_mount_name: "volume_mount ab key = Inr m \<Longrightarrow> vm_Name m = mount_name ab key"
  by (auto simp: volume_mount_def split: option.splits)

lemma own_mount_name: "vm_Name (own_mount ab key) = vol_Name (config_volume ab key)"
  by (simp add: own_mount_def config_mount_def)

lemma pod_volumes_alt:
  "pod_volumes ab = map (pod_volume ab) (getSortedKeys (sp_Volumes (ab_Spec ab))) @
     map (config_volume ab) (getSortedKeys (sp_Configs (ab_Spec ab)))"
  by (cases "sp_Configs (ab_Spec ab)") (simp_all add: pod_volumes_def)

lemma CreateExpectedDeployment_Inr:
  assumes "CreateExpectedDeployment grow ab = Inr d"
  obtains acc ports img policy env command args
  where "mount_loop grow ab (getSortedKeys (sp_Volumes (ab_Spec ab))) (nil_slice, []) = Inr acc"
    and "container_env ab = Inr env"
    and "dep_ObjectMeta d = deployment_meta ab"
    and "dep_Spec d = deployment_spec ab (pod_spec ab (pod_volumes ab)
      (init_containers (final_configs grow ab acc))
      (main_container ab ports img policy env command args (final_configs grow ab acc)))"
  using assms by (auto simp: CreateExpectedDeployment_def rbind_Inr_iff Let_def)

lemma main_container_sel [simp]:
  "ct_VolumeMounts (main_container ab ports img policy env command args st) = elements (cs_heap st) (cs_mounts st)"
  "ct_Env (main_container ab ports img policy env command args st) =
     (if uses_nvidia ab then nvidia_env env else env)"
  by (simp_all add: main_container_def)

subsection \<open>Properties\<close>

text \<open>The pod of a deployment, its containers, and a sample bundle.\<close>

abbreviation pod_of :: "Deployment \<Rightarrow> PodSpec" where
  "pod_of d \<equiv> pt_Spec (ds_Template (dep_Spec d))"

lemma pod_sel [simp]:
  "ds_Template (deployment_spec ab ps) = \<lparr>pt_Labels = Some (match_labels ab), pt_Spec = ps\<rparr>"
  "ps_Containers (pod_spec ab vols inits c) = [c]"
  "ps_InitContainers (pod_spec ab vols inits c) = inits"
  "ps_Volumes (pod_spec ab vols inits c) = vols"
  by (simp_all add: deployment_spec_def pod_spec_def)

definition go_grow :: "nat \<Rightarrow> nat" where
  "go_grow n = (if n = 0 then 1 else 2 * n)"

lemma grows_go_grow [simp]: "grows go_grow"
  by (simp add: grows_def go_grow_def)

definition volume_on :: "string \<Rightarrow> AppBundleVolume" where
  "volume_on path = zero_volume\<lparr>av_Path := Some path\<rparr>"

definition copy_bundle :: AppBundle where
  "copy_bundle = sample_bundle ''app'' ''devel'' (zero_spec\<lparr>
     sp_Image := Some \<lparr>img_Repository = Some ''repo'', img_Tag = Some ''v1'', img_PullPolicy = None\<rparr>,
     sp_Volumes := Some [(''x'', volume_on ''/x''), (''y'', volume_on ''/y''), (''z'', volume_on ''/z'')],
     sp_Configs := Some [(''a'', zero_config\<lparr>cfg_FileName := ''fa'', cfg_DirPath := ''/etc'', cfg_CopyOver := Some True\<rparr>),
       (''b'', zero_config\<lparr>cfg_FileName := ''fb'', cfg_DirPath := ''/etc''\<rparr>)]\<rparr>)"

lemma copy_bundle_fields [simp]:
  "sp_Routes (ab_Spec copy_bundle) = None" "sp_Envs (ab_Spec copy_bundle) = None"
  "sp_SourcedEnvs (ab_Spec copy_bundle) = None" "sp_Command (ab_Spec copy_bundle) = None"
  "sp_Args (ab_Spec copy_bundle) = None"
  "sp_Image (ab_Spec copy_bundle) = Some \<lparr>img_Repository = Some ''repo'', img_Tag = Some ''v1'', img_PullPolicy = None\<rparr>"
  "getSortedKeys (sp_Volumes (ab_Spec copy_bundle)) = [''x'', ''y'', ''z'']"
  "getSortedKeys (sp_Configs (ab_Spec copy_bundle)) = [''a'', ''b'']"
  "volume_at copy_bundle ''x'' = volume_on ''/x''" "volume_at copy_bundle ''y'' = volume_on ''/y''"
  "volume_at copy_bundle ''z'' = volume_on ''/z''"
  by (simp_all add: copy_bundle_def getSortedKeys_def mkeys_def volume_at_def mget_or_def)

lemma copy_bundle_deployment: "\<exists>d. CreateExpectedDeployment go_grow copy_bundle = Inr d"
proof -
  have "\<exists>ms. mapM (volume_mount copy_bundle) [''x'', ''y'', ''z''] = Inr ms"
    by (simp add: volume_mount_def volume_on_def)
  then obtain acc where "mount_loop go_grow copy_bundle [''x'', ''y'', ''z''] (nil_slice, []) = Inr acc"
    using mount_loop_spec [OF slice_ok_nil grows_go_grow, of copy_bundle "[''x'', ''y'', ''z'']" "[]"] by auto
  then show ?thesis
    by (simp add: CreateExpectedDeployment_def Let_def image_ref_def container_env_def deref_list_def
        del: mount_loop.simps)
qed

text \<open>C16. The mounts of the main container, whatever capacities the runtime chooses for the backing
  arrays: one per volume, in the order of the sorted volume names, named after the volume or
  its existing claim and at the volume's path, and then one per config that is not copied over, in
  the order of the sorted config names, read-only and at the config's path.\<close>

theorem deployment_main_mounts:
  assumes "CreateExpectedDeployment grow ab = Inr d" and "grows grow"
  shows "\<exists>main volume_mounts. ps_Containers (pod_of d) = [main] \<and>
    mapM (volume_mount ab) (getSortedKeys (sp_Volumes (ab_Spec ab))) = Inr volume_mounts \<and>
    ct_VolumeMounts main = volume_mounts @
      map (\<lambda>key. config_mount ab key (mountPath (config_at ab key)))
        (filter (\<lambda>key. \<not> copies_over (config_at ab key)) (getSortedKeys (sp_Configs (ab_Spec ab))))"
  using assms(1)
proof (rule CreateExpectedDeployment_Inr)
  fix acc ports img policy env command args
  assume acc: "mount_loop grow ab (getSortedKeys (sp_Volumes (ab_Spec ab))) (nil_slice, []) = Inr acc"
    and d: "dep_Spec d = deployment_spec ab (pod_spec ab (pod_volumes ab) (init_containers (final_configs grow ab acc))
      (main_container ab ports img policy env command args (final_configs grow ab acc)))"
  have own: "map (own_mount ab) (filter (\<lambda>key. \<not> copies_over (config_at ab key)) keys) =
      map (\<lambda>key. config_mount ab key (mountPath (config_at ab key))) (filter (\<lambda>key. \<not> copies_over (config_at ab key)) keys)"
    for keys by (simp add: own_mount_def)
  show ?thesis using final_configs_spec [OF acc assms(2)] by (auto simp: d own)
qed

theorem deployment_main_mounts_witness:
  "\<exists>d main. CreateExpectedDeployment go_grow copy_bundle = Inr d \<and> ps_Containers (pod_of d) = [main] \<and>
     map vm_MountPath (ct_VolumeMounts main) = [''/x'', ''/y'', ''/z'', ''/etc/fb'']"
proof -
  obtain d where d: "CreateExpectedDeployment go_grow copy_bundle = Inr d" using copy_bundle_deployment by blast
  have cfgs: "copies_over (config_at copy_bundle ''a'')" "\<not> copies_over (config_at copy_bundle ''b'')"
    "mountPath (config_at copy_bundle ''b'') = ''/etc/fb''"
    by (simp_all add: config_at_def mget_or_def copy_bundle_def copies_over_def zero_config_def mountPath_def)
  from deployment_main_mounts [OF d grows_go_grow] d show ?thesis
    by (auto simp: cfgs config_mount_def volume_mount_def volume_on_def)
qed

text \<open>C14. Every mount of every container of the pod, init containers included, names a volume of the pod,
  also when slices share a backing array.\<close>

theorem deployment_mounts_name_volumes:
  assumes "CreateExpectedDeployment grow ab = Inr d" and "grows grow"
  shows "\<forall>c\<in>set (ps_Containers (pod_of d) @ ps_InitContainers (pod_of d)). \<forall>m\<in>set (ct_VolumeMounts c).
    vm_Name m \<in> vol_Name ` set (ps_Volumes (pod_of d))"
  using assms(1)
proof (rule CreateExpectedDeployment_Inr)
  fix acc ports img policy env command args
  assume acc: "mount_loop grow ab (getSortedKeys (sp_Volumes (ab_Spec ab))) (nil_slice, []) = Inr acc"
    and d: "dep_Spec d = deployment_spec ab (pod_spec ab (pod_volumes ab) (init_containers (final_configs grow ab acc))
      (main_container ab ports img policy env command args (final_configs grow ab acc)))"
  let ?st = "final_configs grow ab acc" and ?vols = "getSortedKeys (sp_Volumes (ab_Spec ab))"
    and ?cfgs = "getSortedKeys (sp_Configs (ab_Spec ab))"
  obtain ms where ms: "mapM (volume_mount ab) ?vols = Inr ms"
    and eq: "elements (cs_heap ?st) (cs_mounts ?st) = ms @ map (own_mount ab) (filter (\<lambda>key. \<not> copies_over (config_at ab key)) ?cfgs)"
    and all: "\<forall>(c, s)\<in>set (cs_init ?st). set (elements (cs_heap ?st) s) \<subseteq> set ms \<union> own_mount ab ` set ?cfgs"
    using final_configs_spec [OF acc assms(2)] by blast
  have main: "set (elements (cs_heap ?st) (cs_mounts ?st)) \<subseteq> set ms \<union> own_mount ab ` set ?cfgs"
    unfolding eq by (auto simp del: set_getSortedKeys)
  have inits: "set (elements (cs_heap ?st) s) \<subseteq> set ms \<union> own_mount ab ` set ?cfgs" if "(c, s) \<in> set (cs_init ?st)" for c s
    using all that by fast
  have vols: "vol_Name ` set (pod_volumes ab) = mount_name ab ` set ?vols \<union> (\<lambda>k. vol_Name (config_volume ab k)) ` set ?cfgs"
    by (simp add: pod_volumes_alt image_Un image_image pod_volume_name del: set_getSortedKeys)
  have named: "vm_Name m \<in> vol_Name ` set (pod_volumes ab)" if "m \<in> set ms \<union> own_mount ab ` set ?cfgs" for m
    using that mapM_in [OF ms, of m] volume_mount_name [of ab _ m]
    by (auto simp: vols own_mount_name simp del: set_getSortedKeys)
  show ?thesis
    using main inits named by (auto simp: d init_containers_def) blast+
qed

theorem deployment_mounts_name_volumes_witness:
  "\<exists>d. CreateExpectedDeployment go_grow copy_bundle = Inr d \<and>
     (\<forall>c\<in>set (ps_InitContainers (pod_of d)). vm_Name ` set (ct_VolumeMounts c) \<subseteq> vol_Name ` set (ps_Volumes (pod_of d)))"
proof -
  obtain d where d: "CreateExpectedDeployment go_grow copy_bundle = Inr d" using copy_bundle_deployment by blast
  from deployment_mounts_name_volumes [OF d grows_go_grow] d show ?thesis by auto
qed

text \<open>The volumes of the configs never collide: their names determine the config.\<close>

lemma inj_config_volume_name: "inj_on (\<lambda>key. vol_Name (config_volume ab key)) A"
  by (auto simp: inj_on_def config_volume_def Let_def split: option.splits if_splits)

text \<open>C40. When the pod is acceptable to Kubernetes, which refuses two volumes of one name: exactly when
  no two volumes of the bundle have one mount name (an existing claim, or the volume's own name), and
  none is called like the volume of a config, \<open>cm-\<close> or \<open>sec-\<close> and the config's name. Nothing in the code checks
  this: a claim that is mounted at two paths, as two volumes, makes the deployment's pods invalid.
\<close>

theorem pod_volume_names_distinct:
  assumes "CreateExpectedDeployment grow ab = Inr d"
    and "wf_map (entries (sp_Volumes (ab_Spec ab)))" and "wf_map (entries (sp_Configs (ab_Spec ab)))"
  shows "distinct (map vol_Name (ps_Volumes (pod_of d))) \<longleftrightarrow>
    inj_on (mount_name ab) (set (mkeys (sp_Volumes (ab_Spec ab)))) \<and>
    (\<forall>key\<in>set (mkeys (sp_Configs (ab_Spec ab))).
       vol_Name (config_volume ab key) \<notin> mount_name ab ` set (mkeys (sp_Volumes (ab_Spec ab))))"
  using assms(1)
proof (rule CreateExpectedDeployment_Inr)
  fix acc ports img policy env command args
  assume d: "dep_Spec d = deployment_spec ab (pod_spec ab (pod_volumes ab) (init_containers (final_configs grow ab acc))
      (main_container ab ports img policy env command args (final_configs grow ab acc)))"
  have keys: "set (getSortedKeys m) = set (mkeys m)" for m :: "'v gomap option"
    by (simp add: getSortedKeys_def)
  show ?thesis
    using assms(2,3) inj_config_volume_name
    by (auto simp: d pod_volumes_alt distinct_map distinct_getSortedKeys pod_volume_name comp_def keys
        simp del: set_getSortedKeys) (metis image_eqI)
qed

definition shared_claim_bundle :: AppBundle where
  "shared_claim_bundle = sample_bundle ''app'' ''devel'' (zero_spec\<lparr>
     sp_Image := Some \<lparr>img_Repository = Some ''repo'', img_Tag = Some ''v1'', img_PullPolicy = None\<rparr>,
     sp_Volumes := Some [(''x'', (volume_on ''/x'')\<lparr>av_ExistingClaim := Some ''data''\<rparr>),
       (''y'', (volume_on ''/y'')\<lparr>av_ExistingClaim := Some ''data''\<rparr>)]\<rparr>)"

lemma shared_claim_fields [simp]:
  "sp_Routes (ab_Spec shared_claim_bundle) = None" "sp_Envs (ab_Spec shared_claim_bundle) = None"
  "sp_SourcedEnvs (ab_Spec shared_claim_bundle) = None" "sp_Command (ab_Spec shared_claim_bundle) = None"
  "sp_Args (ab_Spec shared_claim_bundle) = None" "sp_Configs (ab_Spec shared_claim_bundle) = None"
  "sp_Image (ab_Spec shared_claim_bundle) = Some \<lparr>img_Repository = Some ''repo'', img_Tag = Some ''v1'', img_PullPolicy = None\<rparr>"
  "mkeys (sp_Volumes (ab_Spec shared_claim_bundle)) = [''x'', ''y'']"
  "getSortedKeys (sp_Volumes (ab_Spec shared_claim_bundle)) = [''x'', ''y'']"
  "volume_at shared_claim_bundle ''x'' = (volume_on ''/x'')\<lparr>av_ExistingClaim := Some ''data''\<rparr>"
  "volume_at shared_claim_bundle ''y'' = (volume_on ''/y'')\<lparr>av_ExistingClaim := Some ''data''\<rparr>"
  by (simp_all add: shared_claim_bundle_def getSortedKeys_def mkeys_def volume_at_def mget_or_def)

theorem pod_volume_names_distinct_witness:
  "\<exists>d. CreateExpectedDeployment go_grow shared_claim_bundle = Inr d \<and>
     \<not> distinct (map vol_Name (ps_Volumes (pod_of d)))"
proof -
  have "mapM (volume_mount shared_claim_bundle) [''x'', ''y''] \<noteq> Inl e" for e
    by (simp add: volume_mount_def volume_on_def)
  then obtain acc where "mount_loop go_grow shared_claim_bundle [''x'', ''y''] (nil_slice, []) = Inr acc"
    using mount_loop_spec [OF slice_ok_nil grows_go_grow, of shared_claim_bundle "[''x'', ''y'']" "[]"]
    by (cases "mapM (volume_mount shared_claim_bundle) [''x'', ''y'']") auto
  then obtain d where d: "CreateExpectedDeployment go_grow shared_claim_bundle = Inr d"
    by (simp add: CreateExpectedDeployment_def Let_def image_ref_def container_env_def deref_list_def
        del: mount_loop.simps)
  have "\<not> inj_on (mount_name shared_claim_bundle) (set (mkeys (sp_Volumes (ab_Spec shared_claim_bundle))))"
    by (simp add: inj_on_def mount_name_def)
  with pod_volume_names_distinct [OF d] d show ?thesis
    by (auto simp: shared_claim_bundle_def wf_map_def)
qed

text \<open>C15. An init container that copies a config over can lose the mount of that config. With the
  capacities that the Go runtime gives to a growing slice of mounts, three volumes and two configs are enough: the mount
  of the second config overwrites the one of the first in the array they share, so the init
  container of the first copies a file from a path where nothing is mounted.\<close>

theorem init_container_loses_mount:
  "\<exists>ab d c. CreateExpectedDeployment go_grow ab = Inr d \<and> ps_InitContainers (pod_of d) = [c] \<and>
     ct_Name c = ''copy-over-a'' \<and>
     ct_Command c = Some [''sh'', ''-c'', ''cp /atrok/etc/fa /etc/fa && chmod 777 /etc/fa''] \<and>
     map (\<lambda>m. (vm_Name m, vm_MountPath m)) (ct_VolumeMounts c) =
       [(''x'', ''/x''), (''y'', ''/y''), (''z'', ''/z''), (''cm-b'', ''/etc/fb'')]"
proof -
  have cfgs: "config_at copy_bundle ''a'' = zero_config\<lparr>cfg_FileName := ''fa'', cfg_DirPath := ''/etc'', cfg_CopyOver := Some True\<rparr>"
    "config_at copy_bundle ''b'' = zero_config\<lparr>cfg_FileName := ''fb'', cfg_DirPath := ''/etc''\<rparr>"
    by (simp_all add: config_at_def mget_or_def copy_bundle_def)
  let ?m = "\<lambda>n p. \<lparr>vm_Name = n, vm_MountPath = p, vm_SubPath = [], vm_ReadOnly = False\<rparr>"
  let ?ms = "[?m ''x'' ''/x'', ?m ''y'' ''/y'', ?m ''z'' ''/z'']"
  have mounts: "volume_mount copy_bundle ''x'' = Inr (?m ''x'' ''/x'')" "volume_mount copy_bundle ''y'' = Inr (?m ''y'' ''/y'')"
    "volume_mount copy_bundle ''z'' = Inr (?m ''z'' ''/z'')"
    by (simp_all add: volume_mount_def mount_name_def volume_on_def zero_volume_def)
  define acc :: "slice \<times> mounts" where "acc = (\<lparr>sl_addr = 2, sl_len = 3, sl_cap = 4\<rparr>,
      [[?m ''x'' ''/x''], [?m ''x'' ''/x'', ?m ''y'' ''/y''], ?ms @ [zero_mount]])"
  have acc: "mount_loop go_grow copy_bundle [''x'', ''y'', ''z''] (nil_slice, []) = Inr acc"
    by (simp add: mounts acc_def append_slice_def nil_slice_def elements_def go_grow_def Let_def)
  let ?ca = "config_mount copy_bundle ''a'' ''/atrok/etc/fa''" and ?cb = "config_mount copy_bundle ''b'' ''/etc/fb''"
  let ?s = "\<lparr>sl_addr = 2, sl_len = 4, sl_cap = 4\<rparr> :: slice"
  have paths: "tempMountPath (config_at copy_bundle ''a'') = ''/atrok/etc/fa''" "mountPath (config_at copy_bundle ''a'') = ''/etc/fa''"
    "mountPath (config_at copy_bundle ''b'') = ''/etc/fb''"
    "copies_over (config_at copy_bundle ''a'')" "\<not> copies_over (config_at copy_bundle ''b'')"
    by (simp_all add: cfgs tempMountPath_def mountPath_def copies_over_def zero_config_def)
  define st where "st = final_configs go_grow copy_bundle acc"
  have some: "sp_Configs (ab_Spec copy_bundle) \<noteq> None" by (simp add: copy_bundle_def)
  have st: "cs_init st = [(copy_container copy_bundle ''a'', ?s)]" "cs_heap st ! 2 = ?ms @ [?cb]"
    using some
    by (simp_all add: st_def final_configs_def config_loop_def config_step_def paths acc_def append_slice_def)
  have d: "\<exists>d. CreateExpectedDeployment go_grow copy_bundle = Inr d \<and>
      ps_InitContainers (pod_of d) = init_containers st"
    by (simp add: CreateExpectedDeployment_def acc Let_def st_def [symmetric] image_ref_def container_env_def
        deref_list_def del: mount_loop.simps)
  have names: "vm_Name ?cb = ''cm-b''" "vm_MountPath ?cb = ''/etc/fb''"
    by (simp_all add: config_mount_def config_volume_def cfgs zero_config_def)
  have inits: "init_containers st = [(copy_container copy_bundle ''a'')\<lparr>ct_VolumeMounts := ?ms @ [?cb]\<rparr>]"
    by (simp add: init_containers_def st elements_def)
  have cmd: "ct_Name (copy_container copy_bundle ''a'') = ''copy-over-a''"
    "ct_Command (copy_container copy_bundle ''a'') = Some [''sh'', ''-c'', ''cp /atrok/etc/fa /etc/fa && chmod 777 /etc/fa'']"
    by (simp_all add: copy_container_def Let_def paths)
  from d show ?thesis
    by (elim exE conjE) (intro exI conjI, assumption, simp add: inits, simp_all add: cmd names)
qed

subsection \<open>When the deployment can be computed\<close>

text \<open>A loop over the sorted keys visits exactly the entries of the map.\<close>

lemma ball_sorted_keys:
  assumes "wf_map (entries m)"
  shows "(\<forall>k\<in>set (getSortedKeys m). P k (mget_or z m k)) \<longleftrightarrow> (\<forall>(k, v)\<in>set (entries m). P k v)"
proof -
  have at: "mget_or z m k = v" if "(k, v) \<in> set (entries m)" for k v
    using that assms by (simp add: mget_or_def mget_def wf_map_def)
  show ?thesis by (auto simp: at)
qed

lemma deref_list_ok_iff: "(\<exists>y. deref_list xs = Inr y) \<longleftrightarrow> (\<forall>x\<in>set (case xs of None \<Rightarrow> [] | Some ys \<Rightarrow> ys). x \<noteq> None)"
proof (cases xs)
  case None
  then show ?thesis by (simp add: deref_list_def)
next
  case (Some ys)
  have "(\<exists>y. deref_list xs = Inr y) \<longleftrightarrow> (\<exists>zs. mapM deref ys = Inr zs)"
    by (auto simp: Some deref_list_def rbind_Inr_iff)
  then show ?thesis by (simp add: mapM_ok_iff Some)
qed

lemma container_env_ok_iff:
  "(\<exists>env. container_env ab = Inr env) \<longleftrightarrow> (\<forall>k\<in>set (getSortedKeys (sp_SourcedEnvs (ab_Spec ab))). \<exists>v. sourced_env ab k = Inr v)"
proof (cases "sp_SourcedEnvs (ab_Spec ab)")
  case None
  then show ?thesis by (simp add: container_env_def Let_def)
next
  case (Some es)
  have "(\<exists>env. container_env ab = Inr env) \<longleftrightarrow>
      (\<exists>zs. mapM (sourced_env ab) (getSortedKeys (sp_SourcedEnvs (ab_Spec ab))) = Inr zs)"
    by (auto simp: container_env_def Let_def rbind_Inr_iff Some)
  then show ?thesis by (simp only: mapM_ok_iff)
qed

lemma mount_loop_ok_iff:
  assumes "grows grow"
  shows "(\<exists>acc. mount_loop grow ab keys (nil_slice, []) = Inr acc) \<longleftrightarrow> (\<forall>k\<in>set keys. \<exists>m. volume_mount ab k = Inr m)"
proof -
  have "(\<exists>acc. mount_loop grow ab keys (nil_slice, []) = Inr acc) \<longleftrightarrow> (\<exists>ms. mapM (volume_mount ab) keys = Inr ms)"
    using mount_loop_spec [OF slice_ok_nil assms, of ab keys "[]"] by (auto split: sum.splits)
  then show ?thesis by (simp only: mapM_ok_iff)
qed

lemma image_ref_ok_iff:
  "(\<exists>r. image_ref ab = Inr r) \<longleftrightarrow>
    (case sp_Image (ab_Spec ab) of None \<Rightarrow> False | Some i \<Rightarrow> img_Repository i \<noteq> None \<and> img_Tag i \<noteq> None)"
  by (auto simp: image_ref_def rbind_Inr_iff split: option.split)

text \<open>C17. The expected deployment can be computed exactly when every route has a port, every volume has
  a path, there is an image with a repository and a tag, every sourced variable names a secret, a
  config map or an external secret, and no command or argument is nil. Otherwise the code
  returns an error or dereferences nil.\<close>

theorem deployment_computable:
  assumes "grows grow" and "wf_map (entries (sp_Routes (ab_Spec ab)))"
    and "wf_map (entries (sp_Volumes (ab_Spec ab)))" and "wf_map (entries (sp_SourcedEnvs (ab_Spec ab)))"
  shows "(\<exists>d. CreateExpectedDeployment grow ab = Inr d) \<longleftrightarrow>
    (\<forall>(k, route)\<in>set (entries (sp_Routes (ab_Spec ab))). rt_Port route \<noteq> None) \<and>
    (\<forall>(k, volume)\<in>set (entries (sp_Volumes (ab_Spec ab))). av_Path volume \<noteq> None) \<and>
    (case sp_Image (ab_Spec ab) of None \<Rightarrow> False | Some i \<Rightarrow> img_Repository i \<noteq> None \<and> img_Tag i \<noteq> None) \<and>
    (\<forall>(k, e)\<in>set (entries (sp_SourcedEnvs (ab_Spec ab))). se_Secret e \<noteq> [] \<or> se_ConfigMap e \<noteq> [] \<or> se_ExternalSecret e \<noteq> []) \<and>
    (\<forall>x\<in>set (case sp_Command (ab_Spec ab) of None \<Rightarrow> [] | Some ys \<Rightarrow> ys). x \<noteq> None) \<and>
    (\<forall>x\<in>set (case sp_Args (ab_Spec ab) of None \<Rightarrow> [] | Some ys \<Rightarrow> ys). x \<noteq> None)"
proof -
  have port: "(\<exists>p. container_port ab k = Inr p) \<longleftrightarrow> rt_Port (mget_or zero_route (sp_Routes (ab_Spec ab)) k) \<noteq> None" for k
    by (cases "rt_Port (mget_or zero_route (sp_Routes (ab_Spec ab)) k)") (simp_all add: container_port_def)
  have mount: "(\<exists>m. volume_mount ab k = Inr m) \<longleftrightarrow> av_Path (mget_or zero_volume (sp_Volumes (ab_Spec ab)) k) \<noteq> None" for k
    by (cases "av_Path (mget_or zero_volume (sp_Volumes (ab_Spec ab)) k)") (simp_all add: volume_mount_def volume_at_def)
  have env: "(\<exists>v. sourced_env ab k = Inr v) \<longleftrightarrow> (let e = mget_or zero_sourced_env (sp_SourcedEnvs (ab_Spec ab)) k in
      se_Secret e \<noteq> [] \<or> se_ConfigMap e \<noteq> [] \<or> se_ExternalSecret e \<noteq> [])" for k
    by (simp add: sourced_env_def Let_def)
  have "(\<exists>d. CreateExpectedDeployment grow ab = Inr d) \<longleftrightarrow>
      (\<exists>ports. mapM (container_port ab) (getSortedKeys (sp_Routes (ab_Spec ab))) = Inr ports) \<and>
      (\<exists>acc. mount_loop grow ab (getSortedKeys (sp_Volumes (ab_Spec ab))) (nil_slice, []) = Inr acc) \<and>
      (\<exists>r. image_ref ab = Inr r) \<and> (\<exists>env. container_env ab = Inr env) \<and>
      (\<exists>c. deref_list (sp_Command (ab_Spec ab)) = Inr c) \<and> (\<exists>a. deref_list (sp_Args (ab_Spec ab)) = Inr a)"
    by (auto simp: CreateExpectedDeployment_def rbind_Inr_iff Let_def)
  then show ?thesis
    unfolding mapM_ok_iff mount_loop_ok_iff [OF assms(1)] image_ref_ok_iff container_env_ok_iff deref_list_ok_iff
      port mount env Let_def
      ball_sorted_keys [OF assms(2), where P = "\<lambda>k r. rt_Port r \<noteq> None"]
      ball_sorted_keys [OF assms(3), where P = "\<lambda>k v. av_Path v \<noteq> None"]
      ball_sorted_keys [OF assms(4), where P = "\<lambda>k e. se_Secret e \<noteq> [] \<or> se_ConfigMap e \<noteq> [] \<or> se_ExternalSecret e \<noteq> []"] .
qed

theorem deployment_computable_witness: "\<exists>d. CreateExpectedDeployment go_grow copy_bundle = Inr d"
  using deployment_computable [of go_grow copy_bundle]
  by (simp add: copy_bundle_def wf_map_def volume_on_def)

subsection \<open>Environment and iteration order\<close>

lemma sourced_env_name: "sourced_env ab k = Inr v \<Longrightarrow> ev_Name v = k"
  by (auto simp: sourced_env_def Let_def split: if_splits)

lemma container_env_alt:
  "container_env ab = rbind (mapM (sourced_env ab) (getSortedKeys (sp_SourcedEnvs (ab_Spec ab))))
     (\<lambda>sourced. Inr (map (env_var ab) (getSortedKeys (sp_Envs (ab_Spec ab))) @ sourced))"
  by (cases "sp_Envs (ab_Spec ab)"; cases "sp_SourcedEnvs (ab_Spec ab)") (simp_all add: container_env_def Let_def)

lemma final_configs_alt:
  "final_configs grow ab acc = config_loop grow ab (getSortedKeys (sp_Configs (ab_Spec ab)))
     \<lparr>cs_mounts = fst acc, cs_heap = snd acc, cs_init = []\<rparr>"
  by (cases "sp_Configs (ab_Spec ab)") (simp_all add: final_configs_def config_loop_def Let_def)

text \<open>C19. The environment of the main container lists the plain variables in sorted order, then the
  sourced ones in sorted order, and then the variable that makes the GPUs visible exactly when the bundle
  asks for Nvidia and none of the others has that name.\<close>

theorem deployment_env:
  assumes "CreateExpectedDeployment grow ab = Inr d"
  shows "\<exists>main. ps_Containers (pod_of d) = [main] \<and>
    map ev_Name (ct_Env main) =
      getSortedKeys (sp_Envs (ab_Spec ab)) @ getSortedKeys (sp_SourcedEnvs (ab_Spec ab)) @
      (if sp_UseNvidia (ab_Spec ab) = Some True \<and>
          ''NVIDIA_VISIBLE_DEVICES'' \<notin> set (getSortedKeys (sp_Envs (ab_Spec ab)) @ getSortedKeys (sp_SourcedEnvs (ab_Spec ab)))
       then [''NVIDIA_VISIBLE_DEVICES''] else [])"
  using assms
proof (rule CreateExpectedDeployment_Inr)
  fix acc ports img policy env command args
  assume env: "container_env ab = Inr env"
    and d: "dep_Spec d = deployment_spec ab (pod_spec ab (pod_volumes ab) (init_containers (final_configs grow ab acc))
      (main_container ab ports img policy env command args (final_configs grow ab acc)))"
  obtain sourced where sourced: "mapM (sourced_env ab) (getSortedKeys (sp_SourcedEnvs (ab_Spec ab))) = Inr sourced"
    and env': "env = map (env_var ab) (getSortedKeys (sp_Envs (ab_Spec ab))) @ sourced"
    using env by (auto simp: container_env_alt rbind_Inr_iff)
  have "map ev_Name sourced = map (\<lambda>k. k) (getSortedKeys (sp_SourcedEnvs (ab_Spec ab)))"
    using sourced by (rule mapM_map) (rule sourced_env_name)
  then have names: "map ev_Name env = getSortedKeys (sp_Envs (ab_Spec ab)) @ getSortedKeys (sp_SourcedEnvs (ab_Spec ab))"
    by (simp add: env' env_var_def comp_def)
  have "list_ex (\<lambda>e. ev_Name e = nvidia_env_name) env \<longleftrightarrow> nvidia_env_name \<in> set (map ev_Name env)"
    by (force simp: list_ex_iff)
  then have nvidia: "map ev_Name (nvidia_env env) = map ev_Name env @
      (if nvidia_env_name \<in> set (map ev_Name env) then [] else [nvidia_env_name])"
    by (simp add: nvidia_env_def)
  show ?thesis
    unfolding d pod_sel pt_Spec_def [symmetric]
    by (rule exI [of _ "main_container ab ports img policy env command args (final_configs grow ab acc)"])
      (simp add: uses_nvidia_def nvidia names nvidia_env_name_def del: set_getSortedKeys)
qed

lemma mget_or_same:
  assumes "same_map (entries m) (entries m')"
  shows "mget_or z m' = mget_or z m"
  by (intro ext) (simp add: mget_or_def mget_def same_mapD [OF assms])

text \<open>
  The deployment reads the maps of a bundle through their sorted keys and lookups only, and of the metadata
  its spec depends on the name only.
\<close>

lemma deployment_cong_meta:
  assumes meta: "ab_Name ab' = ab_Name ab"
    and rest: "sp_Image (ab_Spec ab') = sp_Image (ab_Spec ab)" "sp_Command (ab_Spec ab') = sp_Command (ab_Spec ab)"
      "sp_Args (ab_Spec ab') = sp_Args (ab_Spec ab)" "sp_Resources (ab_Spec ab') = sp_Resources (ab_Spec ab)"
      "sp_LivenessProbe (ab_Spec ab') = sp_LivenessProbe (ab_Spec ab)" "sp_ReadinessProbe (ab_Spec ab') = sp_ReadinessProbe (ab_Spec ab)"
      "sp_StartupProbe (ab_Spec ab') = sp_StartupProbe (ab_Spec ab)" "sp_UseNvidia (ab_Spec ab') = sp_UseNvidia (ab_Spec ab)"
      "sp_NodeSelector (ab_Spec ab') = sp_NodeSelector (ab_Spec ab)" "sp_Replicas (ab_Spec ab') = sp_Replicas (ab_Spec ab)"
    and maps: "same_map (entries (sp_Routes (ab_Spec ab))) (entries (sp_Routes (ab_Spec ab')))"
      "same_map (entries (sp_Volumes (ab_Spec ab))) (entries (sp_Volumes (ab_Spec ab')))"
      "same_map (entries (sp_Configs (ab_Spec ab))) (entries (sp_Configs (ab_Spec ab')))"
      "same_map (entries (sp_Envs (ab_Spec ab))) (entries (sp_Envs (ab_Spec ab')))"
      "same_map (entries (sp_SourcedEnvs (ab_Spec ab))) (entries (sp_SourcedEnvs (ab_Spec ab')))"
  shows "CreateExpectedDeployment grow ab' =
    rbind (CreateExpectedDeployment grow ab) (\<lambda>d. Inr (d\<lparr>dep_ObjectMeta := deployment_meta ab'\<rparr>))"
proof -
  note keys = maps [THEN getSortedKeys_same, symmetric] and looks = maps(1) [THEN mget_or_same]
    maps(2) [THEN mget_or_same] maps(3) [THEN mget_or_same] maps(4) [THEN mget_or_same] maps(5) [THEN mget_or_same]
  have vol: "volume_at ab' = volume_at ab" and cfg: "config_at ab' = config_at ab"
    by (intro ext, simp add: volume_at_def config_at_def looks)+
  have port: "container_port ab' = container_port ab" and env: "env_var ab' = env_var ab"
    and sourced: "sourced_env ab' = sourced_env ab" and mount: "volume_mount ab' = volume_mount ab"
    and cvol: "config_volume ab' = config_volume ab" and pvol: "pod_volume ab' = pod_volume ab"
    and copy: "copy_container ab' = copy_container ab"
    by (unfold container_port_def env_var_def sourced_env_def volume_mount_def mount_name_def
        config_volume_def pod_volume_def copy_container_def looks vol cfg meta) (rule refl)+
  have loop: "mount_loop grow ab' ks acc = mount_loop grow ab ks acc" for ks acc
    by (induction ks arbitrary: acc) (simp_all add: mount)
  have step: "config_step grow ab' = config_step grow ab"
    by (intro ext) (simp add: config_step_def config_mount_def cfg cvol copy)
  have fin: "final_configs grow ab' acc = final_configs grow ab acc" for acc
    by (simp add: final_configs_alt config_loop_def step keys)
  have vols: "pod_volumes ab' = pod_volumes ab" by (simp add: pod_volumes_alt keys pvol cvol)
  have cenv: "container_env ab' = container_env ab" by (simp add: container_env_alt keys env sourced)
  have nv: "uses_nvidia ab' = uses_nvidia ab" by (simp add: uses_nvidia_def rest)
  have pod: "pod_spec ab' = pod_spec ab" and spec: "deployment_spec ab' = deployment_spec ab"
    and main: "main_container ab' = main_container ab" and img: "image_ref ab' = image_ref ab"
    by (unfold pod_spec_def deployment_spec_def main_container_def image_ref_def match_labels_def
        meta rest nv) (rule refl)+
  show ?thesis
    unfolding CreateExpectedDeployment_def keys port loop fin vols cenv pod spec main img rest
    by (simp add: rbind_assoc Let_def case_prod_unfold)
qed

lemma deployment_cong:
  assumes meta: "ab_ObjectMeta ab' = ab_ObjectMeta ab" "ab_TypeMeta ab' = ab_TypeMeta ab"
    and rest: "sp_Image (ab_Spec ab') = sp_Image (ab_Spec ab)" "sp_Command (ab_Spec ab') = sp_Command (ab_Spec ab)"
      "sp_Args (ab_Spec ab') = sp_Args (ab_Spec ab)" "sp_Resources (ab_Spec ab') = sp_Resources (ab_Spec ab)"
      "sp_LivenessProbe (ab_Spec ab') = sp_LivenessProbe (ab_Spec ab)" "sp_ReadinessProbe (ab_Spec ab') = sp_ReadinessProbe (ab_Spec ab)"
      "sp_StartupProbe (ab_Spec ab') = sp_StartupProbe (ab_Spec ab)" "sp_UseNvidia (ab_Spec ab') = sp_UseNvidia (ab_Spec ab)"
      "sp_NodeSelector (ab_Spec ab') = sp_NodeSelector (ab_Spec ab)" "sp_Replicas (ab_Spec ab') = sp_Replicas (ab_Spec ab)"
    and maps: "same_map (entries (sp_Routes (ab_Spec ab))) (entries (sp_Routes (ab_Spec ab')))"
      "same_map (entries (sp_Volumes (ab_Spec ab))) (entries (sp_Volumes (ab_Spec ab')))"
      "same_map (entries (sp_Configs (ab_Spec ab))) (entries (sp_Configs (ab_Spec ab')))"
      "same_map (entries (sp_Envs (ab_Spec ab))) (entries (sp_Envs (ab_Spec ab')))"
      "same_map (entries (sp_SourcedEnvs (ab_Spec ab))) (entries (sp_SourcedEnvs (ab_Spec ab')))"
  shows "CreateExpectedDeployment grow ab' = CreateExpectedDeployment grow ab"
proof -
  have "deployment_meta ab' = deployment_meta ab"
    unfolding deployment_meta_def GetAppBundleObjectMetaWithOwnerReference_def SetDefaultAppBundleLabels_def
      own_labels_def ab_OwnerReference_def meta by (rule refl)
  moreover have "dep_ObjectMeta d = deployment_meta ab" if "CreateExpectedDeployment grow ab = Inr d" for d
    using that by (rule CreateExpectedDeployment_Inr)
  ultimately show ?thesis
    using deployment_cong_meta [OF _ rest maps, of grow] meta(1)
    by (cases "CreateExpectedDeployment grow ab") auto
qed


theorem deployment_env_witness:
  "\<exists>d main. CreateExpectedDeployment go_grow copy_bundle = Inr d \<and> ps_Containers (pod_of d) = [main] \<and> ct_Env main = []"
proof -
  obtain d where d: "CreateExpectedDeployment go_grow copy_bundle = Inr d" using copy_bundle_deployment by blast
  from deployment_env [OF d] d show ?thesis by (auto simp: copy_bundle_def)
qed


end
