(* ===== verification/DeploymentReconcile.thy ===== *)
theory DeploymentReconcile
  imports DeploymentFacts
begin

section \<open>deployment.go: the reconciliation, and what the deployment refers to\<close>

text \<open>
  \<open>ReconcileDeployment\<close> of \<open>internal/controller/deployment.go\<close>, and the contract between three
  components: the objects and keys that the expected deployment refers to are the ones that the
  expected config map and the expected external secret of the same bundle hold.
\<close>

definition blank_deployment :: "AppBundle \<Rightarrow> Deployment" where
  "blank_deployment ab = \<lparr>dep_ObjectMeta = GetAppBundleObjectMetaWithOwnerReference ab,
     dep_Spec = zero_deployment_spec\<rparr>"

definition ReconcileDeployment :: "(nat \<Rightarrow> nat) \<Rightarrow> ext \<Rightarrow> goerr option mprog" where
  "ReconcileDeployment grow E = ReadBundle (\<lambda>ab.
     with_mutex (mutex_key ''deployment'' (ab_Name ab) (ab_Namespace ab))
       (GetInto KDeployment proj_Deployment (ab_Namespace ab) (ab_Name ab) (blank_deployment ab)
        (\<lambda>currentDeployment er. ReadBundle (\<lambda>ab'.
          case CreateExpectedDeployment grow ab' of
            Inl err \<Rightarrow> Done (Some err)
          | Inr expectedDeployment \<Rightarrow>
              if \<not> ext_DeepDerivative E (AnyDeploymentSpec (dep_Spec expectedDeployment))
                    (AnyDeploymentSpec (dep_Spec currentDeployment))
              then with_reason
                (FormulateDiffMessageForSpecs E (AnyDeploymentSpec (dep_Spec currentDeployment))
                   (AnyDeploymentSpec (dep_Spec expectedDeployment)))
                (\<lambda>reason. UpsertResource (ObjDeployment expectedDeployment) reason er False)
              else if \<not> StringMapsMatch (om_Labels (dep_ObjectMeta expectedDeployment))
                         (om_Labels (dep_ObjectMeta currentDeployment))
              then with_reason
                (FormulateDiffMessageForSpecs E (AnyStringMap (om_Labels (dep_ObjectMeta currentDeployment)))
                   (AnyStringMap (om_Labels (dep_ObjectMeta expectedDeployment))))
                (\<lambda>reason. UpsertResource (ObjDeployment expectedDeployment) reason er False)
              else Done None))))"

subsection \<open>Safety\<close>

lemma deployment_meta_sel [simp]:
  "om_Name (deployment_meta ab) = ab_Name ab" "om_Namespace (deployment_meta ab) = ab_Namespace ab"
  "om_OwnerReferences (deployment_meta ab) = [ab_OwnerReference ab]"
  "om_Labels (deployment_meta ab) = Some (SetDefaultAppBundleLabels ab None)"
  by (simp_all add: deployment_meta_def)

lemma expected_deployment_meta: "CreateExpectedDeployment grow ab = Inr d \<Longrightarrow> dep_ObjectMeta d = deployment_meta ab"
  by (erule CreateExpectedDeployment_Inr)

lemma sat_ReconcileDeployment:
  "sat (frame ab0) (owned_write ab0 KDeployment {ab_Name ab0}) (\<lambda>_. True) (ReconcileDeployment grow E)"
proof -
  have own: "owned_write ab0 KDeployment {ab_Name ab0} q"
    if "agrees ab0 ab" "CreateExpectedDeployment grow ab = Inr d" "wobj q = ObjDeployment d" for ab d q
    using that(3) by (simp add: owned_write_def expected_deployment_meta [OF that(2)] agrees_simps [OF that(1)])
  show ?thesis
    unfolding ReconcileDeployment_def with_reason_def
    by (intro sat_ReadBundle sat_mutexI deployments.sat_GetInto sat_intros sat_UpsertResource)
      (auto intro: own)
qed

interpretation deployment_reconciler:
  reconciler "ReconcileDeployment grow E" ab0 "owned_write ab0 KDeployment {ab_Name ab0}"
  for grow E ab0
  by unfold_locales (rule sat_ReconcileDeployment)

subsection \<open>Properties\<close>

lemma blank_deployment_sel [simp]:
  "dep_Spec (blank_deployment ab) = zero_deployment_spec"
  "om_Labels (dep_ObjectMeta (blank_deployment ab)) = None"
  by (simp_all add: blank_deployment_def)

text \<open>Reconciling the deployment when reading it fails or finds none. An error other than not found
  is returned, and nothing is written. A missing deployment is created as expected, in one write
  whose answer is returned.\<close>

lemma deployment_created_when_missing:
  assumes "api_get A KDeployment (ab_Namespace (m_bundle m)) (ab_Name (m_bundle m)) w = (Inl e, w1)"
    and "diff_total E" and "CreateExpectedDeployment grow (m_bundle m) = Inr d"
  shows "(writes A (ReconcileDeployment grow E) w m, fst (run A (ReconcileDeployment grow E) w m)) =
    (if IsNotFound (Some e)
     then (let r = fst (api_write A (Create (ObjDeployment d)) w1) in ([(Create (ObjDeployment d), r)], r))
     else ([], Some e))"
proof -
  obtain r where r: "FormulateDiffMessageForSpecs E (AnyDeploymentSpec zero_deployment_spec)
      (AnyDeploymentSpec (dep_Spec d)) = Inr r"
    using diff_total_messages(1) [OF assms(2)] by blast
  obtain l where l: "FormulateDiffMessageForSpecs E (AnyStringMap None)
      (AnyStringMap (om_Labels (dep_ObjectMeta d))) = Inr l"
    using diff_total_messages(1) [OF assms(2)] by blast
  have labels: "om_Labels (dep_ObjectMeta d) = Some (SetDefaultAppBundleLabels (m_bundle m) None)"
    by (simp add: expected_deployment_meta [OF assms(3)])
  note simps = ReconcileDeployment_def deployments.writes_GetInto_error [OF assms(1)]
    deployments.run_GetInto_error [OF assms(1)] assms(3) r l [unfolded labels] labels labels_differ_from_none
  show ?thesis
  proof (cases "IsNotFound (Some e)")
    case True
    then show ?thesis
      by (simp add: simps writes_upsert_create run_upsert_create Let_def split: prod.split)
  next
    case False
    then show ?thesis by (simp add: simps upsert_get_error)
  qed
qed

text \<open>A reconciled deployment is a fixed point: when it exists with the expected spec and the
  expected labels, nothing is written. And when only the labels differ, exactly one update
  is sent, of the expected deployment.\<close>

lemma deployment_steady_state:
  assumes "api_get A KDeployment (ab_Namespace (m_bundle m)) (ab_Name (m_bundle m)) w = (Inr (ObjDeployment cur), w1)"
    and "diff_total E" and "CreateExpectedDeployment grow (m_bundle m) = Inr d"
    and "ext_DeepDerivative E (AnyDeploymentSpec (dep_Spec d)) (AnyDeploymentSpec (dep_Spec cur))"
    and "wf_map (entries (om_Labels (dep_ObjectMeta cur)))"
    and "fst (api_write A (Update (ObjDeployment d)) w1) = None"
  shows "writes A (ReconcileDeployment grow E) w m =
    (if \<forall>k. mget (om_Labels (dep_ObjectMeta cur)) k = map_of (SetDefaultAppBundleLabels (m_bundle m) None) k
     then [] else [(Update (ObjDeployment d), None)])"
proof -
  obtain l where l: "FormulateDiffMessageForSpecs E (AnyStringMap (om_Labels (dep_ObjectMeta cur)))
      (AnyStringMap (om_Labels (dep_ObjectMeta d))) = Inr l"
    using diff_total_messages(1) [OF assms(2)] by blast
  have labels: "om_Labels (dep_ObjectMeta d) = Some (SetDefaultAppBundleLabels (m_bundle m) None)"
    by (simp add: expected_deployment_meta [OF assms(3)])
  have match: "StringMapsMatch (Some (SetDefaultAppBundleLabels (m_bundle m) None)) (om_Labels (dep_ObjectMeta cur)) \<longleftrightarrow>
      (\<forall>k. mget (om_Labels (dep_ObjectMeta cur)) k = map_of (SetDefaultAppBundleLabels (m_bundle m) None) k)"
    using assms(5) by (simp add: StringMapsMatch_iff wf_default_labels) (metis mget_simps(2))
  obtain w2 where up: "api_write A (Update (ObjDeployment d)) w1 = (None, w2)"
    using assms(6) by (cases "api_write A (Update (ObjDeployment d)) w1") simp
  show ?thesis
    unfolding match [symmetric]
    by (simp add: ReconcileDeployment_def deployments.writes_GetInto_found [OF assms(1)] assms(3,4) labels
        l [unfolded labels] writes_upsert_update [OF up])
qed

subsection \<open>The objects the deployment refers to\<close>

lemma range_mput_nonempty: "ss \<noteq> [] \<or> m \<noteq> [] \<Longrightarrow> range_loop mput ss (m :: strmap) \<noteq> []"
proof (induction ss arbitrary: m)
  case (Cons x ss)
  then show ?case by (cases x) simp
qed simp

lemma secretsToGet_nonempty:
  assumes "(n, cfg) \<in> set (entries (sp_Configs (ab_Spec ab)))" and "entries (cfg_Secrets cfg) \<noteq> []"
  shows "secretsToGet ab \<noteq> []"
proof -
  have "range_loop cfg_secrets_body cs m \<noteq> []" if "(n, cfg) \<in> set cs \<or> m \<noteq> []" for cs m
    using that
  proof (induction cs arbitrary: m)
    case (Cons x cs)
    obtain n' c where x: "x = (n', c)" by (cases x)
    have "(n, cfg) \<in> set cs \<or> cfg_secrets_body n' c m \<noteq> []"
      using Cons.prems assms(2) range_mput_nonempty [of "entries (cfg_Secrets c)" m]
      by (auto simp: x cfg_secrets_body_def)
    then show ?case using Cons.IH by (simp add: x)
  qed simp
  then show ?thesis using assms(1) by (simp add: secretsToGet_def)
qed

lemma secretsToGet_env_nonempty:
  assumes "(k, e) \<in> set (entries (sp_SourcedEnvs (ab_Spec ab)))" and "se_ExternalSecret e \<noteq> []"
    and "wf_map (entries (sp_SourcedEnvs (ab_Spec ab)))"
  shows "secretsToGet ab \<noteq> []"
proof -
  have "mget (sp_SourcedEnvs (ab_Spec ab)) k = Some e"
    using assms(1,3) by (simp add: mget_def wf_map_def)
  from secretsToGet_env [OF this assms(2,3)] show ?thesis by auto
qed

text \<open>The external secret of a bundle, with the keys of its template.\<close>

definition provides_secret :: "AppBundle \<Rightarrow> string \<Rightarrow> string \<Rightarrow> bool" where
  "provides_secret ab name key \<longleftrightarrow> (\<exists>xs t templates.
     CreateExpectedExternalSecret ab = Inr (Some xs) \<and> eg_Name (es_Target (xs_Spec xs)) = name \<and>
     eg_Template (es_Target (xs_Spec xs)) = Some t \<and> et_Data t = Some templates \<and> map_of templates key \<noteq> None)"

definition provides_config :: "AppBundle \<Rightarrow> string \<Rightarrow> string \<Rightarrow> bool" where
  "provides_config ab name key \<longleftrightarrow> (\<exists>cm. CreateExpectedConfigMap ab = Inr (Some cm) \<and>
     om_Name (cm_ObjectMeta cm) = name \<and> mget (cm_Data cm) key \<noteq> None)"

lemma provides_secretI:
  assumes "secretsToGet ab \<noteq> []" and "sp_SecretStoreRef (ab_Spec ab) \<noteq> None"
    and "map_of (secret_templates ab) key \<noteq> None"
  shows "provides_secret ab (ab_Name ab) key"
proof -
  obtain xs where xs: "CreateExpectedExternalSecret ab = Inr (Some xs)"
    using assms(1,2) by (auto simp: CreateExpectedExternalSecret_def)
  from CreateExpectedExternalSecret_Some [OF this] this assms(3) show ?thesis
    unfolding provides_secret_def by blast
qed

lemma config_volume_resolved:
  assumes "k \<in> set (getSortedKeys (sp_Configs (ab_Spec ab)))" and "wf_map (entries (sp_Configs (ab_Spec ab)))"
    and "sp_SecretStoreRef (ab_Spec ab) \<noteq> None"
  shows "case vol_Source (config_volume ab k) of
      SecretVolumeSource name items \<Rightarrow> \<forall>i\<in>set items. provides_secret ab name (kp_Key i)
    | ConfigMapVolumeSource name items \<Rightarrow>
        (\<exists>cfg\<in>snd ` set (entries (sp_Configs (ab_Spec ab))). cfg_Existing cfg = Some name) \<or>
        (\<forall>i\<in>set items. provides_config ab name (kp_Key i))
    | _ \<Rightarrow> True"
proof -
  obtain cfg where cfg: "mget (sp_Configs (ab_Spec ab)) k = Some cfg"
    using mget_sorted_key [OF assms(1)] by blast
  then have mem: "(k, cfg) \<in> set (entries (sp_Configs (ab_Spec ab)))" and at: "config_at ab k = cfg"
    by (simp_all add: mget_def map_of_SomeD config_at_def mget_or_def)
  have sec: "provides_secret ab (ab_Name ab) (cfg_key k)" if "entries (cfg_Secrets cfg) \<noteq> []"
    using secretsToGet_nonempty [OF mem that] secret_templates_cfg [OF assms(2), of k] that
    by (intro provides_secretI assms(3)) (simp_all add: cfg)
  have cm: "provides_config ab (ab_Name ab) k" if "cfg_Existing cfg = None" "entries (cfg_Secrets cfg) = []"
  proof -
    have look: "map_of (config_data (sp_Configs (ab_Spec ab)) (getSortedKeys (sp_Configs (ab_Spec ab))) []) k = Some (cfg_Content cfg)"
      using that by (simp add: config_map_lookup cfg in_config_map_def)
    then have "config_data (sp_Configs (ab_Spec ab)) (getSortedKeys (sp_Configs (ab_Spec ab))) [] \<noteq> []" by auto
    moreover have "sp_Configs (ab_Spec ab) \<noteq> None" using mem by (cases "sp_Configs (ab_Spec ab)") simp_all
    ultimately obtain m where m: "CreateExpectedConfigMap ab = Inr (Some m)"
      by (auto simp: CreateExpectedConfigMap_def)
    from CreateExpectedConfigMap_Some [OF this] look show ?thesis
      unfolding provides_config_def by (intro exI [of _ m] conjI m) simp_all
  qed
  show ?thesis
  proof (cases "cfg_Existing cfg")
    case None
    then show ?thesis
      using sec cm by (cases "entries (cfg_Secrets cfg) = []") (simp_all add: config_volume_def at)
  next
    case (Some existing)
    then show ?thesis using mem by (auto simp: config_volume_def at intro!: bexI [of _ "(k, cfg)"])
  qed
qed

lemma sourced_env_resolved:
  assumes "sourced_env ab k = Inr v" and "k \<in> set (getSortedKeys (sp_SourcedEnvs (ab_Spec ab)))"
    and "wf_map (entries (sp_SourcedEnvs (ab_Spec ab)))" and "sp_SecretStoreRef (ab_Spec ab) \<noteq> None"
  shows "case ev_ValueFrom v of
      Some (SecretKeyRef name key) \<Rightarrow>
        (\<exists>e\<in>snd ` set (entries (sp_SourcedEnvs (ab_Spec ab))). se_Secret e = name \<and> se_Key e = key) \<or>
        provides_secret ab name key
    | _ \<Rightarrow> True"
proof -
  obtain e where e: "mget (sp_SourcedEnvs (ab_Spec ab)) k = Some e"
    using mget_sorted_key [OF assms(2)] by blast
  then have mem: "(k, e) \<in> set (entries (sp_SourcedEnvs (ab_Spec ab)))"
    and at: "mget_or zero_sourced_env (sp_SourcedEnvs (ab_Spec ab)) k = e"
    by (simp_all add: mget_def map_of_SomeD mget_or_def)
  have ext: "provides_secret ab (ab_Name ab) (env_key k)" if "se_ExternalSecret e \<noteq> []"
    using secretsToGet_env_nonempty [OF mem that assms(3)] secret_templates_env [of ab k] that
    by (intro provides_secretI assms(4)) (simp_all add: e)
  show ?thesis
    using assms(1) mem ext by (force simp: sourced_env_def at Let_def split: if_splits)
qed

lemma pod_volumes_resolved:
  assumes "v \<in> set (pod_volumes ab)" and "sp_SecretStoreRef (ab_Spec ab) \<noteq> None"
    and "wf_map (entries (sp_Configs (ab_Spec ab)))"
  shows "case vol_Source v of
      SecretVolumeSource name items \<Rightarrow> \<forall>i\<in>set items. provides_secret ab name (kp_Key i)
    | ConfigMapVolumeSource name items \<Rightarrow>
        (\<exists>cfg\<in>snd ` set (entries (sp_Configs (ab_Spec ab))). cfg_Existing cfg = Some name) \<or>
        (\<forall>i\<in>set items. provides_config ab name (kp_Key i))
    | _ \<Rightarrow> True"
proof -
  have own: "case vol_Source (pod_volume ab k) of SecretVolumeSource n i \<Rightarrow> False | ConfigMapVolumeSource n i \<Rightarrow> False | _ \<Rightarrow> True" for k
    by (simp add: pod_volume_def Let_def split: option.split)
  from assms(1) consider k where "v = pod_volume ab k" | k where "v = config_volume ab k" "k \<in> set (getSortedKeys (sp_Configs (ab_Spec ab)))"
    by (auto simp: pod_volumes_alt simp del: set_getSortedKeys)
  then show ?thesis
  proof cases
    case 1
    with own [of k] show ?thesis by (auto split: VolumeSource.splits)
  next
    case 2
    with config_volume_resolved [OF 2(2) assms(3,2)] show ?thesis by simp
  qed
qed

lemma container_env_resolved:
  assumes "container_env ab = Inr env" and "v \<in> set (if uses_nvidia ab then nvidia_env env else env)"
    and "wf_map (entries (sp_SourcedEnvs (ab_Spec ab)))" and "sp_SecretStoreRef (ab_Spec ab) \<noteq> None"
  shows "case ev_ValueFrom v of
      Some (SecretKeyRef name key) \<Rightarrow>
        (\<exists>e\<in>snd ` set (entries (sp_SourcedEnvs (ab_Spec ab))). se_Secret e = name \<and> se_Key e = key) \<or>
        provides_secret ab name key
    | _ \<Rightarrow> True"
proof -
  obtain sourced where sourced: "mapM (sourced_env ab) (getSortedKeys (sp_SourcedEnvs (ab_Spec ab))) = Inr sourced"
    and env': "env = map (env_var ab) (getSortedKeys (sp_Envs (ab_Spec ab))) @ sourced"
    using assms(1) by (auto simp: container_env_alt rbind_Inr_iff)
  have "v \<in> set sourced \<or> ev_ValueFrom v = None"
    using assms(2) by (auto simp: env' nvidia_env_def env_var_def split: if_splits)
  then show ?thesis
    using mapM_in [OF sourced] sourced_env_resolved [OF _ _ assms(3,4)] by auto
qed


definition wired_bundle :: AppBundle where
  "wired_bundle = sample_bundle ''app'' ''devel'' (zero_spec\<lparr>
     sp_Image := Some \<lparr>img_Repository = Some ''repo'', img_Tag = Some ''v1'', img_PullPolicy = None\<rparr>,
     sp_SecretStoreRef := Some ''vault'',
     sp_Configs := Some [(''main'', zero_config\<lparr>cfg_Secrets := Some [(''token'', ''vault/token'')]\<rparr>)],
     sp_SourcedEnvs := Some [(''PASS'', zero_sourced_env\<lparr>se_ExternalSecret := ''vault/pass''\<rparr>)]\<rparr>)"


end
