(* ===== verification/BaseResolution.thy ===== *)
theory BaseResolution
  imports Samples
begin

section \<open>base_controller.go and MergeDictValues: resolving the base of a bundle\<close>

text \<open>
  A bundle can name a base, which can name another. \<open>ResolveAppBundleBase\<close>
  (\<open>internal/controller/base_controller.go\<close>) converts each base of the chain to a bundle
  (\<open>ToAppBundle\<close>, \<open>api/v1alpha1/appbundlebase_types.go\<close>) and merges it into the bundle. Copying and merging structs is
  third-party code (\<open>copier\<close>, \<open>mergo\<close>), parameters in \<open>ext\<close>; what the repository adds is how maps are merged: the
  \<open>mapTransformer\<close>, which mergo calls for a map field that is not nil, and \<open>MergeDictValues\<close>
  (\<open>api/v1alpha1/appbundle_types.go\<close>), which merges two values under one key.

  The chain is followed by recursion until a base names no other, so a cyclic chain never ends:
  the model has fuel, and \<open>None\<close> is a run that has used it up. The generic helpers at the end are
  the ones on default values.
\<close>

subsection \<open>Merging the values of a map\<close>

datatype mapelem =
    ElemString string
  | ElemVolume AppBundleVolume
  | ElemConfig AppBundleConfig
  | ElemRoute AppBundleRoute
  | ElemSourcedEnv AppBundleSourcedEnv
  | ElemQuantity Quantity

fun as_string :: "mapelem \<Rightarrow> string option" where
  "as_string (ElemString x) = Some x" | "as_string _ = None"
fun as_volume :: "mapelem \<Rightarrow> AppBundleVolume option" where
  "as_volume (ElemVolume x) = Some x" | "as_volume _ = None"
fun as_config :: "mapelem \<Rightarrow> AppBundleConfig option" where
  "as_config (ElemConfig x) = Some x" | "as_config _ = None"
fun as_route :: "mapelem \<Rightarrow> AppBundleRoute option" where
  "as_route (ElemRoute x) = Some x" | "as_route _ = None"
fun as_sourced_env :: "mapelem \<Rightarrow> AppBundleSourcedEnv option" where
  "as_sourced_env (ElemSourcedEnv x) = Some x" | "as_sourced_env _ = None"
fun as_quantity :: "mapelem \<Rightarrow> Quantity option" where
  "as_quantity (ElemQuantity x) = Some x" | "as_quantity _ = None"

text \<open>A type assertion \<open>src.(T)\<close> panics on another type.\<close>

definition type_assert :: "(mapelem \<Rightarrow> 'v option) \<Rightarrow> mapelem \<Rightarrow> goerr + 'v" where
  "type_assert proj e = (case proj e of None \<Rightarrow> Inl (GoPanic ''interface conversion'') | Some v \<Rightarrow> Inr v)"

fun MergeDictValues :: "ext \<Rightarrow> mapelem \<Rightarrow> mapelem \<Rightarrow> goerr + mapelem" where
  "MergeDictValues E (ElemString dstV) src =
     (if dstV = [] then rbind (type_assert as_string src) (\<lambda>s. Inr (ElemString s)) else Inr (ElemString dstV))"
| "MergeDictValues E (ElemVolume dstV) src = rbind (type_assert as_volume src) (\<lambda>s.
     rbind (ext_MergeVolume E dstV s) (\<lambda>v. Inr (ElemVolume v)))"
| "MergeDictValues E (ElemConfig dstV) src = rbind (type_assert as_config src) (\<lambda>s.
     rbind (ext_MergeConfig E dstV s) (\<lambda>v. Inr (ElemConfig v)))"
| "MergeDictValues E (ElemRoute dstV) src = rbind (type_assert as_route src) (\<lambda>s.
     rbind (ext_MergeRoute E dstV s) (\<lambda>v. Inr (ElemRoute v)))"
| "MergeDictValues E (ElemSourcedEnv dstV) src = rbind (type_assert as_sourced_env src) (\<lambda>s.
     rbind (ext_MergeSourcedEnv E dstV s) (\<lambda>v. Inr (ElemSourcedEnv v)))"
| "MergeDictValues E (ElemQuantity dstV) src = Inl (GoPanic ''Unsupported type'')"

subsection \<open>The map transformer\<close>

text \<open>
  The loop over the sorted keys of the source. A key that the destination has, with a value of a map,
  slice or struct kind, gets the merged value; any other key gets the value of the source. The
  elements of one map have one type, given by its injection into \<open>mapelem\<close> and the projection back; \<open>mergeable\<close>
  says whether that type is a map, slice or struct.
\<close>

fun merge_keys :: "ext \<Rightarrow> ('v \<Rightarrow> mapelem) \<Rightarrow> (mapelem \<Rightarrow> 'v option) \<Rightarrow> bool \<Rightarrow>
    'v gomap \<Rightarrow> string list \<Rightarrow> 'v gomap \<Rightarrow> goerr + 'v gomap" where
  "merge_keys E wrap unwrap mergeable src [] dst = Inr dst"
| "merge_keys E wrap unwrap mergeable src (key # actualKeys) dst = (case map_of src key of
     None \<Rightarrow>
       if map_of dst key \<noteq> None \<and> mergeable then Inl (GoPanic ''call of Interface on zero Value'')
       else merge_keys E wrap unwrap mergeable src actualKeys (AList.delete key dst)
   | Some v \<Rightarrow> (case map_of dst key of
       None \<Rightarrow> merge_keys E wrap unwrap mergeable src actualKeys (mput key v dst)
     | Some exists \<Rightarrow>
         if mergeable
         then rbind (MergeDictValues E (wrap exists) (wrap v)) (\<lambda>vOut. rbind (type_assert unwrap vOut) (\<lambda>v'.
           merge_keys E wrap unwrap mergeable src actualKeys (mput key v' dst)))
         else merge_keys E wrap unwrap mergeable src actualKeys (mput key v dst)))"

text \<open>
  The contract of the elements of one map: the dynamic merge, between the injection and the type
  assertion on its result, is the merge \<open>mg\<close> of the type. The lemmas say what the loop computes, key by key.
\<close>

definition merged_value :: "('v \<Rightarrow> 'v \<Rightarrow> goerr + 'v) \<Rightarrow> 'v gomap \<Rightarrow> 'v gomap \<Rightarrow> string \<Rightarrow> goerr + 'v option" where
  "merged_value mg dst src key = (case map_of src key of
     None \<Rightarrow> Inr (map_of dst key)
   | Some v \<Rightarrow> (case map_of dst key of
       None \<Rightarrow> Inr (Some v)
     | Some exists \<Rightarrow> rbind (mg exists v) (\<lambda>v'. Inr (Some v'))))"

locale map_element =
  fixes E :: ext
    and wrap :: "'v \<Rightarrow> mapelem"
    and unwrap :: "mapelem \<Rightarrow> 'v option"
    and mergeable :: bool
    and mg :: "'v \<Rightarrow> 'v \<Rightarrow> goerr + 'v"
  assumes merge_struct: "mergeable \<Longrightarrow> rbind (MergeDictValues E (wrap x) (wrap y)) (type_assert unwrap) = mg x y"
    and merge_scalar: "\<not> mergeable \<Longrightarrow> mg x y = Inr y"
begin

lemma merge_keys_Cons:
  assumes "map_of src key = Some v"
  shows "merge_keys E wrap unwrap mergeable src (key # ks) dst =
    rbind (merged_value mg dst src key) (\<lambda>r. merge_keys E wrap unwrap mergeable src ks
      (mput key (case r of None \<Rightarrow> v | Some v' \<Rightarrow> v') dst))"
proof (cases "map_of dst key")
  case None
  with assms show ?thesis by (simp add: merged_value_def)
next
  case (Some x)
  show ?thesis
  proof (cases mergeable)
    case True
    have "rbind (MergeDictValues E (wrap x) (wrap v)) (\<lambda>vOut. rbind (type_assert unwrap vOut) c) =
        rbind (mg x v) c" for c :: "'v \<Rightarrow> goerr + 'v gomap"
      using merge_struct [OF True, of x v]
      by (cases "MergeDictValues E (wrap x) (wrap v)") (auto dest: sym)
    with assms Some True show ?thesis by (cases "mg x v") (simp_all add: merged_value_def)
  next
    case False
    with assms Some show ?thesis by (simp add: merged_value_def merge_scalar)
  qed
qed

lemma merged_value_other: "k \<noteq> key \<Longrightarrow> merged_value mg (mput key x dst) src k = merged_value mg dst src k"
  by (simp add: merged_value_def split: option.split)

lemma merged_value_absent: "k \<notin> fst ` set src \<Longrightarrow> merged_value mg dst src k = Inr (map_of dst k)"
  by (simp add: merged_value_def map_of_eq_None_iff [THEN iffD2])

lemma merge_keys_ok:
  assumes "distinct ks" and "set ks \<subseteq> fst ` set src"
    and "\<And>k. k \<in> set ks \<Longrightarrow> \<exists>r. merged_value mg dst src k = Inr r"
  shows "\<exists>m. merge_keys E wrap unwrap mergeable src ks dst = Inr m \<and>
    (\<forall>k. if k \<in> set ks then merged_value mg dst src k = Inr (map_of m k) else map_of m k = map_of dst k)"
  using assms
proof (induction ks arbitrary: dst)
  case Nil
  then show ?case by simp
next
  case (Cons key ks)
  from Cons.prems(2) obtain v where v: "map_of src key = Some v"
    by (metis insert_subset list.simps(15) map_of_eq_None_iff not_Some_eq)
  from Cons.prems(3) [of key] obtain r where r: "merged_value mg dst src key = Inr r" by auto
  define dst' where "dst' = mput key (case r of None \<Rightarrow> v | Some v' \<Rightarrow> v') dst"
  have r': "map_of dst' key = r"
    using r v by (cases "map_of dst key") (auto simp: dst'_def merged_value_def rbind_Inr_iff)
  have other: "merged_value mg dst' src k = merged_value mg dst src k" if "k \<noteq> key" for k
    using that by (simp add: dst'_def merged_value_other)
  have "\<exists>m. merge_keys E wrap unwrap mergeable src ks dst' = Inr m \<and>
    (\<forall>k. if k \<in> set ks then merged_value mg dst' src k = Inr (map_of m k) else map_of m k = map_of dst' k)"
    by (rule Cons.IH) (use Cons.prems other in \<open>auto, metis\<close>)
  then obtain m where m: "merge_keys E wrap unwrap mergeable src ks dst' = Inr m"
    and at: "\<And>k. if k \<in> set ks then merged_value mg dst' src k = Inr (map_of m k) else map_of m k = map_of dst' k"
    by blast
  have "if k \<in> set (key # ks) then merged_value mg dst src k = Inr (map_of m k) else map_of m k = map_of dst k" for k
    using at [of k] other [of k] r r' Cons.prems(1) by (cases "k = key") (auto simp: dst'_def split: if_splits)
  with m r merge_keys_Cons [OF v] show ?case by (auto simp: dst'_def simp del: merge_keys.simps)
qed

lemma merge_keys_error:
  assumes "distinct ks" and "set ks \<subseteq> fst ` set src"
    and "k \<in> set ks" and "merged_value mg dst src k = Inl e"
  shows "\<exists>e. merge_keys E wrap unwrap mergeable src ks dst = Inl e"
  using assms
proof (induction ks arbitrary: dst)
  case Nil
  then show ?case by simp
next
  case (Cons key ks)
  from Cons.prems(2) obtain v where v: "map_of src key = Some v"
    by (metis insert_subset list.simps(15) map_of_eq_None_iff not_Some_eq)
  show ?case
  proof (cases "merged_value mg dst src key")
    case (Inl err)
    with merge_keys_Cons [OF v] show ?thesis by (simp del: merge_keys.simps)
  next
    case (Inr r)
    define dst' where "dst' = mput key (case r of None \<Rightarrow> v | Some v' \<Rightarrow> v') dst"
    have "k \<noteq> key" using Inr Cons.prems(4) by auto
    then have "merged_value mg dst' src k = Inl e" "k \<in> set ks"
      using Cons.prems(3,4) by (auto simp: dst'_def merged_value_other)
    then have "\<exists>e. merge_keys E wrap unwrap mergeable src ks dst' = Inl e"
      using Cons.prems by (intro Cons.IH) auto
    with merge_keys_Cons [OF v] Inr show ?thesis by (simp add: dst'_def del: merge_keys.simps)
  qed
qed

end

definition merge_maps :: "ext \<Rightarrow> ('v \<Rightarrow> mapelem) \<Rightarrow> (mapelem \<Rightarrow> 'v option) \<Rightarrow> bool \<Rightarrow> ('v gomap \<Rightarrow> mapval) \<Rightarrow>
    'v gomap \<Rightarrow> 'v gomap \<Rightarrow> goerr + mapval" where
  "merge_maps E wrap unwrap mergeable mk dst src =
     rbind (merge_keys E wrap unwrap mergeable src (getSortedKeys (Some src)) dst) (\<lambda>m. Inr (mk m))"

context map_element begin

lemma merge_maps_ok_iff:
  assumes "wf_map src"
  shows "(\<exists>m. merge_maps E wrap unwrap mergeable mk dst src = Inr m) \<longleftrightarrow>
    (\<forall>k. \<exists>r. merged_value mg dst src k = Inr r)"
proof -
  have d: "distinct (getSortedKeys (Some src))" using assms by (simp add: distinct_getSortedKeys)
  have ks: "set (getSortedKeys (Some src)) = fst ` set src" by simp
  show ?thesis
  proof
    assume "\<exists>m. merge_maps E wrap unwrap mergeable mk dst src = Inr m"
    then have ok: "\<nexists>e. merge_keys E wrap unwrap mergeable src (getSortedKeys (Some src)) dst = Inl e"
      by (auto simp: merge_maps_def rbind_Inr_iff)
    show "\<forall>k. \<exists>r. merged_value mg dst src k = Inr r"
    proof
      fix k
      show "\<exists>r. merged_value mg dst src k = Inr r"
      proof (cases "merged_value mg dst src k")
        case (Inl e)
        then have "k \<in> fst ` set src" using merged_value_absent [of k src dst] by fastforce
        with Inl merge_keys_error [OF d _ _ Inl] ok ks show ?thesis by auto
      qed simp
    qed
  next
    assume "\<forall>k. \<exists>r. merged_value mg dst src k = Inr r"
    with merge_keys_ok [OF d, of src dst] ks
    show "\<exists>m. merge_maps E wrap unwrap mergeable mk dst src = Inr m"
      by (auto simp: merge_maps_def)
  qed
qed

lemma merge_maps_at:
  assumes "wf_map src" and "merge_maps E wrap unwrap mergeable mk dst src = Inr r"
  shows "\<exists>m. r = mk m \<and> (\<forall>k. merged_value mg dst src k = Inr (map_of m k))"
proof -
  have d: "distinct (getSortedKeys (Some src))" using assms(1) by (simp add: distinct_getSortedKeys)
  have ks: "set (getSortedKeys (Some src)) = fst ` set src" by simp
  from assms merge_maps_ok_iff [OF assms(1), of mk dst] have "\<forall>k. \<exists>r. merged_value mg dst src k = Inr r"
    by blast
  with merge_keys_ok [OF d, of src dst] ks obtain m
    where m: "merge_keys E wrap unwrap mergeable src (getSortedKeys (Some src)) dst = Inr m"
      and at: "\<And>k. if k \<in> fst ` set src then merged_value mg dst src k = Inr (map_of m k) else map_of m k = map_of dst k"
    by (metis order_refl)
  have "merged_value mg dst src k = Inr (map_of m k)" for k
    using at [of k] by (cases "k \<in> fst ` set src") (simp_all add: merged_value_absent)
  with m assms(2) show ?thesis by (auto simp: merge_maps_def)
qed

end

text \<open>The five kinds of maps of a bundle.\<close>

interpretation string_elems: map_element E ElemString as_string False "\<lambda>x y. Inr y" for E
  by unfold_locales simp_all

lemma struct_merge:
  "(\<And>v. type_assert u (w v) = Inr v) \<Longrightarrow> rbind (rbind r (\<lambda>v. Inr (w v))) (type_assert u) = r"
  by (cases r) simp_all

lemma type_assert_elems [simp]:
  "type_assert as_volume (ElemVolume v) = Inr v" "type_assert as_config (ElemConfig c) = Inr c"
  "type_assert as_route (ElemRoute r) = Inr r" "type_assert as_sourced_env (ElemSourcedEnv e) = Inr e"
  by (simp_all add: type_assert_def)

interpretation volume_elems: map_element E ElemVolume as_volume True "ext_MergeVolume E" for E
  by unfold_locales (simp_all add: struct_merge)
interpretation config_elems: map_element E ElemConfig as_config True "ext_MergeConfig E" for E
  by unfold_locales (simp_all add: struct_merge)
interpretation route_elems: map_element E ElemRoute as_route True "ext_MergeRoute E" for E
  by unfold_locales (simp_all add: struct_merge)
interpretation sourced_env_elems: map_element E ElemSourcedEnv as_sourced_env True "ext_MergeSourcedEnv E" for E
  by unfold_locales (simp_all add: struct_merge)

text \<open>
  The transformer applies to maps with string keys, so to all maps of a bundle. The keys it looks up are
  of type \<open>string\<close>; for the maps of quantities, whose key type is \<open>ResourceName\<close>, \<open>reflect\<close>
  panics at the first look-up.
\<close>

definition type_mismatch :: "goerr + mapval" where
  "type_mismatch = Inl (GoPanic ''reflect: value of another map type'')"

definition mapTransformer :: "ext \<Rightarrow> mapval \<Rightarrow> mapval \<Rightarrow> goerr + mapval" where
  "mapTransformer E dst src = (case dst of
     MapString d \<Rightarrow> (case src of
       MapString s \<Rightarrow> merge_maps E ElemString as_string False MapString d s | _ \<Rightarrow> type_mismatch)
   | MapVolume d \<Rightarrow> (case src of
       MapVolume s \<Rightarrow> merge_maps E ElemVolume as_volume True MapVolume d s | _ \<Rightarrow> type_mismatch)
   | MapConfig d \<Rightarrow> (case src of
       MapConfig s \<Rightarrow> merge_maps E ElemConfig as_config True MapConfig d s | _ \<Rightarrow> type_mismatch)
   | MapRoute d \<Rightarrow> (case src of
       MapRoute s \<Rightarrow> merge_maps E ElemRoute as_route True MapRoute d s | _ \<Rightarrow> type_mismatch)
   | MapSourcedEnv d \<Rightarrow> (case src of
       MapSourcedEnv s \<Rightarrow> merge_maps E ElemSourcedEnv as_sourced_env True MapSourcedEnv d s | _ \<Rightarrow> type_mismatch)
   | MapQuantity d \<Rightarrow> (case src of
       MapQuantity s \<Rightarrow>
         if s = [] then Inr (MapQuantity d)
         else Inl (GoPanic ''value of type string is not assignable to type ResourceName'')
     | _ \<Rightarrow> type_mismatch))"

subsection \<open>Resolving the chain of bases\<close>

definition ToAppBundle :: "ext \<Rightarrow> AppBundleBase \<Rightarrow> goerr + AppBundle" where
  "ToAppBundle E abb = rbind (ext_CopyToAppBundle E abb) (\<lambda>ab.
     Inr (ab\<lparr>ab_TypeMeta := (ab_TypeMeta ab)\<lparr>tm_Kind := ''AppBundle''\<rparr>\<rparr>))"

definition merge_base :: "ext \<Rightarrow> AppBundle \<Rightarrow> AppBundleBase \<Rightarrow> goerr + AppBundle" where
  "merge_base E ab abb = rbind (ToAppBundle E abb) (ext_MergeBundle E (mapTransformer E) ab)"

fun ResolveAppBundleBase :: "nat \<Rightarrow> ext \<Rightarrow> AppBundle \<Rightarrow> AppBundleBase \<Rightarrow> ('s, (goerr + AppBundle) option) prog"
where
  "ResolveAppBundleBase 0 E ab abb = Done None"
| "ResolveAppBundleBase (Suc n) E ab abb = (case merge_base E ab abb of
     Inl err \<Rightarrow> Done (Some (Inl err))
   | Inr ab' \<Rightarrow> (case bs_Base (abb_Spec abb) of
       None \<Rightarrow> Done (Some (Inr ab'))
     | Some base \<Rightarrow> GetInto KAppBundleBase proj_AppBundleBase [] base
         (zero_base\<lparr>abb_ObjectMeta := zero_meta\<lparr>om_Name := base\<rparr>\<rparr>)
         (\<lambda>newAbb er. if er \<noteq> None then Done (Some (Inr ab')) else ResolveAppBundleBase n E ab' newAbb)))"

subsection \<open>Default values\<close>

definition IsDefault :: "'t \<Rightarrow> 't \<Rightarrow> bool" where
  "IsDefault defaultValue value \<longleftrightarrow> value = defaultValue"

definition SetDefault :: "'t \<Rightarrow> 't \<Rightarrow> 't" where
  "SetDefault defaultValue value = defaultValue"

fun ReturnFirstNonDefault :: "'t \<Rightarrow> 't list \<Rightarrow> 't" where
  "ReturnFirstNonDefault defaultValue [] = defaultValue"
| "ReturnFirstNonDefault defaultValue (e # elem) =
     (if \<not> IsDefault defaultValue e then e else ReturnFirstNonDefault defaultValue elem)"

subsection \<open>What a merged bundle holds\<close>

text \<open>
  What the merge relies on, from the documentation of the two libraries. \<open>copier\<close> copies fields of the same
  name. \<open>mergo\<close> with a transformer hands a map field that is not nil in the destination to the transformer and stores the
  map it returns; a nil map is filled with the entries of the source.
\<close>

definition copies_field :: "(AppBundleSpec \<Rightarrow> 'v gomap option) \<Rightarrow> (AppBundleBaseSpec \<Rightarrow> 'v gomap option) \<Rightarrow> ext \<Rightarrow> bool" where
  "copies_field sel bsel E \<longleftrightarrow>
     (\<forall>abb ab. ext_CopyToAppBundle E abb = Inr ab \<longrightarrow> sel (ab_Spec ab) = bsel (abb_Spec abb))"

definition merges_field :: "(AppBundleSpec \<Rightarrow> 'v gomap option) \<Rightarrow> ('v gomap \<Rightarrow> mapval) \<Rightarrow> ext \<Rightarrow> bool" where
  "merges_field sel mk E \<longleftrightarrow> (\<forall>T dst src out. ext_MergeBundle E T dst src = Inr out \<longrightarrow>
     (case sel (ab_Spec dst) of
        None \<Rightarrow> mget (sel (ab_Spec out)) = mget (sel (ab_Spec src))
      | Some d \<Rightarrow> (\<exists>m. T (mk d) (mk (entries (sel (ab_Spec src)))) = Inr (mk m) \<and> sel (ab_Spec out) = Some m)))"

definition copies_maps :: "ext \<Rightarrow> bool" where
  "copies_maps E \<longleftrightarrow> copies_field sp_Envs bs_Envs E \<and> copies_field sp_Routes bs_Routes E \<and>
     copies_field sp_Volumes bs_Volumes E \<and> copies_field sp_Configs bs_Configs E \<and>
     copies_field sp_SourcedEnvs bs_SourcedEnvs E"

definition merges_maps :: "ext \<Rightarrow> bool" where
  "merges_maps E \<longleftrightarrow> merges_field sp_Envs MapString E \<and> merges_field sp_Routes MapRoute E \<and>
     merges_field sp_Volumes MapVolume E \<and> merges_field sp_Configs MapConfig E \<and>
     merges_field sp_SourcedEnvs MapSourcedEnv E"

lemma merge_base_Inr:
  "merge_base E ab abb = Inr out \<longleftrightarrow>
    (\<exists>src. ToAppBundle E abb = Inr src \<and> ext_MergeBundle E (mapTransformer E) ab src = Inr out)"
  by (simp add: merge_base_def rbind_Inr_iff)

lemma ToAppBundle_spec:
  "ToAppBundle E abb = Inr src \<Longrightarrow> \<exists>ab. ext_CopyToAppBundle E abb = Inr ab \<and> ab_Spec src = ab_Spec ab"
  by (auto simp: ToAppBundle_def rbind_Inr_iff)

lemma map_of_entries: "map_of (entries m) k = mget m k"
  by (simp add: mget_def)

context map_element begin

text \<open>One map field of the merged bundle, key by key.\<close>

lemma merged_field:
  assumes "copies_field sel bsel E" and "merges_field sel mk E" and "merge_base E ab abb = Inr out"
    and T: "\<And>d s. mapTransformer E (mk d) (mk s) = merge_maps E wrap unwrap mergeable mk d s"
    and inj: "\<And>m m'. mk m = mk m' \<Longrightarrow> m = m'"
    and wf: "wf_map (entries (bsel (abb_Spec abb)))"
  shows "merged_value mg (entries (sel (ab_Spec ab))) (entries (bsel (abb_Spec abb))) k = Inr (mget (sel (ab_Spec out)) k)"
proof -
  from assms(3) obtain src where src: "ToAppBundle E abb = Inr src"
    and out: "ext_MergeBundle E (mapTransformer E) ab src = Inr out"
    by (auto simp: merge_base_Inr)
  from ToAppBundle_spec [OF src] assms(1) have s: "sel (ab_Spec src) = bsel (abb_Spec abb)"
    by (auto simp: copies_field_def)
  show ?thesis
  proof (cases "sel (ab_Spec ab)")
    case None
    have "mget (sel (ab_Spec out)) = mget (bsel (abb_Spec abb))"
      using assms(2) [unfolded merges_field_def, rule_format, OF out] None s by simp
    with None show ?thesis
      by (cases "mget (bsel (abb_Spec abb)) k") (simp_all add: merged_value_def map_of_entries)
  next
    case (Some d)
    have "\<exists>m. mapTransformer E (mk d) (mk (entries (bsel (abb_Spec abb)))) = Inr (mk m) \<and> sel (ab_Spec out) = Some m"
      using assms(2) [unfolded merges_field_def, rule_format, OF out] Some s by simp
    then obtain m where m: "mapTransformer E (mk d) (mk (entries (bsel (abb_Spec abb)))) = Inr (mk m)"
      and so: "sel (ab_Spec out) = Some m" by blast
    from merge_maps_at [OF wf m [unfolded T]] obtain m' where "mk m = mk m'"
      and at: "\<And>k. merged_value mg d (entries (bsel (abb_Spec abb))) k = Inr (map_of m' k)" by blast
    then have "m' = m" by (metis inj)
    with at [of k] Some so show ?thesis by simp
  qed
qed

end

lemma mapTransformer_simps [simp]:
  "mapTransformer E (MapString d) (MapString s) = merge_maps E ElemString as_string False MapString d s"
  "mapTransformer E (MapVolume vd) (MapVolume vs) = merge_maps E ElemVolume as_volume True MapVolume vd vs"
  "mapTransformer E (MapConfig cd) (MapConfig cs) = merge_maps E ElemConfig as_config True MapConfig cd cs"
  "mapTransformer E (MapRoute rd) (MapRoute rs) = merge_maps E ElemRoute as_route True MapRoute rd rs"
  "mapTransformer E (MapSourcedEnv ed) (MapSourcedEnv es) =
    merge_maps E ElemSourcedEnv as_sourced_env True MapSourcedEnv ed es"
  by (simp_all add: mapTransformer_def)

text \<open>C9.
  Resolving a base makes the base's plain environment variables win: in the merged bundle a variable that the base
  defines has the base's value, even when the bundle sets it, and the bundle's value counts only for variables the base
  does not define. The map transformer overwrites every entry whose kind is not a map, slice or struct, so the case for strings of
  \<open>MergeDictValues\<close>, which keeps the value of the bundle, is never reached; every other field of a bundle takes precedence over its base.
\<close>

theorem base_overrides_environment:
  assumes "copies_maps E" and "merges_maps E" and "merge_base E ab abb = Inr out"
    and "wf_map (entries (bs_Envs (abb_Spec abb)))"
  shows "mget (sp_Envs (ab_Spec out)) k = (case mget (bs_Envs (abb_Spec abb)) k of
      Some v \<Rightarrow> Some v
    | None \<Rightarrow> mget (sp_Envs (ab_Spec ab)) k)"
  using string_elems.merged_field [OF _ _ assms(3), of sp_Envs bs_Envs MapString k] assms
  by (auto simp: copies_maps_def merges_maps_def merged_value_def map_of_entries split: option.splits)

text \<open>C30.
  The maps of structs of a bundle (routes, volumes, configs, sourced variables) are merged by key with those of its base: the merged map
  has exactly the keys of the two, a key of one of them keeps its value, and the values of a shared key are
  merged field by field with \<open>mergo\<close> (\<open>merged_value\<close>), the bundle's being the destination; in particular that merge succeeded for every shared key.
\<close>

theorem struct_maps_merged:
  assumes "copies_maps E" and "merges_maps E" and "merge_base E ab abb = Inr out"
    and "wf_map (entries (bs_Routes (abb_Spec abb)))" and "wf_map (entries (bs_Volumes (abb_Spec abb)))"
    and "wf_map (entries (bs_Configs (abb_Spec abb)))" and "wf_map (entries (bs_SourcedEnvs (abb_Spec abb)))"
  shows "Inr (mget (sp_Routes (ab_Spec out)) k) =
      merged_value (ext_MergeRoute E) (entries (sp_Routes (ab_Spec ab))) (entries (bs_Routes (abb_Spec abb))) k \<and>
    Inr (mget (sp_Volumes (ab_Spec out)) k) =
      merged_value (ext_MergeVolume E) (entries (sp_Volumes (ab_Spec ab))) (entries (bs_Volumes (abb_Spec abb))) k \<and>
    Inr (mget (sp_Configs (ab_Spec out)) k) =
      merged_value (ext_MergeConfig E) (entries (sp_Configs (ab_Spec ab))) (entries (bs_Configs (abb_Spec abb))) k \<and>
    Inr (mget (sp_SourcedEnvs (ab_Spec out)) k) =
      merged_value (ext_MergeSourcedEnv E) (entries (sp_SourcedEnvs (ab_Spec ab))) (entries (bs_SourcedEnvs (abb_Spec abb))) k"
  using assms(1,2) unfolding copies_maps_def merges_maps_def
  by (elim conjE, intro conjI sym [OF route_elems.merged_field [where mk = MapRoute, OF _ _ assms(3)]]
      sym [OF volume_elems.merged_field [where mk = MapVolume, OF _ _ assms(3)]]
      sym [OF config_elems.merged_field [where mk = MapConfig, OF _ _ assms(3)]]
      sym [OF sourced_env_elems.merged_field [where mk = MapSourcedEnv, OF _ _ assms(3)]])
    (simp_all only: assms(4-7) mapTransformer_simps mapval.inject)

text \<open>Copying and merging functions that behave as documented on the maps of a bundle.\<close>

fun sample_merge_field :: "('v gomap \<Rightarrow> mapval) \<Rightarrow> (mapval \<Rightarrow> 'v gomap option) \<Rightarrow> (mapval \<Rightarrow> mapval \<Rightarrow> goerr + mapval) \<Rightarrow>
    'v gomap option \<Rightarrow> 'v gomap option \<Rightarrow> goerr + 'v gomap option" where
  "sample_merge_field mk un T None s = Inr s"
| "sample_merge_field mk un T (Some d) s = rbind (T (mk d) (mk (entries s))) (\<lambda>r. case un r of
     Some m \<Rightarrow> Inr (Some m) | None \<Rightarrow> Inl (GoPanic ''reflect.Set''))"

fun un_MapString where "un_MapString (MapString m) = Some m" | "un_MapString _ = None"
fun un_MapRoute where "un_MapRoute (MapRoute m) = Some m" | "un_MapRoute _ = None"
fun un_MapVolume where "un_MapVolume (MapVolume m) = Some m" | "un_MapVolume _ = None"
fun un_MapConfig where "un_MapConfig (MapConfig m) = Some m" | "un_MapConfig _ = None"
fun un_MapSourcedEnv where "un_MapSourcedEnv (MapSourcedEnv m) = Some m" | "un_MapSourcedEnv _ = None"

definition sample_copy :: "AppBundleBase \<Rightarrow> goerr + AppBundle" where
  "sample_copy abb = Inr (zero_bundle\<lparr>ab_Spec := zero_spec\<lparr>sp_Envs := bs_Envs (abb_Spec abb),
     sp_Routes := bs_Routes (abb_Spec abb), sp_Volumes := bs_Volumes (abb_Spec abb),
     sp_Configs := bs_Configs (abb_Spec abb), sp_SourcedEnvs := bs_SourcedEnvs (abb_Spec abb)\<rparr>\<rparr>)"

definition sample_merge :: "(mapval \<Rightarrow> mapval \<Rightarrow> goerr + mapval) \<Rightarrow> AppBundle \<Rightarrow> AppBundle \<Rightarrow> goerr + AppBundle" where
  "sample_merge T dst src = (let d = ab_Spec dst; s = ab_Spec src in
     rbind (sample_merge_field MapString un_MapString T (sp_Envs d) (sp_Envs s)) (\<lambda>envs.
     rbind (sample_merge_field MapRoute un_MapRoute T (sp_Routes d) (sp_Routes s)) (\<lambda>routes.
     rbind (sample_merge_field MapVolume un_MapVolume T (sp_Volumes d) (sp_Volumes s)) (\<lambda>volumes.
     rbind (sample_merge_field MapConfig un_MapConfig T (sp_Configs d) (sp_Configs s)) (\<lambda>configs.
     rbind (sample_merge_field MapSourcedEnv un_MapSourcedEnv T (sp_SourcedEnvs d) (sp_SourcedEnvs s)) (\<lambda>sourced.
       Inr (dst\<lparr>ab_Spec := d\<lparr>sp_Envs := envs, sp_Routes := routes, sp_Volumes := volumes, sp_Configs := configs,
         sp_SourcedEnvs := sourced\<rparr>\<rparr>)))))))"

definition merging_ext :: ext where
  "merging_ext = sample_ext\<lparr>ext_CopyToAppBundle := sample_copy, ext_MergeBundle := sample_merge\<rparr>"

lemma sample_merge_field_documented:
  assumes "sample_merge_field mk un T d s = Inr r" and "\<And>x m. un x = Some m \<longleftrightarrow> x = mk m"
  shows "case d of None \<Rightarrow> mget r = mget s | Some m \<Rightarrow> \<exists>m'. T (mk m) (mk (entries s)) = Inr (mk m') \<and> r = Some m'"
  using assms by (cases d) (auto simp: rbind_Inr_iff split: option.splits)

lemma un_map_iff:
  "un_MapString x = Some ms \<longleftrightarrow> x = MapString ms" "un_MapRoute x = Some mr \<longleftrightarrow> x = MapRoute mr"
  "un_MapVolume x = Some mv \<longleftrightarrow> x = MapVolume mv" "un_MapConfig x = Some mc \<longleftrightarrow> x = MapConfig mc"
  "un_MapSourcedEnv x = Some me \<longleftrightarrow> x = MapSourcedEnv me"
  by (cases x, simp_all)+

lemma sample_merge_fields:
  assumes "sample_merge T dst src = Inr out"
  shows "sample_merge_field MapString un_MapString T (sp_Envs (ab_Spec dst)) (sp_Envs (ab_Spec src)) = Inr (sp_Envs (ab_Spec out))"
    and "sample_merge_field MapRoute un_MapRoute T (sp_Routes (ab_Spec dst)) (sp_Routes (ab_Spec src)) = Inr (sp_Routes (ab_Spec out))"
    and "sample_merge_field MapVolume un_MapVolume T (sp_Volumes (ab_Spec dst)) (sp_Volumes (ab_Spec src)) = Inr (sp_Volumes (ab_Spec out))"
    and "sample_merge_field MapConfig un_MapConfig T (sp_Configs (ab_Spec dst)) (sp_Configs (ab_Spec src)) = Inr (sp_Configs (ab_Spec out))"
    and "sample_merge_field MapSourcedEnv un_MapSourcedEnv T (sp_SourcedEnvs (ab_Spec dst)) (sp_SourcedEnvs (ab_Spec src)) =
      Inr (sp_SourcedEnvs (ab_Spec out))"
  using assms by (auto simp: sample_merge_def Let_def rbind_Inr_iff)

lemma merging_ext_copies: "copies_maps merging_ext"
  by (simp add: copies_maps_def copies_field_def merging_ext_def sample_copy_def)

lemma merging_ext_merge: "ext_MergeBundle merging_ext = sample_merge"
  by (simp add: merging_ext_def)

lemma merging_ext_merges: "merges_maps merging_ext"
  unfolding merges_maps_def merges_field_def merging_ext_merge
  by (intro conjI allI impI)
    (erule sample_merge_field_documented [OF sample_merge_fields (1) un_map_iff (1)]
      sample_merge_field_documented [OF sample_merge_fields (2) un_map_iff (2)]
      sample_merge_field_documented [OF sample_merge_fields (3) un_map_iff (3)]
      sample_merge_field_documented [OF sample_merge_fields (4) un_map_iff (4)]
      sample_merge_field_documented [OF sample_merge_fields (5) un_map_iff (5)])+

text \<open>A bundle and a base that set the same variable.\<close>

definition sample_volume :: "string \<Rightarrow> AppBundleVolume" where
  "sample_volume p = \<lparr>av_HostPath = None, av_EmptyDir = None, av_Path = Some p, av_Size = None,
     av_StorageClass = None, av_ExistingClaim = None, av_Backup = None\<rparr>"

definition env_bundle :: AppBundle where
  "env_bundle = sample_bundle ''app'' ''prod'' (zero_spec\<lparr>sp_Envs := Some [(''LEVEL'', ''debug'')],
     sp_Volumes := Some [(''data'', sample_volume ''/data'')]\<rparr>)"

definition env_base :: AppBundleBase where
  "env_base = zero_base\<lparr>abb_Spec := zero_base_spec\<lparr>bs_Envs := Some [(''LEVEL'', ''info'')],
     bs_Volumes := Some [(''data'', sample_volume ''/base''), (''logs'', sample_volume ''/logs'')]\<rparr>\<rparr>"

lemma env_base_sel [simp]:
  "bs_Envs (abb_Spec env_base) = Some [(''LEVEL'', ''info'')]"
  "bs_Routes (abb_Spec env_base) = None"
  "bs_Volumes (abb_Spec env_base) = Some [(''data'', sample_volume ''/base''), (''logs'', sample_volume ''/logs'')]"
  "bs_Configs (abb_Spec env_base) = None" "bs_SourcedEnvs (abb_Spec env_base) = None"
  by (simp_all add: env_base_def zero_base_def zero_base_spec_def)

lemma env_merge: "\<exists>out. merge_base merging_ext env_bundle env_base = Inr out"
  by (simp add: merge_base_def ToAppBundle_def merging_ext_def sample_copy_def sample_merge_def env_bundle_def
      merge_maps_def getSortedKeys_def mkeys_def sample_ext_def type_assert_def)

theorem base_overrides_environment_witness:
  "\<exists>out. merge_base merging_ext env_bundle env_base = Inr out \<and> mget (sp_Envs (ab_Spec out)) ''LEVEL'' = Some ''info''"
proof -
  from env_merge obtain out where out: "merge_base merging_ext env_bundle env_base = Inr out" by blast
  have "mget (sp_Envs (ab_Spec out)) ''LEVEL'' = Some ''info''"
    by (subst base_overrides_environment [OF merging_ext_copies merging_ext_merges out]) (simp_all add: wf_map_def)
  with out show ?thesis by blast
qed

theorem struct_maps_merged_witness:
  "\<exists>out. merge_base merging_ext env_bundle env_base = Inr out \<and>
    mget (sp_Volumes (ab_Spec out)) ''data'' = Some (sample_volume ''/data'') \<and>
    mget (sp_Volumes (ab_Spec out)) ''logs'' = Some (sample_volume ''/logs'')"
proof -
  from env_merge obtain out where out: "merge_base merging_ext env_bundle env_base = Inr out" by blast
  have "Inr (mget (sp_Volumes (ab_Spec out)) k) = merged_value (ext_MergeVolume merging_ext)
      (entries (sp_Volumes (ab_Spec env_bundle))) (entries (bs_Volumes (abb_Spec env_base))) k" for k
    using struct_maps_merged [OF merging_ext_copies merging_ext_merges out, of k] by (simp add: wf_map_def)
  from this [of "''data''"] this [of "''logs''"] out show ?thesis
    by (simp add: merged_value_def env_bundle_def merging_ext_def sample_ext_def)
qed

end
