(* ===== verification/BaseChain.thy ===== *)
theory BaseChain
  imports BaseResolution
begin

section \<open>Following the chain of bases\<close>

text \<open>
  What \<open>ResolveAppBundleBase\<close> of \<open>internal/controller/base_controller.go\<close> computes along the chain of bases. On a
  chain that ends it is the left fold of \<open>merge_base\<close> over the chain, the reference definition \<open>fold_bases\<close>, and as much fuel as the
  chain has bases is enough; a run that returns does not depend on the fuel; a chain that runs into a cycle is followed for
  ever. The function never writes to the cluster.
\<close>

fun fold_bases :: "ext \<Rightarrow> AppBundle \<Rightarrow> AppBundleBase list \<Rightarrow> goerr + AppBundle" where
  "fold_bases E ab [] = Inr ab"
| "fold_bases E ab (abb # abbs) = rbind (merge_base E ab abb) (\<lambda>ab'. fold_bases E ab' abbs)"

text \<open>The client answers the look-up of the base of \<open>abb\<close> with the first of \<open>abbs\<close>, and so on; the last has no base.\<close>

fun base_chain :: "'w api \<Rightarrow> 'w \<Rightarrow> AppBundleBase \<Rightarrow> AppBundleBase list \<Rightarrow> bool" where
  "base_chain A w abb [] \<longleftrightarrow> bs_Base (abb_Spec abb) = None"
| "base_chain A w abb (b # abbs) \<longleftrightarrow> (case bs_Base (abb_Spec abb) of
     None \<Rightarrow> False
   | Some n \<Rightarrow> api_get A KAppBundleBase [] n w = (Inr (ObjAppBundleBase b), w) \<and> base_chain A w b abbs)"

lemma run_resolve_Suc:
  "run A (ResolveAppBundleBase (Suc n) E ab abb) w s = (case merge_base E ab abb of
     Inl err \<Rightarrow> (Some (Inl err), w, s)
   | Inr ab' \<Rightarrow> (case bs_Base (abb_Spec abb) of
       None \<Rightarrow> (Some (Inr ab'), w, s)
     | Some base \<Rightarrow> run A (GetInto KAppBundleBase proj_AppBundleBase [] base
         (zero_base\<lparr>abb_ObjectMeta := zero_meta\<lparr>om_Name := base\<rparr>\<rparr>)
         (\<lambda>newAbb er. if er \<noteq> None then Done (Some (Inr ab')) else ResolveAppBundleBase n E ab' newAbb)) w s))"
  by (simp split: sum.split option.split)

text \<open>Resolving a base neither writes to the cluster nor touches the shared memory.\<close>

lemma sat_resolve: "(\<And>r. Q r) \<Longrightarrow> sat I P Q (ResolveAppBundleBase n E ab abb)"
proof (induction n arbitrary: ab abb)
  case 0
  then show ?case by simp
next
  case (Suc n)
  then show ?case
    by (auto intro!: sat_case_sum sat_case_option bases.sat_GetInto)
qed

lemma run_resolve_mono:
  assumes "run A (ResolveAppBundleBase n E ab abb) w s = (Some r, w', s')" and "n \<le> m"
  shows "run A (ResolveAppBundleBase m E ab abb) w s = (Some r, w', s')"
  using assms
proof (induction n arbitrary: ab abb w m)
  case 0
  then show ?case by simp
next
  case (Suc n)
  from Suc.prems(2) obtain m' where m: "m = Suc m'" "n \<le> m'" by (cases m) auto
  have step: "run A (ResolveAppBundleBase n E ab' b) v s = (Some r, w', s') \<Longrightarrow>
      run A (ResolveAppBundleBase m' E ab' b) v s = (Some r, w', s')" for ab' b v
    using Suc.IH [OF _ m(2)] by blast
  show ?case
    using Suc.prems(1) unfolding m(1) run_resolve_Suc
    by (auto simp: GetInto_def split: sum.splits option.splits prod.splits dest: step)
qed

text \<open>C7.
  On a chain of bases that ends, \<open>ResolveAppBundleBase\<close> returns once it may recurse as often as the chain has bases,
  and its result is the reference definition: the bases merged into the bundle one after the other, from the nearest to
  the farthest, up to the first merge that fails, whose error is returned. Neither the cluster nor the shared memory changes.
\<close>

theorem base_chain_resolved:
  assumes "base_chain A w abb abbs" and "length abbs < n"
  shows "run A (ResolveAppBundleBase n E ab abb) w s = (Some (fold_bases E ab (abb # abbs)), w, s)"
  using assms
proof (induction abbs arbitrary: n ab abb)
  case Nil
  then obtain n' where "n = Suc n'" by (cases n) auto
  with Nil show ?case unfolding \<open>n = Suc n'\<close> run_resolve_Suc by (cases "merge_base E ab abb") simp_all
next
  case (Cons b abbs)
  then obtain n' base where n: "n = Suc n'" and base: "bs_Base (abb_Spec abb) = Some base"
    and got: "api_get A KAppBundleBase [] base w = (Inr (ObjAppBundleBase b), w)" "base_chain A w b abbs"
    by (cases n) (auto split: option.splits)
  show ?case
  proof (cases "merge_base E ab abb")
    case (Inl e)
    then show ?thesis by (simp add: n)
  next
    case (Inr ab')
    with Cons.IH [OF got(2), of n' ab'] Cons.prems(2) n base show ?thesis
      by (simp add: bases.run_GetInto_found [OF got(1)])
  qed
qed

text \<open>A set of bases in which every base names one of the set: a cycle, and the chains that lead into it.\<close>

definition base_cycle :: "'w api \<Rightarrow> 'w \<Rightarrow> AppBundleBase set \<Rightarrow> bool" where
  "base_cycle A w B \<longleftrightarrow> (\<forall>abb\<in>B. \<exists>n b. bs_Base (abb_Spec abb) = Some n \<and>
     api_get A KAppBundleBase [] n w = (Inr (ObjAppBundleBase b), w) \<and> b \<in> B)"

text \<open>C8.
  A cycle of bases is followed for ever: if every base of a set names a base of that set, and merging them does not fail, then
  \<open>ResolveAppBundleBase\<close> returns for no depth of the recursion. A base that names itself is enough. The caller holds the mutex of the
  bundle, so the reconciliation of that bundle, and of its base, is stuck.
\<close>

theorem base_cycle_never_resolved:
  assumes "base_cycle A w B" and "abb \<in> B"
    and "\<And>ab abb. abb \<in> B \<Longrightarrow> \<exists>ab'. merge_base E ab abb = Inr ab'"
  shows "fst (run A (ResolveAppBundleBase n E ab abb) w s) = None"
  using assms(2)
proof (induction n arbitrary: ab abb)
  case 0
  then show ?case by simp
next
  case (Suc n)
  from assms(1) Suc.prems obtain base b where "bs_Base (abb_Spec abb) = Some base"
    and got: "api_get A KAppBundleBase [] base w = (Inr (ObjAppBundleBase b), w)" and "b \<in> B"
    unfolding base_cycle_def by blast
  moreover obtain ab' where "merge_base E ab abb = Inr ab'" using assms(3) [OF Suc.prems] by blast
  ultimately show ?case using Suc.IH [of b ab'] by (simp add: bases.run_GetInto_found [OF got])
qed

text \<open>C31.
  A base whose own base cannot be read, because it is missing or the API server fails, is treated as if it were the last: the
  error of \<open>Get\<close> is discarded (the code returns the earlier, nil, \<open>err\<close>), so the caller gets a bundle that lacks everything
  the rest of the chain defines, and no error.
\<close>

theorem missing_base_swallowed:
  assumes "merge_base E ab abb = Inr ab'" and "bs_Base (abb_Spec abb) = Some base"
    and "api_get A KAppBundleBase [] base w = (Inl e, w')"
  shows "run A (ResolveAppBundleBase (Suc n) E ab abb) w s = (Some (Inr ab'), w', s)"
  using assms(1,2) by (simp add: bases.run_GetInto_error [OF assms(3)])

text \<open>Concrete chains: one that ends, one that is a cycle of one base, one with a missing base.\<close>

definition named_base :: "string \<Rightarrow> string option \<Rightarrow> AppBundleBase" where
  "named_base n b = zero_base\<lparr>abb_ObjectMeta := sample_meta n [], abb_Spec := zero_base_spec\<lparr>bs_Base := b\<rparr>\<rparr>"

lemma named_base_sel [simp]:
  "bs_Base (abb_Spec (named_base n b)) = b" "abb_ObjectMeta (named_base n b) = sample_meta n []"
  by (simp_all add: named_base_def)

lemma sample_merge_base: "\<exists>ab'. merge_base sample_ext ab abb = Inr ab'"
  by (simp add: merge_base_def ToAppBundle_def sample_ext_def)

definition sample_bases :: store where
  "sample_bases = [ObjAppBundleBase (named_base ''web'' (Some ''common'')), ObjAppBundleBase (named_base ''common'' None),
     ObjAppBundleBase (named_base ''loop'' (Some ''loop''))]"

lemma get_sample_bases:
  "api_get store_api KAppBundleBase [] ''common'' sample_bases = (Inr (ObjAppBundleBase (named_base ''common'' None)), sample_bases)"
  "api_get store_api KAppBundleBase [] ''loop'' sample_bases =
    (Inr (ObjAppBundleBase (named_base ''loop'' (Some ''loop''))), sample_bases)"
  "api_get store_api KAppBundleBase [] ''gone'' sample_bases = (Inl not_found, sample_bases)"
  by (simp_all add: sample_bases_def same_object_def)

theorem base_chain_resolved_witness:
  "run store_api (ResolveAppBundleBase 2 sample_ext zero_bundle (named_base ''web'' (Some ''common''))) sample_bases (sample_mem zero_bundle) =
    (Some (fold_bases sample_ext zero_bundle [named_base ''web'' (Some ''common''), named_base ''common'' None]),
     sample_bases, sample_mem zero_bundle)"
  by (rule base_chain_resolved) (simp_all add: get_sample_bases del: store_api_sel)

theorem base_cycle_never_resolved_witness:
  "fst (run store_api (ResolveAppBundleBase 1000 sample_ext zero_bundle (named_base ''loop'' (Some ''loop''))) sample_bases
    (sample_mem zero_bundle)) = None"
  by (rule base_cycle_never_resolved [where B = "{named_base ''loop'' (Some ''loop'')}"])
    (simp_all add: base_cycle_def get_sample_bases sample_merge_base del: store_api_sel)

theorem missing_base_swallowed_witness:
  "\<exists>ab'. run store_api (ResolveAppBundleBase (Suc 5) sample_ext zero_bundle (named_base ''web'' (Some ''gone''))) sample_bases
    (sample_mem zero_bundle) = (Some (Inr ab'), sample_bases, sample_mem zero_bundle)"
proof -
  obtain ab' where ab': "merge_base sample_ext zero_bundle (named_base ''web'' (Some ''gone'')) = Inr ab'"
    using sample_merge_base by blast
  show ?thesis by (rule exI) (rule missing_base_swallowed [OF ab' named_base_sel(1) get_sample_bases(3)])
qed

end
