(* ===== verification/Concurrency.thy ===== *)
theory Concurrency
  imports Program
begin

section \<open>RunReconciles: goroutines and their interleavings\<close>

text \<open>
  \<open>RunReconciles\<close> of \<open>internal/controller/helpers.go\<close> starts one goroutine per reconcile function in an error group and waits for all of
  them; the group keeps the first error. A goroutine is an effect tree; the scheduler of the runtime picks the
  goroutine that performs the next effect. Its choices are a list of indices (\<open>sched\<close>), a parameter: index
  \<open>i\<close> lets the \<open>i\<close>-th of the goroutines still running perform one effect, or return if it has none left. When
  the list is used up the rest runs in order, so a finite interleaving is the list of its choices and every list ends.
  Locks do not block here, so the schedules include all those that locks allow; what locks
  exclude is the subject of \<open>Locking\<close>.

  The context of the group is cancelled after the first error; the client calls of the other goroutines may then fail, which is one
  of the answers of the client.
\<close>

text \<open>The first effect of a program; the rest is its result.\<close>

primrec step1 :: "('s, 'a) prog \<Rightarrow> ('s, ('s, 'a) prog) prog" where
  "step1 (Done a) = Done (Done a)"
| "step1 (Get kd ns n c) = Get kd ns n (\<lambda>r. Done (c r))"
| "step1 (ListObjs kd ns sel c) = ListObjs kd ns sel (\<lambda>r. Done (c r))"
| "step1 (Write q c) = Write q (\<lambda>r. Done (c r))"
| "step1 (Now c) = Now (\<lambda>t. Done (c t))"
| "step1 (Access f c) = Access f (\<lambda>s. Done (c s))"
| "step1 (Lock m p) = Lock m (Done p)"
| "step1 (Unlock m p) = Unlock m (Done p)"
| "step1 (Log l p) = Log l (Done p)"

lemma bindP_step1: "bindP (step1 p) (\<lambda>p'. bindP p' k) = bindP p k"
  by (cases p) auto

definition first_error :: "goerr option \<Rightarrow> goerr option \<Rightarrow> goerr option" where
  "first_error err e = (if err = None then e else err)"

fun drain :: "('s, goerr option) prog list \<Rightarrow> goerr option \<Rightarrow> ('s, goerr option) prog" where
  "drain [] err = Done err"
| "drain (t # ts) err = bindP t (\<lambda>e. drain ts (first_error err e))"

fun par :: "nat list \<Rightarrow> ('s, goerr option) prog list \<Rightarrow> goerr option \<Rightarrow> ('s, goerr option) prog" where
  "par [] ts err = drain ts err"
| "par (i # sched) ts err =
     (if i < length ts
      then (case ts ! i of
          Done e \<Rightarrow> par sched (take i ts @ drop (Suc i) ts) (first_error err e)
        | p \<Rightarrow> bindP (step1 p) (\<lambda>p'. par sched (ts[i := p']) err))
      else par sched ts err)"

definition RunReconciles :: "nat list \<Rightarrow> ('s, goerr option) prog list \<Rightarrow> ('s, goerr option) prog" where
  "RunReconciles sched reconciles = par sched reconciles None"

text \<open>A step of a goroutine, whether it has an effect left or returns.\<close>

lemma par_step:
  "par (i # sched) ts err =
    (if i < length ts
     then (if \<exists>e. ts ! i = Done e
       then par sched (take i ts @ drop (Suc i) ts) (first_error err (THE e. ts ! i = Done e))
       else bindP (step1 (ts ! i)) (\<lambda>p'. par sched (ts[i := p']) err))
     else par sched ts err)"
  by (cases "ts ! i") auto

subsection \<open>Safety of every interleaving\<close>

lemma sat_step1: "sat I P Q p \<Longrightarrow> sat I P (sat I P Q) (step1 p)"
  by (cases p) auto

lemma sat_drain:
  assumes "\<And>t. t \<in> set ts \<Longrightarrow> sat I P R t" and "Q err"
    and "\<And>err e. Q err \<Longrightarrow> R e \<Longrightarrow> Q (first_error err e)"
  shows "sat I P Q (drain ts err)"
  using assms(1,2)
proof (induction ts arbitrary: err)
  case Nil
  then show ?case by simp
next
  case (Cons t ts)
  have "sat I P (\<lambda>e. sat I P Q (drain ts (first_error err e))) t"
    by (rule sat_mono [of I P R]) (auto intro!: Cons.IH intro: Cons.prems assms(3))
  then show ?case by (simp add: sat_bind)
qed

lemma sat_par:
  assumes "\<And>t. t \<in> set ts \<Longrightarrow> sat I P R t" and "Q err"
    and "\<And>err e. Q err \<Longrightarrow> R e \<Longrightarrow> Q (first_error err e)"
  shows "sat I P Q (par sched ts err)"
  using assms(1,2)
proof (induction sched arbitrary: ts err)
  case Nil
  then show ?case using assms(3) by (simp add: sat_drain [where R = R])
next
  case (Cons i sched)
  show ?case
  proof (cases "i < length ts")
    case False
    with Cons show ?thesis by simp
  next
    case i: True
    then have t: "sat I P R (ts ! i)" using Cons.prems(1) by simp
    show ?thesis
    proof (cases "\<exists>e. ts ! i = Done e")
      case True
      then obtain e where e: "ts ! i = Done e" by blast
      with t have "Q (first_error err e)" using Cons.prems(2) by (simp add: assms(3))
      then have "sat I P Q (par sched (take i ts @ drop (Suc i) ts) (first_error err e))"
        by (intro Cons.IH) (auto intro: Cons.prems(1) dest: in_set_takeD in_set_dropD)
      with i e show ?thesis by simp
    next
      case False
      have upd: "t' \<in> set (ts[i := p']) \<Longrightarrow> sat I P R p' \<Longrightarrow> sat I P R t'" for t' p'
        using set_update_subset_insert [of ts i p'] Cons.prems(1) by blast
      have "sat I P (\<lambda>p'. sat I P Q (par sched (ts[i := p']) err)) (step1 (ts ! i))"
        by (rule sat_mono [OF sat_step1 [OF t]]) (auto intro: Cons.IH [OF upd] Cons.prems(2))
      then have "sat I P Q (bindP (step1 (ts ! i)) (\<lambda>p'. par sched (ts[i := p']) err))"
        by (rule sat_bind)
      with i False show ?thesis by (simp only: par_step) simp
    qed
  qed
qed

text \<open>
  Whatever all goroutines guarantee, their group guarantees: the writes are writes of the goroutines, and the error is one of theirs.
  An error once returned is the error of the group.
\<close>

lemma sat_RunReconciles:
  assumes "\<And>t. t \<in> set ts \<Longrightarrow> sat I P R t"
  shows "sat I P (\<lambda>err. err = None \<or> R err) (RunReconciles sched ts)"
  unfolding RunReconciles_def by (rule sat_par [OF assms]) (auto simp: first_error_def)

lemma par_keeps_error: "sat (\<lambda>_. True) (\<lambda>_. True) (\<lambda>r. r = Some e) (par sched ts (Some e))"
proof (rule sat_par [where R = "\<lambda>_. True"])
  show "sat (\<lambda>_. True) (\<lambda>_. True) (\<lambda>_. True) t" for t :: "('a, goerr option) prog"
    by (induction t) auto
qed (simp_all add: first_error_def)

end
