(* ===== verification/ControllerState.thy ===== *)
theory ControllerState
  imports Memory
begin

section \<open>The beginning of both controllers\<close>

text \<open>
  Both controllers (\<open>controller.go\<close> and \<open>base_controller.go\<close>) get their object and then consult the state cache in the same way:
  register the object if it is new, and ask \<open>StateNeedsUpdating\<close> whether there is anything to do. \<open>bundle_app\<close> and \<open>base_app\<close> are
  the two resources as values of the interface \<open>AppId\<close>, whose hash is third-party code (\<open>rxhash\<close>).

  A reconciliation returns the seconds after which it wants to be called again (\<open>RequeueAfter\<close>; 0 is \<open>ctrl.Result{}\<close>) and an error.
\<close>

definition bundle_app :: "ext \<Rightarrow> AppBundle \<Rightarrow> AppId" where
  "bundle_app E ab = \<lparr>app_ID = ab_ID ab, app_GetSpecHash = ext_HashAppBundleSpec E (ab_Spec ab),
     app_GetLastReconciliation = ab_GetLastReconciliation ab\<rparr>"

definition base_app :: "ext \<Rightarrow> AppBundleBase \<Rightarrow> AppId" where
  "base_app E abb = \<lparr>app_ID = abb_ID abb, app_GetSpecHash = ext_HashAppBundleBaseSpec E (abb_Spec abb),
     app_GetLastReconciliation = abb_GetLastReconciliation abb\<rparr>"

lemma bundle_app_sel [simp]:
  "app_ID (bundle_app E ab) = ab_ID ab" "app_GetSpecHash (bundle_app E ab) = ext_HashAppBundleSpec E (ab_Spec ab)"
  by (simp_all add: bundle_app_def)

lemma base_app_sel [simp]:
  "app_ID (base_app E abb) = abb_ID abb" "app_GetSpecHash (base_app E abb) = ext_HashAppBundleBaseSpec E (abb_Spec abb)"
  by (simp_all add: base_app_def)

type_synonym outcome = "int \<times> goerr option"

definition UpdateCache :: "(cache \<Rightarrow> 'r \<times> cache) \<Rightarrow> ('r \<Rightarrow> 'a mprog) \<Rightarrow> 'a mprog" where
  "UpdateCache f c = Access (\<lambda>m. m\<lparr>m_State := snd (f (m_State m))\<rparr>) (\<lambda>m. c (fst (f (m_State m))))"

definition ReadCache :: "(cache \<Rightarrow> 'a mprog) \<Rightarrow> 'a mprog" where
  "ReadCache c = Access id (\<lambda>m. c (m_State m))"

lemma run_cache [simp]:
  "run A (UpdateCache f c) w m = run A (c (fst (f (m_State m)))) w (m\<lparr>m_State := snd (f (m_State m))\<rparr>)"
  "run A (ReadCache d) w m = run A (d (m_State m)) w m"
  by (simp_all add: UpdateCache_def ReadCache_def)

lemma writes_cache [simp]:
  "writes A (UpdateCache f c) w m = writes A (c (fst (f (m_State m)))) w (m\<lparr>m_State := snd (f (m_State m))\<rparr>)"
  "writes A (ReadCache d) w m = writes A (d (m_State m)) w m"
  by (simp_all add: UpdateCache_def ReadCache_def)

text \<open>\<open>_, ok := err.(StateAlreadyRegisteredError)\<close>\<close>

fun is_already_registered :: "goerr option \<Rightarrow> bool" where
  "is_already_registered (Some (StateAlreadyRegisteredError i)) = True"
| "is_already_registered _ = False"

text \<open>
  The clock is read before the entry is looked at, also when the answer does not depend on it.
\<close>

definition with_state :: "AppId \<Rightarrow> (goerr \<Rightarrow> 'a mprog) \<Rightarrow> (bool \<Rightarrow> 'a mprog) \<Rightarrow> 'a mprog" where
  "with_state app fail go = UpdateCache (RegisterStateIfNotAlreadyRegistered app) (\<lambda>err.
     let stateAlreadyRegistered = is_already_registered err in
     case (if stateAlreadyRegistered then None else err) of
       Some e \<Rightarrow> fail e
     | None \<Rightarrow> Now (\<lambda>now. ReadCache (\<lambda>State.
         case StateNeedsUpdating app stateAlreadyRegistered now State of
           Inl e \<Rightarrow> fail e
         | Inr stateNeedsUpdating \<Rightarrow> go stateNeedsUpdating)))"

text \<open>
  In a cache that the operator can reach no entry has a time of reconciliation other than 0, so once the clock is past 30 seconds
  after the epoch every registered object needs updating.
\<close>

lemma reachable_needs_updating:
  assumes "cache_reachable State" and "map_of State (app_ID app) = Some v"
    and "app_GetSpecHash app = Inr h" and "30 < now"
  shows "StateNeedsUpdating app True now State = Inr True"
proof -
  have "as_LastReconciliation v = 0"
    using cache_reachable_inv [OF assms(1)] assms(2) by (auto simp: cache_inv_def)
  with assms show ?thesis by (simp add: StateNeedsUpdating_def GetState_def Let_def)
qed

lemma with_state_full:
  assumes "cache_reachable (m_State m)" and "app_GetSpecHash app = Inr h"
    and "api_now A w = (now, w')" and "30 < now"
  shows "run A (with_state app fail go) w m =
      run A (go True) w' (m\<lparr>m_State := snd (RegisterStateIfNotAlreadyRegistered app (m_State m))\<rparr>)" (is ?R)
    and "writes A (with_state app fail go) w m =
      writes A (go True) w' (m\<lparr>m_State := snd (RegisterStateIfNotAlreadyRegistered app (m_State m))\<rparr>)" (is ?W)
proof -
  have "?R \<and> ?W"
  proof (cases "map_of (m_State m) (app_ID app)")
    case None
    with assms show ?thesis
      by (simp add: with_state_def RegisterStateIfNotAlreadyRegistered_def StateNeedsUpdating_def Let_def)
  next
    case (Some v)
    with reachable_needs_updating [OF assms(1) Some assms(2,4)] assms(2,3) show ?thesis
      by (simp add: with_state_def register_known Let_def)
  qed
  then show ?R and ?W by blast+
qed

lemma sat_with_state:
  assumes "\<And>e. sat I P Q (fail e)" and "\<And>b. sat I P Q (go b)"
    and "\<And>m S. I m \<Longrightarrow> I (m\<lparr>m_State := S\<rparr>)"
  shows "sat I P Q (with_state app fail go)"
  unfolding with_state_def UpdateCache_def ReadCache_def
  using assms by (auto simp: Let_def split: option.split sum.split)

lemma writes_with_state:
  assumes "\<And>e w m. writes A (fail e) w m = []"
  shows "writes A (with_state app fail go) w m = [] \<or>
    (\<exists>b w' m'. writes A (with_state app fail go) w m = writes A (go b) w' m')"
proof -
  define err where "err = fst (RegisterStateIfNotAlreadyRegistered app (m_State m))"
  define m1 where "m1 = m\<lparr>m_State := snd (RegisterStateIfNotAlreadyRegistered app (m_State m))\<rparr>"
  obtain now w1 where now: "api_now A w = (now, w1)" by (cases "api_now A w")
  have "writes A (with_state app fail go) w m = (case (if is_already_registered err then None else err) of
      Some e \<Rightarrow> []
    | None \<Rightarrow> (case StateNeedsUpdating app (is_already_registered err) now (m_State m1) of
        Inl e \<Rightarrow> [] | Inr b \<Rightarrow> writes A (go b) w1 m1))"
    by (simp add: with_state_def err_def m1_def Let_def now assms split: option.split sum.split)
  then show ?thesis
    by (cases "if is_already_registered err then None else err";
      cases "StateNeedsUpdating app (is_already_registered err) now (m_State m1)") auto
qed

end
