(* ===== verification/Locking.thy ===== *)
theory Locking
  imports Concurrency ControllerState
begin

section \<open>Blocking mutexes: concurrent reconciliations and their lock order\<close>

text \<open>
  The reconciliations that controller-runtime runs concurrently, with mutexes that block. A thread is one call of
  \<open>Reconcile\<close>; the call for a bundle forks the goroutines of \<open>RunReconciles\<close> while it holds the mutex of the bundle, and
  waits for them. Every thread and goroutine carries the mutexes it holds. A step is one effect of one thread or goroutine; a \<open>Lock\<close> can only
  step when nobody holds the mutex. What memory and the API server answer is left open: an effect may continue with any answer, so the
  states reached here include all that the operator can reach.

  \<open>lock_ok\<close> is the discipline of the code: mutexes are taken in strictly increasing rank (base, then bundle, then the mutex of a
  reconcile function) and released in reverse order. The theorems here are about every system whose threads follow it.
\<close>

definition lock_rank :: "mutex \<Rightarrow> nat" where
  "lock_rank mu = (if fst mu = ''appBundleBase'' then 1 else if fst mu = ''appBundle'' then 2 else 3)"

lemma lock_rank_le: "lock_rank mu \<le> 3"
  by (simp add: lock_rank_def)

primrec lock_ok :: "nat \<Rightarrow> (mutex list \<Rightarrow> 'a \<Rightarrow> bool) \<Rightarrow> ('s, 'a) prog \<Rightarrow> mutex list \<Rightarrow> bool" where
  "lock_ok lo Q (Done a) = (\<lambda>H. Q H a)"
| "lock_ok lo Q (Get kd ns n c) = (\<lambda>H. \<forall>r. lock_ok lo Q (c r) H)"
| "lock_ok lo Q (ListObjs kd ns sel c) = (\<lambda>H. \<forall>r. lock_ok lo Q (c r) H)"
| "lock_ok lo Q (Write q c) = (\<lambda>H. \<forall>r. lock_ok lo Q (c r) H)"
| "lock_ok lo Q (Now c) = (\<lambda>H. \<forall>t. lock_ok lo Q (c t) H)"
| "lock_ok lo Q (Access f c) = (\<lambda>H. \<forall>s. lock_ok lo Q (c s) H)"
| "lock_ok lo Q (Lock mu p) = (\<lambda>H. lo < lock_rank mu \<and> (\<forall>h\<in>set H. lock_rank h < lock_rank mu) \<and> lock_ok lo Q p (mu # H))"
| "lock_ok lo Q (Unlock mu p) = (\<lambda>H. H \<noteq> [] \<and> hd H = mu \<and> lock_ok lo Q p (tl H))"
| "lock_ok lo Q (Log l p) = (\<lambda>H. lock_ok lo Q p H)"

definition released :: "mutex list \<Rightarrow> 'a \<Rightarrow> bool" where
  "released H a \<longleftrightarrow> H = []"

subsection \<open>Threads and their steps\<close>

type_synonym fork = "goerr option mprog list \<times> (goerr option \<Rightarrow> outcome option mprog)"

datatype thread =
    Head "mutex list" "(outcome option + fork) mprog"
  | Join "mutex list" "(mutex list \<times> goerr option mprog) list" "goerr option" "goerr option \<Rightarrow> outcome option mprog"
  | Tail "mutex list" "outcome option mprog"

inductive effect_step :: "mutex set \<Rightarrow> mutex list \<Rightarrow> ('s, 'a) prog \<Rightarrow> mutex list \<Rightarrow> ('s, 'a) prog \<Rightarrow> bool" where
  step_Get: "effect_step L H (Get kd ns n c) H (c r)"
| step_ListObjs: "effect_step L H (ListObjs kd ns sel c') H (c' rs)"
| step_Write: "effect_step L H (Write q d) H (d e)"
| step_Now: "effect_step L H (Now d') H (d' t)"
| step_Access: "effect_step L H (Access f g) H (g s)"
| step_Lock: "mu \<notin> L \<Longrightarrow> effect_step L H (Lock mu p) (mu # H) p"
| step_Unlock: "effect_step L H (Unlock mu p) (remove1 mu H) p"
| step_Log: "effect_step L H (Log l p) H p"

inductive_cases effect_stepE: "effect_step L H p H' p'"

fun held :: "thread \<Rightarrow> mutex list" where
  "held (Head H p) = H"
| "held (Join H kids err k) = H @ concat (map fst kids)"
| "held (Tail H p) = H"

definition all_held :: "thread list \<Rightarrow> mutex list" where
  "all_held ts = concat (map held ts)"

fun finished :: "thread \<Rightarrow> bool" where
  "finished (Tail H (Done x)) = True"
| "finished _ = False"

inductive thread_step :: "mutex set \<Rightarrow> thread \<Rightarrow> thread \<Rightarrow> bool" where
  head_effect: "effect_step L H p H' p' \<Longrightarrow> thread_step L (Head H p) (Head H' p')"
| head_return: "thread_step L (Head H (Done (Inl x))) (Tail H (Done x))"
| head_fork: "thread_step L (Head H (Done (Inr (ps, k)))) (Join H (map (Pair []) ps) None k)"
| kid_effect: "effect_step L Hk p Hk' p' \<Longrightarrow>
    thread_step L (Join H (pre @ (Hk, p) # post) err k) (Join H (pre @ (Hk', p') # post) err k)"
| kid_return: "thread_step L (Join H (pre @ (Hk, Done e) # post) err k) (Join H (pre @ post) (first_error err e) k)"
| join_return: "thread_step L (Join H [] err k) (Tail H (k err))"
| tail_effect: "effect_step L H p H' p' \<Longrightarrow> thread_step L (Tail H p) (Tail H' p')"

inductive system_step :: "thread list \<Rightarrow> thread list \<Rightarrow> bool" where
  "thread_step (set (all_held (pre @ t # post))) t t' \<Longrightarrow> system_step (pre @ t # post) (pre @ t' # post)"

text \<open>New calls of \<open>Reconcile\<close> start at any time; \<open>starts\<close> says with which programs.\<close>

inductive system_reachable :: "((outcome option + fork) mprog \<Rightarrow> bool) \<Rightarrow> thread list \<Rightarrow> bool" for starts where
  system_start: "system_reachable starts []"
| system_call: "system_reachable starts ts \<Longrightarrow> starts p \<Longrightarrow> system_reachable starts (ts @ [Head [] p])"
| system_next: "system_reachable starts ts \<Longrightarrow> system_step ts ts' \<Longrightarrow> system_reachable starts ts'"

subsection \<open>The invariant\<close>

definition kid_ok :: "mutex list \<times> goerr option mprog \<Rightarrow> bool" where
  "kid_ok x \<longleftrightarrow> lock_ok 2 released (snd x) (fst x)"

definition fork_ok :: "mutex list \<Rightarrow> outcome option + fork \<Rightarrow> bool" where
  "fork_ok H r = (case r of
     Inl x \<Rightarrow> H = []
   | Inr (ps, k) \<Rightarrow> (\<forall>h\<in>set H. lock_rank h < 3) \<and> (\<forall>p\<in>set ps. kid_ok ([], p)) \<and> (\<forall>err. lock_ok 0 released (k err) H))"

fun thread_ok :: "thread \<Rightarrow> bool" where
  "thread_ok (Head H p) \<longleftrightarrow> lock_ok 0 fork_ok p H"
| "thread_ok (Join H kids err k) \<longleftrightarrow> (\<forall>h\<in>set H. lock_rank h < 3) \<and> (\<forall>x\<in>set kids. kid_ok x) \<and>
     (\<forall>err. lock_ok 0 released (k err) H)"
| "thread_ok (Tail H p) \<longleftrightarrow> lock_ok 0 released p H"

text \<open>Nobody holds a mutex that another holds, and every thread follows the discipline in what it has left to do.\<close>

definition system_ok :: "thread list \<Rightarrow> bool" where
  "system_ok ts \<longleftrightarrow> distinct (all_held ts) \<and> (\<forall>t\<in>set ts. thread_ok t)"

lemma effect_step_ok:
  assumes "effect_step L H p H' p'" and "lock_ok lo Q p H"
  shows "lock_ok lo Q p' H'"
  using assms by (auto elim!: effect_stepE simp: neq_Nil_conv)

lemma effect_step_held:
  assumes "effect_step L H p H' p'" and "distinct (xs @ H @ ys)" and "set (xs @ H @ ys) \<subseteq> L"
  shows "distinct (xs @ H' @ ys)"
  using assms by (auto elim!: effect_stepE dest: set_remove1_subset [THEN subsetD])

lemma thread_step_ok:
  assumes "thread_step L t t'" and "thread_ok t"
  shows "thread_ok t'"
  using assms
  by (cases rule: thread_step.cases)
    (auto simp: fork_ok_def kid_ok_def released_def dest: effect_step_ok)

lemma thread_step_held:
  assumes "thread_step L t t'" and "distinct (xs @ held t @ ys)" and "set (xs @ held t @ ys) \<subseteq> L"
  shows "distinct (xs @ held t' @ ys)"
  using assms(1)
proof (cases rule: thread_step.cases)
  case (kid_effect Hk p Hk' p' H pre post err k)
  with effect_step_held [OF kid_effect(3), of "xs @ H @ concat (map fst pre)" "concat (map fst post) @ ys"] assms(2,3)
  show ?thesis by simp
next
  case (head_effect H p H' p')
  with effect_step_held [OF head_effect(3), of xs ys] assms(2,3) show ?thesis by simp
next
  case (tail_effect H p H' p')
  with effect_step_held [OF tail_effect(3), of xs ys] assms(2,3) show ?thesis by simp
next
  case (head_fork H ps k)
  have c: "concat (map (\<lambda>x. []) ps) = ([] :: mutex list)" by (induction ps) auto
  from head_fork assms(2) show ?thesis by (simp add: comp_def c)
qed (use assms(2) in auto)

lemma system_step_ok:
  assumes "system_step ts ts'" and "system_ok ts"
  shows "system_ok ts'"
  using assms(1)
proof (cases rule: system_step.cases)
  case (1 pre t post t')
  have held: "all_held (pre @ u # post) = all_held pre @ held u @ all_held post" for u
    by (simp add: all_held_def)
  from 1 assms(2) have "distinct (all_held pre @ held t' @ all_held post)"
    by (intro thread_step_held [OF 1(3)]) (simp_all add: system_ok_def held)
  moreover from 1 assms(2) have "thread_ok t'" by (auto intro: thread_step_ok simp: system_ok_def)
  ultimately show ?thesis using 1 assms(2) by (auto simp: system_ok_def held)
qed

lemma system_reachable_ok:
  assumes "system_reachable starts ts" and "\<And>p. starts p \<Longrightarrow> lock_ok 0 fork_ok p []"
  shows "system_ok ts"
  using assms(1)
proof (induction rule: system_reachable.induct)
  case system_start
  show ?case by (simp add: system_ok_def all_held_def)
next
  case (system_call ts p)
  with assms(2) show ?case by (auto simp: system_ok_def all_held_def)
next
  case (system_next ts ts')
  then show ?case by (blast intro: system_step_ok)
qed

subsection \<open>Progress\<close>

fun wants :: "('s, 'a) prog \<Rightarrow> mutex option" where
  "wants (Lock mu p) = Some mu"
| "wants _ = None"

fun waiting :: "thread \<Rightarrow> mutex set" where
  "waiting (Head H p) = set_option (wants p)"
| "waiting (Join H kids err k) = (\<Union>x\<in>set kids. set_option (wants (snd x)))"
| "waiting (Tail H p) = set_option (wants p)"

lemma effect_progress:
  "(\<exists>a. p = Done a) \<or> (\<exists>mu. wants p = Some mu \<and> mu \<in> L) \<or> (\<exists>H' p'. effect_step L H p H' p')"
  by (cases p) (auto intro: effect_step.intros)

lemma wants_rank:
  "lock_ok lo Q p H \<Longrightarrow> wants p = Some mu \<Longrightarrow> lo < lock_rank mu \<and> (\<forall>h\<in>set H. lock_rank h < lock_rank mu)"
  by (cases p) auto

text \<open>A goroutine that is waited for moves the join on, or waits for a mutex itself.\<close>

lemma kid_progress:
  assumes "(Hk, p) \<in> set kids"
  shows "(\<exists>t'. thread_step L (Join H kids err k) t') \<or> (\<exists>mu. wants p = Some mu \<and> mu \<in> L)"
proof -
  from assms obtain pre post where kids: "kids = pre @ (Hk, p) # post" by (auto simp: in_set_conv_decomp)
  show ?thesis
    using effect_progress [of p L Hk] unfolding kids by (blast intro: kid_effect kid_return)
qed

lemma thread_progress:
  assumes "\<not> finished t"
  shows "(\<exists>t'. thread_step L t t') \<or> (\<exists>mu\<in>waiting t. mu \<in> L)"
proof (cases t)
  case (Head H p)
  then show ?thesis
    using effect_progress [of p L H] by (auto intro: head_effect head_return head_fork split: sum.splits) (metis
      head_fork head_return old.sum.exhaust surj_pair)
next
  case (Join H kids err k)
  show ?thesis
  proof (cases kids)
    case Nil
    with Join show ?thesis by (auto intro: join_return)
  next
    case (Cons x kids')
    with Join kid_progress [of "fst x" "snd x" kids L H err k] show ?thesis by auto
  qed
next
  case (Tail H p)
  with assms effect_progress [of p L H] show ?thesis by (auto intro: tail_effect)
qed

text \<open>Whoever holds a mutex can move, or waits for a mutex of higher rank.\<close>

lemma holder_progress:
  assumes "thread_ok t" and "m \<in> set (held t)"
  shows "(\<exists>t'. thread_step L t t') \<or> (\<exists>mu\<in>waiting t. mu \<in> L \<and> lock_rank m < lock_rank mu)"
proof (cases t)
  case (Head H p)
  with assms thread_progress [of t L] wants_rank [of 0 fork_ok p H] show ?thesis by auto
next
  case (Tail H p)
  with assms have "\<not> finished t" by (cases p) (auto simp: released_def)
  with Tail assms thread_progress [of t L] wants_rank [of 0 released p H] show ?thesis by auto
next
  case (Join H kids err k)
  have kid: ?thesis if "(Hk, p) \<in> set kids" and "\<And>mu. wants p = Some mu \<Longrightarrow> lock_rank m < lock_rank mu" for Hk p
    using kid_progress [OF that(1), of L H err k] that Join by force
  have ok: "lock_ok 2 released p Hk" if "(Hk, p) \<in> set kids" for Hk p
    using that assms(1) Join by (auto simp: kid_ok_def)
  show ?thesis
  proof (cases "m \<in> set H")
    case True
    then have low: "lock_rank m < 3" using assms(1) Join by auto
    show ?thesis
    proof (cases kids)
      case Nil
      with Join show ?thesis by (auto intro: join_return)
    next
      case (Cons x kids')
      then have x: "(fst x, snd x) \<in> set kids" by simp
      show ?thesis by (rule kid [OF x]) (use wants_rank [OF ok [OF x]] low in force)
    qed
  next
    case False
    with assms(2) Join obtain Hk p where x: "(Hk, p) \<in> set kids" "m \<in> set Hk" by auto
    show ?thesis by (rule kid [OF x(1)]) (use wants_rank [OF ok [OF x(1)]] x(2) in blast)
  qed
qed

lemma waiting_progress:
  assumes "system_ok ts" and "t \<in> set ts" and "mu \<in> waiting t" and "mu \<in> set (all_held ts)"
  shows "\<exists>ts'. system_step ts ts'"
  using assms(2-4)
proof (induction "3 - lock_rank mu" arbitrary: t mu rule: less_induct)
  case less
  from less.prems(3) obtain v where v: "v \<in> set ts" "mu \<in> set (held v)" by (auto simp: all_held_def)
  from assms(1) v(1) have ok: "thread_ok v" by (simp add: system_ok_def)
  from holder_progress [OF ok v(2), of "set (all_held ts)"] show ?case
  proof
    assume "\<exists>v'. thread_step (set (all_held ts)) v v'"
    with v(1) show ?thesis by (metis split_list system_step.intros)
  next
    assume "\<exists>mu'\<in>waiting v. mu' \<in> set (all_held ts) \<and> lock_rank mu < lock_rank mu'"
    then obtain mu' where mu': "mu' \<in> waiting v" "mu' \<in> set (all_held ts)" "lock_rank mu < lock_rank mu'" by blast
    have "3 - lock_rank mu' < 3 - lock_rank mu" using mu'(3) lock_rank_le [of mu'] by simp
    from less.hyps [OF this v(1) mu'(1,2)] show ?thesis .
  qed
qed

lemma system_progress:
  assumes "system_ok ts" and "t \<in> set ts" and "\<not> finished t"
  shows "\<exists>ts'. system_step ts ts'"
  using thread_progress [OF assms(3), of "set (all_held ts)"]
proof
  assume "\<exists>t'. thread_step (set (all_held ts)) t t'"
  with assms(2) show ?thesis by (metis split_list system_step.intros)
next
  assume "\<exists>mu\<in>waiting t. mu \<in> set (all_held ts)"
  with waiting_progress [OF assms(1,2)] show ?thesis by blast
qed

subsection \<open>Programs that follow the discipline\<close>

lemma lock_ok_mono:
  "lock_ok lo Q p H \<Longrightarrow> (\<And>H a. Q H a \<Longrightarrow> Q' H a) \<Longrightarrow> lock_ok lo Q' p H"
  by (induction p arbitrary: H) auto

lemma lock_ok_bind: "lock_ok lo (\<lambda>H a. lock_ok lo Q (k a) H) p H \<Longrightarrow> lock_ok lo Q (bindP p k) H"
  by (induction p arbitrary: H) auto

named_theorems calm_intros \<open>introduction rules for programs that touch neither a mutex nor the cache\<close>

text \<open>A program that touches neither a mutex nor the state cache: it ends with the mutexes and the cache it started with.\<close>

primrec calm :: "'a mprog \<Rightarrow> bool" where
  "calm (Done a) \<longleftrightarrow> True"
| "calm (Get kd ns n c) \<longleftrightarrow> (\<forall>r. calm (c r))"
| "calm (ListObjs kd ns sel c) \<longleftrightarrow> (\<forall>r. calm (c r))"
| "calm (Write q c) \<longleftrightarrow> (\<forall>r. calm (c r))"
| "calm (Now c) \<longleftrightarrow> (\<forall>t. calm (c t))"
| "calm (Access f c) \<longleftrightarrow> (\<forall>m. m_State (f m) = m_State m \<and> calm (c m))"
| "calm (Lock mu p) \<longleftrightarrow> False"
| "calm (Unlock mu p) \<longleftrightarrow> False"
| "calm (Log l p) \<longleftrightarrow> calm p"

lemma calm_lock_ok: "calm p \<Longrightarrow> (\<And>a. Q H a) \<Longrightarrow> lock_ok lo Q p H"
  by (induction p) auto

lemma sat_calm: "calm p \<Longrightarrow> sat (\<lambda>m. C (m_State m)) (\<lambda>_. True) (\<lambda>_. True) p"
  by (induction p) auto

lemma calm_bind: "calm p \<Longrightarrow> (\<And>a. calm (k a)) \<Longrightarrow> calm (bindP p k)"
  by (induction p) auto

lemma calm_thenP [calm_intros]: "calm p \<Longrightarrow> calm q \<Longrightarrow> calm (thenP p q)"
  unfolding thenP_def by (rule calm_bind) (auto split: option.split)

lemma calm_forP [calm_intros]: "(\<And>x. x \<in> set xs \<Longrightarrow> calm (body x)) \<Longrightarrow> calm (forP xs body)"
  by (induction xs) (auto intro: calm_thenP)

lemma calm_GetInto [calm_intros]: "(\<And>cur er. calm (c cur er)) \<Longrightarrow> calm (GetInto kd proj ns n init c)"
  by (simp add: GetInto_def split: sum.split option.split)

lemma calm_UpsertResource [calm_intros]: "calm (UpsertResource x reason er nd)"
  by (simp add: UpsertResource_def split: option.split)

lemma calm_memory [calm_intros]:
  "(\<And>ab. calm (c ab)) \<Longrightarrow> calm (ReadBundle c)"
  "(\<And>r. calm (d r)) \<Longrightarrow> calm (UpdateBundle f d)"
  "(\<And>S. calm (e S)) \<Longrightarrow> calm (ReadCache e)"
  by (simp_all add: ReadBundle_def UpdateBundle_def ReadCache_def)

lemma calm_with_reason [calm_intros]: "(\<And>x. calm (c x)) \<Longrightarrow> calm (with_reason r c)"
  by (cases r) simp_all

lemma calm_if [calm_intros]: "(b \<Longrightarrow> calm p) \<Longrightarrow> (\<not> b \<Longrightarrow> calm q) \<Longrightarrow> calm (if b then p else q)"
  by simp

lemma calm_case_sum [calm_intros]:
  "(\<And>e. calm (f e)) \<Longrightarrow> (\<And>x. calm (g x)) \<Longrightarrow> calm (case r of Inl e \<Rightarrow> f e | Inr x \<Rightarrow> g x)"
  by (cases r) simp_all

lemma calm_case_option [calm_intros]:
  "calm p \<Longrightarrow> (\<And>x. calm (g x)) \<Longrightarrow> calm (case r of None \<Rightarrow> p | Some x \<Rightarrow> g x)"
  by (cases r) simp_all

lemma calm_effects [calm_intros]:
  "calm (Done a)"
  "(\<And>r. calm (c r)) \<Longrightarrow> calm (ListObjs kd ns sel c)"
  "(\<And>r. calm (w r)) \<Longrightarrow> calm (Write q w)"
  "(\<And>t. calm (d t)) \<Longrightarrow> calm (Now d)"
  "calm p \<Longrightarrow> calm (Log l p)"
  by simp_all

text \<open>A function whose body is calm and runs under one mutex.\<close>

lemma lock_ok_with_mutex:
  assumes "calm p" and "lo < lock_rank mu" and "\<And>a. Q [] a"
  shows "lock_ok lo Q (with_mutex mu p) []"
proof -
  have "lock_ok lo (\<lambda>H a. lock_ok lo Q (Unlock mu (Done a)) H) p [mu]"
    by (rule calm_lock_ok [OF assms(1)]) (simp add: assms(3))
  with assms(2) show ?thesis by (simp add: with_mutex_def lock_ok_bind)
qed

end
