(* ===== verification/BundleController.thy ===== *)
theory BundleController
  imports ControllerState Concurrency BaseChain ServiceReconcile IngressReconcile ConfigMapReconcile
    SecretsReconcile VolumesReconcile DeploymentReconcile
begin

section \<open>controller.go: reconciling a bundle\<close>

text \<open>
  \<open>Reconcile\<close> of \<open>internal/controller/controller.go\<close>: under the mutex of the bundle, get it, consult the cache, resolve the
  base, and run the six reconcile functions concurrently on the resolved bundle. The parameters are the fuel \<open>n\<close> for the chain of bases,
  the schedule of the goroutines, the growth of slices (\<open>grow\<close>) and the third-party functions. The outcome is \<open>None\<close> when the chain is longer
  than the fuel; a chain of \<open>k\<close> bases needs \<open>k\<close> (\<open>base_chain_resolved\<close>).
\<close>

definition resolve_base :: "nat \<Rightarrow> ext \<Rightarrow> AppBundle \<Rightarrow> ('s, (goerr + AppBundle) option) prog" where
  "resolve_base n E ab = (case sp_Base (ab_Spec ab) of
     None \<Rightarrow> Done (Some (Inr ab))
   | Some base \<Rightarrow> GetInto KAppBundleBase proj_AppBundleBase [] base zero_base (\<lambda>abb er. case er of
       Some e \<Rightarrow> Done (Some (Inl e))
     | None \<Rightarrow> ResolveAppBundleBase n E ab abb))"

definition reconciles :: "(nat \<Rightarrow> nat) \<Rightarrow> ext \<Rightarrow> goerr option mprog list" where
  "reconciles grow E = [ReconcileVolumes E, ReconcileService E, ReconcileDeployment grow E, ReconcileIngress E,
     ReconcileConfigMap E, ReconcileExternalSecret E]"

definition run_reconciles :: "nat list \<Rightarrow> (nat \<Rightarrow> nat) \<Rightarrow> ext \<Rightarrow> outcome option mprog" where
  "run_reconciles sched grow E = bindP (RunReconciles sched (reconciles grow E)) (\<lambda>err. case err of
     Some e \<Rightarrow> Done (Some (120, Some e))
   | None \<Rightarrow> Done (Some (10, None)))"

definition full_pass :: "nat \<Rightarrow> nat list \<Rightarrow> (nat \<Rightarrow> nat) \<Rightarrow> ext \<Rightarrow> AppBundle \<Rightarrow> outcome option mprog" where
  "full_pass n sched grow E ab = bindP (resolve_base n E ab) (\<lambda>r. case r of
     None \<Rightarrow> Done None
   | Some (Inl e) \<Rightarrow> Done (Some (120, Some e))
   | Some (Inr ab') \<Rightarrow> Access (\<lambda>m. m\<lparr>m_bundle := ab'\<rparr>) (\<lambda>_. run_reconciles sched grow E))"

definition ReconcileBundle :: "nat \<Rightarrow> nat list \<Rightarrow> (nat \<Rightarrow> nat) \<Rightarrow> ext \<Rightarrow> string \<Rightarrow> string \<Rightarrow> outcome option mprog"
where
  "ReconcileBundle n sched grow E name namespace = with_mutex (mutex_key ''appBundle'' name namespace)
     (GetInto KAppBundle proj_AppBundle namespace name zero_bundle (\<lambda>ab er. case er of
       Some e \<Rightarrow> Done (Some (120, Some e))
     | None \<Rightarrow> with_state (bundle_app E ab) (\<lambda>e. Done (Some (120, Some e))) (\<lambda>stateNeedsUpdating.
         if \<not> stateNeedsUpdating then Done (Some (10, None)) else full_pass n sched grow E ab)))"

subsection \<open>What the six reconcile functions may write\<close>

definition allowed_write :: "AppBundle \<Rightarrow> wreq \<Rightarrow> bool" where
  "allowed_write ab q \<longleftrightarrow> volume_write ab q \<or> service_write ab q \<or> owned_write ab KDeployment {ab_Name ab} q \<or>
     ingress_write ab q \<or> config_map_write ab q \<or> secret_write ab q"

lemma sat_reconciles:
  assumes "t \<in> set (reconciles grow E)"
  shows "sat (frame ab0) (allowed_write ab0) (\<lambda>_. True) t"
proof -
  have t: ?thesis if "sat (frame ab0) P (\<lambda>_. True) t" and "\<And>q. P q \<Longrightarrow> allowed_write ab0 q" for P
    using that by (rule sat_mono) simp
  from assms consider "t = ReconcileVolumes E" | "t = ReconcileService E" | "t = ReconcileDeployment grow E"
    | "t = ReconcileIngress E" | "t = ReconcileConfigMap E" | "t = ReconcileExternalSecret E"
    unfolding reconciles_def by auto
  then show ?thesis
  proof cases
    case 1
    show ?thesis by (rule t [of "volume_write ab0"]) (simp_all add: 1 volume_reconciler.safe allowed_write_def)
  next
    case 2
    show ?thesis by (rule t [of "service_write ab0"]) (simp_all add: 2 service_reconciler.safe allowed_write_def)
  next
    case 3
    show ?thesis
      by (rule t [of "owned_write ab0 KDeployment {ab_Name ab0}"]) (simp_all add: 3 deployment_reconciler.safe allowed_write_def)
  next
    case 4
    show ?thesis by (rule t [of "ingress_write ab0"]) (simp_all add: 4 ingress_reconciler.safe allowed_write_def)
  next
    case 5
    show ?thesis by (rule t [of "config_map_write ab0"]) (simp_all add: 5 config_map_reconciler.safe allowed_write_def)
  next
    case 6
    show ?thesis by (rule t [of "secret_write ab0"]) (simp_all add: 6 external_secret_reconciler.safe allowed_write_def)
  qed
qed

text \<open>The group of the six functions meets the contract of a reconcile function, under every schedule.\<close>

interpretation group_reconciler: reconciler "RunReconciles sched (reconciles grow E)" ab0 "allowed_write ab0"
  for sched grow E ab0
  by unfold_locales (rule sat_mono [OF sat_RunReconciles [OF sat_reconciles]], auto)

text \<open>In words that do not depend on the reconcile functions.\<close>

definition confined :: "AppBundle \<Rightarrow> wreq \<Rightarrow> bool" where
  "confined ab q \<longleftrightarrow>
     kind_of (wobj q) \<in> {KDeployment, KService, KIngress, KConfigMap, KExternalSecret, KPVC, KRecurringJob, KPod} \<and>
     (kind_of (wobj q) = KPVC \<longrightarrow> \<not> is_delete q) \<and> (kind_of (wobj q) = KPod \<longrightarrow> is_delete q) \<and>
     (kind_of (wobj q) \<in> {KDeployment, KService, KIngress, KConfigMap, KExternalSecret} \<and> \<not> is_delete q \<longrightarrow>
        obj_Namespace (wobj q) = ab_Namespace ab \<and> om_OwnerReferences (obj_meta (wobj q)) = [ab_OwnerReference ab])"

lemma owned_confined:
  "owned_write ab kd names q \<Longrightarrow> kd \<in> {KDeployment, KService, KIngress, KConfigMap, KExternalSecret} \<Longrightarrow> confined ab q"
  by (auto simp: owned_write_def confined_def)

lemma delete_confined:
  "is_delete q \<Longrightarrow> kind_of (wobj q) \<in> {KDeployment, KService, KIngress, KConfigMap, KExternalSecret, KPod} \<Longrightarrow> confined ab q"
  by (auto simp: confined_def)

lemma allowed_confined:
  assumes "allowed_write ab q"
  shows "confined ab q"
proof -
  have "volume_write ab q \<Longrightarrow> confined ab q" by (auto simp: volume_write_def confined_def split: if_splits)
  moreover have "service_write ab q \<Longrightarrow> confined ab q"
    by (auto simp: service_write_def intro: owned_confined delete_confined split: if_splits)
  moreover have "ingress_write ab q \<Longrightarrow> confined ab q"
    by (auto simp: ingress_write_def intro: owned_confined delete_confined split: if_splits)
  moreover have "config_map_write ab q \<Longrightarrow> confined ab q"
    by (auto simp: config_map_write_def intro: owned_confined delete_confined split: if_splits)
  moreover have "secret_write ab q \<Longrightarrow> confined ab q"
    by (auto simp: secret_write_def intro: owned_confined delete_confined)
  moreover have "owned_write ab KDeployment {ab_Name ab} q \<Longrightarrow> confined ab q" by (rule owned_confined) auto
  ultimately show ?thesis using assms unfolding allowed_write_def by blast
qed

lemma writes_run_reconciles:
  assumes "(q, r) \<in> set (writes A (run_reconciles sched grow E) w m)"
  shows "confined (m_bundle m) q"
proof -
  have "writes A (run_reconciles sched grow E) w m = writes A (RunReconciles sched (reconciles grow E)) w m"
    by (simp add: run_reconciles_def writes_bind split: prod.split option.split)
  with assms group_reconciler.writes_allowed [OF agrees_refl, of q r] show ?thesis by (metis allowed_confined)
qed

lemma writes_resolve_base: "writes A (resolve_base n E ab) w (m :: 's) = []"
proof -
  have "sat (\<lambda>_. True) (\<lambda>_. False) (\<lambda>_. True) (resolve_base n E ab :: ('s, (goerr + AppBundle) option) prog)"
    unfolding resolve_base_def
    by (intro sat_case_option sat_Done bases.sat_GetInto sat_resolve) auto
  then have "(q, r) \<notin> set (writes A (resolve_base n E ab) w m)" for q r by (auto dest: sat_writes)
  then show ?thesis by (cases "writes A (resolve_base n E ab) w m") auto
qed

definition resolves_to :: "'w api \<Rightarrow> nat \<Rightarrow> ext \<Rightarrow> AppBundle \<Rightarrow> AppBundle \<Rightarrow> bool" where
  "resolves_to A n E ab ab' \<longleftrightarrow> (\<exists>w (m :: mem). fst (run A (resolve_base n E ab) w m) = Some (Inr ab'))"

lemma writes_full_pass:
  assumes "(q, r) \<in> set (writes A (full_pass n sched grow E ab) w m)"
  shows "\<exists>ab'. resolves_to A n E ab ab' \<and> confined ab' q"
proof -
  obtain x w1 m1 where x: "run A (resolve_base n E ab) w m = (x, w1, m1)" by (metis prod_cases3)
  with assms obtain ab' where ab': "x = Some (Inr ab')"
    and q: "(q, r) \<in> set (writes A (run_reconciles sched grow E) w1 (m1\<lparr>m_bundle := ab'\<rparr>))"
    by (auto simp: full_pass_def writes_bind writes_resolve_base split: option.splits sum.splits)
  from writes_run_reconciles [OF q] x ab' show ?thesis
    unfolding resolves_to_def by (metis fst_conv mem.select_convs(1) mem.update_convs(1) mem.surjective)
qed


text \<open>C10.
  Every reconciliation of a bundle is a full one: in a cache that the operator can reach, registered or not, changed or not, a bundle that
  can be fetched and hashed is resolved and all six reconcile functions run, as soon as the clock is past the first 30 seconds of
  1970. The shortcut for a bundle whose state does not need updating (requeue in 10 seconds, no work) is never taken: the time of the last reconciliation
  is never recorded, because nothing calls \<open>UpdateState\<close>.
\<close>

theorem every_reconciliation_is_full:
  assumes "cache_reachable (m_State m)"
    and "api_get A KAppBundle namespace name w = (Inr (ObjAppBundle ab), w')"
    and "ext_HashAppBundleSpec E (ab_Spec ab) = Inr h"
    and "api_now A w' = (now, w'')" and "30 < now"
  shows "run A (ReconcileBundle n sched grow E name namespace) w m =
    run A (full_pass n sched grow E ab) w''
      (m\<lparr>m_State := snd (RegisterStateIfNotAlreadyRegistered (bundle_app E ab) (m_State m))\<rparr>)"
  by (simp add: ReconcileBundle_def bundles.run_GetInto_found [OF assms(2)] assms(3)
      with_state_full(1) [OF assms(1) _ assms(4,5), of _ h])

text \<open>A cluster with a bundle without routes, whose service is still there.\<close>

definition routeless :: AppBundle where
  "routeless = sample_bundle ''app'' ''devel'' zero_spec"

definition routeless_cluster :: store where
  "routeless_cluster = [ObjAppBundle routeless, ObjService (blank_service routeless)]"

lemma blank_service_meta: "svc_ObjectMeta (blank_service ab) = GetAppBundleObjectMetaWithOwnerReference ab"
  by (simp add: blank_service_def)

lemma get_routeless:
  "api_get store_api KAppBundle ''devel'' ''app'' routeless_cluster = (Inr (ObjAppBundle routeless), routeless_cluster)"
  "api_get store_api KService ''devel'' ''app'' routeless_cluster =
    (Inr (ObjService (blank_service routeless)), routeless_cluster)"
  by (simp_all add: routeless_cluster_def same_object_def blank_service_meta routeless_def)

lemma routeless_full_pass:
  "\<exists>r. (Delete (ObjService (blank_service routeless)), r) \<in>
    set (writes store_api (full_pass n [] grow sample_ext routeless) routeless_cluster m)"
proof -
  define m1 where "m1 = m\<lparr>m_bundle := routeless\<rparr>"
  have b: "m_bundle m1 = routeless" by (simp add: m1_def)
  have none: "sp_Routes (ab_Spec routeless) = None" "sp_Volumes (ab_Spec routeless) = None" "sp_Base (ab_Spec routeless) = None"
    "ab_Name routeless = ''app''" "ab_Namespace routeless = ''devel''"
    by (simp_all add: routeless_def)
  have V: "run store_api (ReconcileVolumes sample_ext) routeless_cluster m1 = (None, routeless_cluster, m1)"
    by (simp add: ReconcileVolumes_def b none)
  define q where "q = Delete (ObjService (blank_service routeless))"
  obtain r w' where r: "api_write store_api q routeless_cluster = (r, w')" by (cases "api_write store_api q routeless_cluster")
  have S: "writes store_api (ReconcileService sample_ext) routeless_cluster m1 = [(q, r)]"
    using r by (simp add: ReconcileService_def b none services.writes_GetInto_found [OF get_routeless(2)] q_def del: store_api_sel)
  have "set (writes store_api (RunReconciles [] (reconciles grow sample_ext)) routeless_cluster m1) \<supseteq>
      set (writes store_api (ReconcileService sample_ext) routeless_cluster m1)"
    by (auto simp: RunReconciles_def reconciles_def writes_bind V)
  then have "(q, r) \<in> set (writes store_api (RunReconciles [] (reconciles grow sample_ext)) routeless_cluster m1)"
    by (simp add: S)
  then show ?thesis unfolding q_def
    by (auto simp: full_pass_def resolve_base_def none run_reconciles_def writes_bind m1_def [symmetric])
qed


theorem every_reconciliation_is_full_witness:
  "run store_api (ReconcileBundle 1 [] id sample_ext ''app'' ''devel'') routeless_cluster (sample_mem zero_bundle) =
    run store_api (full_pass 1 [] id sample_ext routeless) routeless_cluster (sample_mem zero_bundle
      \<lparr>m_State := snd (RegisterStateIfNotAlreadyRegistered (bundle_app sample_ext routeless) (m_State (sample_mem zero_bundle)))\<rparr>)"
  by (rule every_reconciliation_is_full [where w' = routeless_cluster and now = 1000 and h = "''hash''"])
    (simp_all add: get_routeless cache_empty del: store_api_sel(1))

end
