(* ===== verification/BaseController.thy ===== *)
theory BaseController
  imports ControllerState Samples
begin

section \<open>base_controller.go: reconciling a base\<close>

text \<open>
  \<open>Reconcile\<close> of \<open>internal/controller/base_controller.go\<close>: under the mutex of the base, get it, consult the cache, list all bundles of
  the cluster, and for every bundle whose specification names the base reset the hash in its cache entry, so that its next
  reconciliation is not skipped, and send a status update, which makes the bundle controller see an event. The mutex of each such bundle is
  held while it is treated and released on every path. The loop stops at the first bundle that fails.
\<close>

fun is_not_registered :: "goerr \<Rightarrow> bool" where
  "is_not_registered (StateNotRegisteredError i) = True"
| "is_not_registered _ = False"

fun reset_bundles :: "ext \<Rightarrow> AppBundleBase \<Rightarrow> AppBundle list \<Rightarrow> outcome mprog" where
  "reset_bundles E abb [] = Done (60, None)"
| "reset_bundles E abb (ab # items) =
     (if sp_Base (ab_Spec ab) \<noteq> None \<and> sp_Base (ab_Spec ab) = Some (om_Name (abb_ObjectMeta abb))
      then let mu = mutex_key ''appBundle'' (ab_Name ab) (ab_Namespace ab) in
        Lock mu (ReadCache (\<lambda>State. case GetState (bundle_app E ab) State of
          Inl err \<Rightarrow> Unlock mu
            (if \<not> is_not_registered err then Done (0, Some err)
             else Log ''State not registered for appbundle. Requeueing'' (Done (5, None)))
        | Inr stateAb \<Rightarrow> UpdateCache (\<lambda>S. ((), ResetSpecHash (ab_ID ab) S)) (\<lambda>_.
            Write (StatusUpdate (ObjAppBundle ab)) (\<lambda>r. case r of
              Some err \<Rightarrow> Unlock mu (Done (0, Some err))
            | None \<Rightarrow> Unlock mu (reset_bundles E abb items)))))
      else reset_bundles E abb items)"

definition ReconcileBase :: "ext \<Rightarrow> string \<Rightarrow> string \<Rightarrow> outcome mprog" where
  "ReconcileBase E name namespace = with_mutex (mutex_key ''appBundleBase'' name namespace)
     (GetInto KAppBundleBase proj_AppBundleBase namespace name zero_base (\<lambda>abb er. case er of
       Some e \<Rightarrow> Done (0, Some e)
     | None \<Rightarrow> with_state (base_app E abb) (\<lambda>e. Done (20, Some e)) (\<lambda>stateNeedsUpdating.
         if \<not> stateNeedsUpdating then Done (10, None)
         else ListObjs KAppBundle None [] (\<lambda>r. case r of
             Inl e \<Rightarrow> Done (0, Some e)
           | Inr abList \<Rightarrow> reset_bundles E abb (items_of proj_AppBundle abList)))))"

subsection \<open>The loop over the bundles\<close>

definition uses_base :: "AppBundleBase \<Rightarrow> AppBundle \<Rightarrow> bool" where
  "uses_base abb ab \<longleftrightarrow> sp_Base (ab_Spec ab) = Some (om_Name (abb_ObjectMeta abb))"

definition reset_all :: "AppBundle list \<Rightarrow> cache \<Rightarrow> cache" where
  "reset_all items State = fold (\<lambda>ab. ResetSpecHash (ab_ID ab)) items State"

lemma map_of_ResetSpecHash:
  "map_of (ResetSpecHash i State) j = map_option (\<lambda>v. if j = i then v\<lparr>as_SpecHash := []\<rparr> else v) (map_of State j)"
  by (cases "map_of State j") (auto simp: ResetSpecHash_def split: option.split)

lemma map_of_reset_all:
  "map_of (reset_all items State) j =
    map_option (\<lambda>v. if j \<in> ab_ID ` set items then v\<lparr>as_SpecHash := []\<rparr> else v) (map_of State j)"
proof (induction items arbitrary: State)
  case Nil
  then show ?case by (simp add: reset_all_def option.map_ident)
next
  case (Cons ab items)
  have "reset_all (ab # items) State = reset_all items (ResetSpecHash (ab_ID ab) State)" by (simp add: reset_all_def)
  with Cons.IH show ?case by (cases "map_of State j") (auto simp: map_of_ResetSpecHash)
qed

text \<open>If every bundle that uses the base is registered and every status update succeeds, all of them are treated.\<close>

lemma reset_bundles_all:
  assumes "\<And>ab. ab \<in> set items \<Longrightarrow> uses_base abb ab \<Longrightarrow> map_of (m_State m) (ab_ID ab) \<noteq> None"
    and "\<And>ab w. ab \<in> set items \<Longrightarrow> fst (api_write A (StatusUpdate (ObjAppBundle ab)) w) = None"
  shows "\<exists>w'. run A (reset_bundles E abb items) w m =
      ((60, None), w', m\<lparr>m_State := reset_all (filter (uses_base abb) items) (m_State m)\<rparr>) \<and>
    writes A (reset_bundles E abb items) w m =
      map (\<lambda>ab. (StatusUpdate (ObjAppBundle ab), None)) (filter (uses_base abb) items)"
  using assms
proof (induction items arbitrary: w m)
  case Nil
  then show ?case by (simp add: reset_all_def)
next
  case (Cons ab items)
  show ?case
  proof (cases "uses_base abb ab")
    case False
    with Cons.IH [of m w] Cons.prems show ?thesis by (simp add: uses_base_def)
  next
    case True
    with Cons.prems(1) [of ab] obtain v where v: "map_of (m_State m) (ab_ID ab) = Some v" by auto
    obtain w1 where w1: "api_write A (StatusUpdate (ObjAppBundle ab)) w = (None, w1)"
      using Cons.prems(2) [of ab w] by (cases "api_write A (StatusUpdate (ObjAppBundle ab)) w") auto
    define m1 where "m1 = m\<lparr>m_State := ResetSpecHash (ab_ID ab) (m_State m)\<rparr>"
    have "\<And>ab'. ab' \<in> set items \<Longrightarrow> uses_base abb ab' \<Longrightarrow> map_of (m_State m1) (ab_ID ab') \<noteq> None"
      using Cons.prems(1) by (auto simp: m1_def map_of_ResetSpecHash)
    from Cons.IH [OF this, of w1] Cons.prems(2) obtain w' where
      "run A (reset_bundles E abb items) w1 m1 =
        ((60, None), w', m1\<lparr>m_State := reset_all (filter (uses_base abb) items) (m_State m1)\<rparr>)"
      and "writes A (reset_bundles E abb items) w1 m1 =
        map (\<lambda>ab. (StatusUpdate (ObjAppBundle ab), None)) (filter (uses_base abb) items)"
      by auto
    moreover have "sp_Base (ab_Spec ab) = Some (om_Name (abb_ObjectMeta abb))" using True by (simp add: uses_base_def)
    ultimately show ?thesis using True v w1 by (simp add: GetState_def Let_def m1_def reset_all_def)
  qed
qed

text \<open>The loop stops at the first user of the base that is not registered.\<close>

lemma reset_bundles_unregistered:
  assumes "\<And>ab'. ab' \<in> set pre \<Longrightarrow> \<not> uses_base abb ab'" and "uses_base abb ab"
    and "map_of (m_State m) (ab_ID ab) = None"
  shows "run A (reset_bundles E abb (pre @ ab # items)) w m = ((5, None), w, m)"
    and "writes A (reset_bundles E abb (pre @ ab # items)) w m = []"
  using assms by (induction pre) (simp_all add: uses_base_def GetState_def Let_def)

text \<open>A base that can be read and hashed is always treated (the cache never says otherwise): the reconciliation is the loop.\<close>

lemma ReconcileBase_loop:
  assumes "cache_reachable (m_State m)"
    and "api_get A KAppBundleBase namespace name w = (Inr (ObjAppBundleBase abb), w1)"
    and "ext_HashAppBundleBaseSpec E (abb_Spec abb) = Inr h" and "api_now A w1 = (now, w2)" and "30 < now"
    and "api_list A KAppBundle None [] w2 = (Inr (map ObjAppBundle items), w3)"
    and "m1 = m\<lparr>m_State := snd (RegisterStateIfNotAlreadyRegistered (base_app E abb) (m_State m))\<rparr>"
  shows "run A (ReconcileBase E name namespace) w m = run A (reset_bundles E abb items) w3 m1"
    and "writes A (ReconcileBase E name namespace) w m = writes A (reset_bundles E abb items) w3 m1"
proof -
  have "items_of proj_AppBundle (map ObjAppBundle items) = items"
    by (induction items) (simp_all add: items_of_def List.map_filter_simps)
  then show "run A (ReconcileBase E name namespace) w m = run A (reset_bundles E abb items) w3 m1"
    and "writes A (ReconcileBase E name namespace) w m = writes A (reset_bundles E abb items) w3 m1"
    using assms(3) by (simp_all add: ReconcileBase_def bases.run_GetInto_found [OF assms(2)] bases.writes_GetInto_found [OF assms(2)]
        with_state_full [OF assms(1) _ assms(4,5), of _ h] assms(6,7))
qed

subsection \<open>Properties\<close>

text \<open>C32.
  A base is reconciled: when the base can be read and hashed, every bundle that names it is registered, and the API server accepts
  the status updates, then exactly one status update is sent for each bundle of the cluster that names the base, in the order of the list, and for
  no other; the hash in the cache entry of each of those bundles, and of no other object, is reset; and the base is looked at again in 60 seconds.
\<close>

theorem base_resets_its_users:
  assumes "cache_reachable (m_State m)"
    and "api_get A KAppBundleBase namespace name w = (Inr (ObjAppBundleBase abb), w1)"
    and "ext_HashAppBundleBaseSpec E (abb_Spec abb) = Inr h" and "api_now A w1 = (now, w2)" and "30 < now"
    and "api_list A KAppBundle None [] w2 = (Inr (map ObjAppBundle items), w3)"
    and "\<And>ab. ab \<in> set items \<Longrightarrow> uses_base abb ab \<Longrightarrow> map_of (m_State m) (ab_ID ab) \<noteq> None"
    and "\<And>ab w. ab \<in> set items \<Longrightarrow> fst (api_write A (StatusUpdate (ObjAppBundle ab)) w) = None"
  shows "\<exists>w' m'. run A (ReconcileBase E name namespace) w m = ((60, None), w', m') \<and>
    writes A (ReconcileBase E name namespace) w m =
      map (\<lambda>ab. (StatusUpdate (ObjAppBundle ab), None)) (filter (uses_base abb) items) \<and>
    (\<forall>i. i \<noteq> abb_ID abb \<longrightarrow> map_of (m_State m') i = map_option
      (\<lambda>v. if i \<in> ab_ID ` set (filter (uses_base abb) items) then v\<lparr>as_SpecHash := []\<rparr> else v) (map_of (m_State m) i))"
proof -
  define m1 where "m1 = m\<lparr>m_State := snd (RegisterStateIfNotAlreadyRegistered (base_app E abb) (m_State m))\<rparr>"
  have m1: "i \<noteq> abb_ID abb \<Longrightarrow> map_of (m_State m1) i = map_of (m_State m) i" for i
    by (simp add: m1_def register_other)
  have reg: "map_of (m_State m) i \<noteq> None \<Longrightarrow> map_of (m_State m1) i \<noteq> None" for i
    unfolding m1_def by simp (metis cache_step.register cache_step_keeps not_Some_eq)
  note full = ReconcileBase_loop [OF assms(1-6) m1_def]
  from reset_bundles_all [of items abb m1 A E w3] assms(7,8) reg obtain w' where
    "run A (reset_bundles E abb items) w3 m1 =
      ((60, None), w', m1\<lparr>m_State := reset_all (filter (uses_base abb) items) (m_State m1)\<rparr>)"
    and "writes A (reset_bundles E abb items) w3 m1 =
      map (\<lambda>ab. (StatusUpdate (ObjAppBundle ab), None)) (filter (uses_base abb) items)" by auto
  with full show ?thesis by (simp add: map_of_reset_all m1)
qed

text \<open>Whatever the API server answers and whatever is in the cache, reconciling a base writes nothing but status updates of bundles that have a base;
  a base, and the specification of a bundle, is never written.
\<close>

lemma base_writes_only_status:
  assumes "(q, r) \<in> set (writes A (ReconcileBase E name namespace) w m)"
  shows "\<exists>ab. q = StatusUpdate (ObjAppBundle ab) \<and> sp_Base (ab_Spec ab) \<noteq> None"
proof -
  define P where "P q \<longleftrightarrow> (\<exists>ab. q = StatusUpdate (ObjAppBundle ab) \<and> sp_Base (ab_Spec ab) \<noteq> None)" for q
  have loop: "sat (\<lambda>_. True) P (\<lambda>_. True) (reset_bundles E abb items)" for abb items
    by (induction items) (auto simp: P_def Let_def ReadCache_def UpdateCache_def split: sum.split option.split)
  have "sat (\<lambda>_. True) P (\<lambda>_. True) (ReconcileBase E name namespace)"
    unfolding ReconcileBase_def
    by (intro sat_mutexI bases.sat_GetInto sat_case_option sat_Done sat_with_state sat_if sat_ListObjs sat_case_sum loop) auto
  from sat_writes [OF this _ assms] show ?thesis by (simp add: P_def)
qed

text \<open>A cluster with a base, a bundle that uses it and one that does not; the server accepts every write.\<close>

definition accepting_api :: "store api" where
  "accepting_api = store_api\<lparr>api_write := (\<lambda>q w. (None, w))\<rparr>"

lemma accepting_api_sel [simp]:
  "api_get accepting_api = api_get store_api" "api_list accepting_api = api_list store_api"
  "api_write accepting_api q w = (None, w)" "api_now accepting_api = api_now store_api"
  by (simp_all add: accepting_api_def)

definition user_bundle :: AppBundle where
  "user_bundle = sample_bundle ''user'' ''prod'' (zero_spec\<lparr>sp_Base := Some ''common''\<rparr>)"

definition other_bundle :: AppBundle where
  "other_bundle = sample_bundle ''other'' ''prod'' zero_spec"

definition common_base :: AppBundleBase where
  "common_base = zero_base\<lparr>abb_ObjectMeta := sample_meta ''common'' []\<rparr>"

definition base_cluster :: store where
  "base_cluster = [ObjAppBundle user_bundle, ObjAppBundleBase common_base, ObjAppBundle other_bundle]"

lemma base_cluster_sel:
  "uses_base common_base user_bundle" "\<not> uses_base common_base other_bundle"
  "api_get accepting_api KAppBundleBase [] ''common'' base_cluster = (Inr (ObjAppBundleBase common_base), base_cluster)"
  "api_list accepting_api KAppBundle None [] base_cluster = (Inr (map ObjAppBundle [user_bundle, other_bundle]), base_cluster)"
  by (simp_all add: uses_base_def user_bundle_def other_bundle_def common_base_def base_cluster_def same_object_def has_labels_def)

definition base_mem :: mem where
  "base_mem = \<lparr>m_bundle = zero_bundle, m_State = snd (RegisterStateIfNotAlreadyRegistered (bundle_app sample_ext user_bundle) [])\<rparr>"

lemma base_mem_entry: "map_of (m_State base_mem) (ab_ID user_bundle) =
    Some \<lparr>as_SpecHash = ''hash'', as_LastReconciliation = 0, as_NextBackoffInSec = 10\<rparr>"
  by (simp add: base_mem_def register_new)

lemma base_mem_State:
  "cache_reachable (m_State base_mem)" "map_of (m_State base_mem) (ab_ID user_bundle) \<noteq> None"
  unfolding base_mem_entry by (simp_all add: base_mem_def) (rule cache_next [OF cache_empty cache_step.register])

lemma common_base_hash: "ext_HashAppBundleBaseSpec sample_ext (abb_Spec common_base) = Inr ''hash''"
  by (simp add: sample_ext_def)

theorem base_resets_its_users_witness:
  "\<exists>w' m'. run accepting_api (ReconcileBase sample_ext ''common'' []) base_cluster base_mem = ((60, None), w', m') \<and>
    writes accepting_api (ReconcileBase sample_ext ''common'' []) base_cluster base_mem =
      [(StatusUpdate (ObjAppBundle user_bundle), None)] \<and>
    map_option as_SpecHash (map_of (m_State m') (ab_ID user_bundle)) = Some []"
proof -
  have "\<exists>w' m'. run accepting_api (ReconcileBase sample_ext ''common'' []) base_cluster base_mem = ((60, None), w', m') \<and>
    writes accepting_api (ReconcileBase sample_ext ''common'' []) base_cluster base_mem =
      map (\<lambda>ab. (StatusUpdate (ObjAppBundle ab), None)) (filter (uses_base common_base) [user_bundle, other_bundle]) \<and>
    (\<forall>i. i \<noteq> abb_ID common_base \<longrightarrow> map_of (m_State m') i = map_option
      (\<lambda>v. if i \<in> ab_ID ` set (filter (uses_base common_base) [user_bundle, other_bundle]) then v\<lparr>as_SpecHash := []\<rparr> else v)
      (map_of (m_State base_mem) i))"
    by (rule base_resets_its_users [OF base_mem_State(1) base_cluster_sel(3) common_base_hash _ _ base_cluster_sel(4), of 1000])
      (auto simp: base_cluster_sel base_mem_entry)
  moreover have "ab_ID user_bundle \<noteq> abb_ID common_base"
    by (simp add: ab_ID_def abb_ID_def user_bundle_def common_base_def)
  ultimately show ?thesis by (auto simp: base_cluster_sel base_mem_entry)
qed

end
