(* ===== verification/LockOrder.thy ===== *)
theory LockOrder
  imports Locking BundleController BaseController
begin

section \<open>The operator takes its mutexes in order\<close>

text \<open>
  The programs of the two controllers and of the six reconcile functions follow the discipline of \<open>Locking\<close>, so any number of
  concurrent reconciliations makes progress. \<open>bundle_thread\<close> is \<open>Reconcile\<close> of \<open>controller.go\<close> up to the point where it starts its goroutines,
  with what it does after they have finished; \<open>bundle_thread_sequential\<close> says that running the goroutines under a schedule in
  between gives back \<open>ReconcileBundle\<close>. A chain of bases longer than the fuel ends the thread here, whereas in the
  program it goes on; for every fuel the other threads are not blocked by more than that.
\<close>

subsection \<open>The six reconcile functions\<close>

lemma rank_leaf:
  "rt \<notin> {''appBundleBase'', ''appBundle''} \<Longrightarrow> lock_rank (mutex_key rt n ns) = 3"
  "lock_rank (mutex_key ''appBundleBase'' n ns) = 1" "lock_rank (mutex_key ''appBundle'' n ns) = 2"
  by (simp_all add: lock_rank_def mutex_key_def)

text \<open>The shape of the six functions: one mutex, of a type of its own, around a body that touches no other and not the cache.\<close>

definition leaf :: "goerr option mprog \<Rightarrow> bool" where
  "leaf p \<longleftrightarrow> (\<exists>body rt. p = ReadBundle (\<lambda>ab. with_mutex (mutex_key rt (ab_Name ab) (ab_Namespace ab)) (body ab)) \<and>
     (\<forall>ab. calm (body ab)) \<and> rt \<notin> {''appBundleBase'', ''appBundle''})"

lemma leafI:
  "(\<And>ab. calm (body ab)) \<Longrightarrow> rt \<notin> {''appBundleBase'', ''appBundle''} \<Longrightarrow>
    leaf (ReadBundle (\<lambda>ab. with_mutex (mutex_key rt (ab_Name ab) (ab_Namespace ab)) (body ab)))"
  unfolding leaf_def by blast

lemma leaf_lock_ok:
  assumes "leaf p"
  shows "lock_ok 2 released p []"
proof -
  from assms obtain body rt where p: "p = ReadBundle (\<lambda>ab. with_mutex (mutex_key rt (ab_Name ab) (ab_Namespace ab)) (body ab))"
    and calm: "\<And>ab. calm (body ab)" and rt: "rt \<notin> {''appBundleBase'', ''appBundle''}" unfolding leaf_def by blast
  show ?thesis
    unfolding p ReadBundle_def
    by (simp, intro allI lock_ok_with_mutex calm) (simp_all add: rank_leaf(1) [OF rt] released_def)
qed

lemma leaf_cache: "leaf p \<Longrightarrow> sat (\<lambda>m. C (m_State m)) (\<lambda>_. True) (\<lambda>_. True) p"
  by (auto simp: leaf_def ReadBundle_def sat_calm)

lemma leaf_ReconcileService: "leaf (ReconcileService E)"
  unfolding ReconcileService_def by (intro leafI calm_intros) simp

lemma leaf_ReconcileDeployment: "leaf (ReconcileDeployment grow E)"
  unfolding ReconcileDeployment_def by (intro leafI calm_intros) simp

lemma leaf_ReconcileExternalSecret: "leaf (ReconcileExternalSecret E)"
  unfolding ReconcileExternalSecret_def by (intro leafI calm_intros) simp

lemma calm_restart_pod [calm_intros]: "calm (restart_pod ab)"
  by (simp add: restart_pod_def split: sum.split list.split)

lemma leaf_ReconcileConfigMap: "leaf (ReconcileConfigMap E)"
  unfolding ReconcileConfigMap_def by (intro leafI calm_intros) simp

lemma leaf_ReconcileIngress: "leaf (ReconcileIngress E)"
  unfolding ReconcileIngress_def reconcile_route_def delete_unexpected_def Let_def
  by (intro leafI calm_intros) simp

lemma calm_with_result [calm_intros]: "(\<And>x. calm (c x)) \<Longrightarrow> calm (with_result r c)"
  by (simp add: with_result_def split: sum.split)

lemma calm_backup_owner [calm_intros]: "(\<And>r. calm (c r)) \<Longrightarrow> calm (backup_owner ab keys job c)"
  by (induction ab keys job c rule: backup_owner.induct)
    (auto simp: Let_def intro!: calm_GetInto split: option.split)

lemma leaf_ReconcileVolumes: "leaf (ReconcileVolumes E)"
  unfolding ReconcileVolumes_def reconcile_volume_def ReconcileExistingPVC_def ReconcilePVC_def
    ReconcileRecurringBackupJob_def Let_def
  by (intro leafI calm_intros) simp

lemma leaf_reconciles: "p \<in> set (reconciles grow E) \<Longrightarrow> leaf p"
  by (auto simp: reconciles_def leaf_ReconcileService leaf_ReconcileDeployment leaf_ReconcileExternalSecret
      leaf_ReconcileConfigMap leaf_ReconcileIngress leaf_ReconcileVolumes)

subsection \<open>The controllers as threads\<close>

definition after_join :: "mutex \<Rightarrow> goerr option \<Rightarrow> outcome option mprog" where
  "after_join mu err = Unlock mu (Done (Some (case err of Some e \<Rightarrow> (120, Some e) | None \<Rightarrow> (10, None))))"

definition bundle_pass :: "nat \<Rightarrow> (nat \<Rightarrow> nat) \<Rightarrow> ext \<Rightarrow> mutex \<Rightarrow> AppBundle \<Rightarrow> (outcome option + fork) mprog" where
  "bundle_pass n grow E mu ab = bindP (resolve_base n E ab) (\<lambda>r. case r of
     None \<Rightarrow> Unlock mu (Done (Inl None))
   | Some (Inl e) \<Rightarrow> Unlock mu (Done (Inl (Some (120, Some e))))
   | Some (Inr ab') \<Rightarrow> Access (\<lambda>m. m\<lparr>m_bundle := ab'\<rparr>) (\<lambda>_. Done (Inr (reconciles grow E, after_join mu))))"

definition bundle_thread :: "nat \<Rightarrow> (nat \<Rightarrow> nat) \<Rightarrow> ext \<Rightarrow> string \<Rightarrow> string \<Rightarrow> (outcome option + fork) mprog" where
  "bundle_thread n grow E name namespace = (let mu = mutex_key ''appBundle'' name namespace in
     Lock mu (GetInto KAppBundle proj_AppBundle namespace name zero_bundle (\<lambda>ab er. case er of
       Some e \<Rightarrow> Unlock mu (Done (Inl (Some (120, Some e))))
     | None \<Rightarrow> with_state (bundle_app E ab) (\<lambda>e. Unlock mu (Done (Inl (Some (120, Some e))))) (\<lambda>stateNeedsUpdating.
         if \<not> stateNeedsUpdating then Unlock mu (Done (Inl (Some (10, None)))) else bundle_pass n grow E mu ab))))"

definition base_thread :: "ext \<Rightarrow> string \<Rightarrow> string \<Rightarrow> (outcome option + fork) mprog" where
  "base_thread E name namespace = bindP (ReconcileBase E name namespace) (\<lambda>out. Done (Inl (Some out)))"

lemma bindP_GetInto: "bindP (GetInto kd proj ns n init c) k = GetInto kd proj ns n init (\<lambda>cur er. bindP (c cur er) k)"
  by (auto simp: GetInto_def fun_eq_iff split: sum.split option.split)

lemma bindP_with_state: "bindP (with_state app fail go) k = with_state app (\<lambda>e. bindP (fail e) k) (\<lambda>b. bindP (go b) k)"
  by (auto simp: with_state_def UpdateCache_def ReadCache_def Let_def fun_eq_iff split: sum.split option.split)

definition sequential :: "nat list \<Rightarrow> outcome option + fork \<Rightarrow> outcome option mprog" where
  "sequential sched r = (case r of Inl out \<Rightarrow> Done out | Inr (ps, k) \<Rightarrow> bindP (RunReconciles sched ps) k)"

lemma bundle_pass_sequential:
  "bindP (bundle_pass n grow E mu ab) (sequential sched) = bindP (full_pass n sched grow E ab) (\<lambda>a. Unlock mu (Done a))"
proof -
  have tail: "bindP (RunReconciles sched (reconciles grow E)) (after_join mu) =
      bindP (run_reconciles sched grow E) (\<lambda>a. Unlock mu (Done a))"
    unfolding run_reconciles_def bindP_assoc
    by (rule arg_cong [where f = "bindP _"]) (auto simp: after_join_def fun_eq_iff split: option.split)
  show ?thesis
    unfolding bundle_pass_def full_pass_def bindP_assoc
    by (rule arg_cong [where f = "bindP _"])
      (auto simp: sequential_def tail fun_eq_iff split: option.split sum.split)
qed

lemma bundle_thread_sequential:
  "bindP (bundle_thread n grow E name namespace) (sequential sched) = ReconcileBundle n sched grow E name namespace"
  unfolding bundle_thread_def ReconcileBundle_def with_mutex_def Let_def bindP.simps bindP_GetInto
  by (rule arg_cong [where f = "Lock _"], rule arg_cong [where f = "GetInto _ _ _ _ _"])
    (auto simp: bindP_with_state bundle_pass_sequential sequential_def if_distrib [where f = "\<lambda>p. bindP p _"] cong: if_cong
      simp: fun_eq_iff split: option.split)

subsection \<open>Both threads follow the discipline\<close>

lemma lock_ok_GetInto:
  "(\<And>cur er. lock_ok lo Q (c cur er) H) \<Longrightarrow> lock_ok lo Q (GetInto kd proj ns n init c) H"
  by (simp add: GetInto_def split: sum.split option.split)

lemma lock_ok_with_state:
  assumes "\<And>e. lock_ok lo Q (fail e) H" and "\<And>b. lock_ok lo Q (go b) H"
  shows "lock_ok lo Q (with_state app fail go) H"
  using assms by (simp add: with_state_def UpdateCache_def ReadCache_def Let_def split: sum.split option.split)

lemma lock_ok_with_mutexI:
  assumes "lock_ok lo (\<lambda>H a. H = [mu]) p [mu]" and "lo < lock_rank mu" and "\<And>a. Q [] a"
  shows "lock_ok lo Q (with_mutex mu p) []"
proof -
  have "lock_ok lo (\<lambda>H a. lock_ok lo Q (Unlock mu (Done a)) H) p [mu]"
    by (rule lock_ok_mono [OF assms(1)]) (simp add: assms(3))
  with assms(2) show ?thesis by (simp add: with_mutex_def lock_ok_bind)
qed

lemma lock_ok_reset_bundles:
  assumes "lock_rank mb = 1"
  shows "lock_ok 0 (\<lambda>H a. H = [mb]) (reset_bundles E abb items) [mb]"
proof (induction items)
  case Nil
  show ?case by simp
next
  case (Cons ab items)
  have "lock_ok 0 (\<lambda>H a. H = [mb]) (if b then Done x else Log l (Done y)) [mb]" for b l and x y :: outcome
    by simp
  with Cons assms show ?case
    by (simp add: Let_def ReadCache_def UpdateCache_def rank_leaf(3) split: sum.split option.split)
qed

lemma base_thread_ok: "lock_ok 0 fork_ok (base_thread E name namespace) []"
proof -
  let ?mb = "mutex_key ''appBundleBase'' name namespace"
  have "lock_ok 0 (\<lambda>H a. H = []) (ReconcileBase E name namespace) []"
    unfolding ReconcileBase_def
  proof (rule lock_ok_with_mutexI)
    show "lock_ok 0 (\<lambda>H a. H = [?mb]) (GetInto KAppBundleBase proj_AppBundleBase namespace name zero_base (\<lambda>abb er. case er of
       Some e \<Rightarrow> Done (0, Some e)
     | None \<Rightarrow> with_state (base_app E abb) (\<lambda>e. Done (20, Some e)) (\<lambda>stateNeedsUpdating.
         if \<not> stateNeedsUpdating then Done (10, None)
         else ListObjs KAppBundle None [] (\<lambda>r. case r of
             Inl e \<Rightarrow> Done (0, Some e)
           | Inr abList \<Rightarrow> reset_bundles E abb (items_of proj_AppBundle abList))))) [?mb]"
      by (auto intro!: lock_ok_GetInto lock_ok_with_state lock_ok_reset_bundles simp: rank_leaf split: option.split sum.split)
  qed (simp_all add: rank_leaf)
  then show ?thesis
    unfolding base_thread_def by (intro lock_ok_bind) (rule lock_ok_mono, auto simp: fork_ok_def)
qed

lemma calm_resolve_base: "calm (resolve_base n E ab)"
proof -
  have "calm (ResolveAppBundleBase n E ab abb)" for abb
    by (induction n arbitrary: ab abb) (auto intro!: calm_GetInto split: sum.split option.split)
  then show ?thesis by (auto simp: resolve_base_def intro!: calm_GetInto split: option.split)
qed

lemma bundle_pass_ok:
  assumes "lock_rank mu = 2"
  shows "lock_ok 0 fork_ok (bundle_pass n grow E mu ab) [mu]"
proof -
  have fork: "fork_ok [mu] (Inr (reconciles grow E, after_join mu))"
    using assms leaf_lock_ok [OF leaf_reconciles] by (auto simp: fork_ok_def kid_ok_def after_join_def released_def)
  show ?thesis
    unfolding bundle_pass_def
    by (rule lock_ok_bind, rule calm_lock_ok [OF calm_resolve_base])
      (auto simp: fork fork_ok_def [of "[]"] split: option.split sum.split)
qed

lemma bundle_thread_ok: "lock_ok 0 fork_ok (bundle_thread n grow E name namespace) []"
  unfolding bundle_thread_def Let_def
  by (auto intro!: lock_ok_GetInto lock_ok_with_state bundle_pass_ok simp: rank_leaf fork_ok_def [of "[]"] split: option.split)

text \<open>The calls of \<open>Reconcile\<close> that controller-runtime makes, for any object.\<close>

inductive operator_call :: "nat \<Rightarrow> (nat \<Rightarrow> nat) \<Rightarrow> ext \<Rightarrow> (outcome option + fork) mprog \<Rightarrow> bool" for n grow E where
  call_bundle: "operator_call n grow E (bundle_thread n grow E name namespace)"
| call_base: "operator_call n grow E (base_thread E name namespace)"

lemma operator_call_ok: "operator_call n grow E p \<Longrightarrow> lock_ok 0 fork_ok p []"
  by (induction rule: operator_call.induct) (rule bundle_thread_ok base_thread_ok)+

subsection \<open>Properties\<close>

text \<open>C5.
  The operator does not deadlock: however many reconciliations of bundles and bases run concurrently, with whatever answers of
  the API server and contents of memory, as long as one of them has not finished some thread or goroutine can make a step. The mutexes are ranked base, bundle, reconcile
  function; a goroutine started by a reconciliation takes its mutex while the reconciliation holds that of the bundle, and the base controller takes those of its
  bundles one at a time while it holds that of the base.
\<close>

theorem operator_deadlock_free:
  assumes "system_reachable (operator_call n grow E) ts" and "t \<in> set ts" and "\<not> finished t"
  shows "\<exists>ts'. system_step ts ts'"
  using system_progress [OF system_reachable_ok [OF assms(1) operator_call_ok] assms(2,3)] .

text \<open>C6.
  The mutexes exclude: in every reachable state of the concurrent reconciliations no mutex is held twice, neither by two threads nor by two goroutines
  of one, and a reconciliation that has finished holds none, so every \<open>Unlock\<close> releases what was locked on every path, errors included.
\<close>

theorem operator_mutual_exclusion:
  assumes "system_reachable (operator_call n grow E) ts"
  shows "distinct (all_held ts) \<and> (\<forall>t\<in>set ts. finished t \<longrightarrow> held t = [])"
proof -
  have "held t = []" if "thread_ok t" "finished t" for t
    using that by (cases t rule: finished.cases) (auto simp: released_def)
  with system_reachable_ok [OF assms operator_call_ok] show ?thesis by (auto simp: system_ok_def)
qed

text \<open>Two reconciliations of one bundle: the first holds its mutex, for which the second waits.\<close>

definition app_mutex :: mutex where
  "app_mutex = mutex_key ''appBundle'' ''app'' ''prod''"

lemma contended:
  "\<exists>p. system_reachable (operator_call 1 id sample_ext) [Head [app_mutex] p, Head [] (Lock app_mutex p)]"
proof -
  obtain p where p: "bundle_thread 1 id sample_ext ''app'' ''prod'' = Lock app_mutex p"
    by (simp add: bundle_thread_def Let_def app_mutex_def)
  have call: "operator_call 1 id sample_ext (Lock app_mutex p)"
    unfolding p [symmetric] by (rule call_bundle)
  note add = system_call [of "operator_call 1 id sample_ext" _ "Lock app_mutex p"]
  have "system_reachable (operator_call 1 id sample_ext) ([] @ [Head [] (Lock app_mutex p)])"
    by (rule add) (rule system_start, rule call)
  then have "system_reachable (operator_call 1 id sample_ext) (([] @ [Head [] (Lock app_mutex p)]) @ [Head [] (Lock app_mutex p)])"
    by (rule add) (rule call)
  then have two: "system_reachable (operator_call 1 id sample_ext) [Head [] (Lock app_mutex p), Head [] (Lock app_mutex p)]"
    by simp
  have "thread_step {} (Head [] (Lock app_mutex p)) (Head [app_mutex] p)"
    by (intro head_effect step_Lock) simp
  then have "system_step ([] @ Head [] (Lock app_mutex p) # [Head [] (Lock app_mutex p)])
      ([] @ Head [app_mutex] p # [Head [] (Lock app_mutex p)])"
    by (intro system_step.intros) (simp add: all_held_def)
  with two system_next show ?thesis by fastforce
qed

theorem operator_deadlock_free_witness:
  "\<exists>p ts'. system_reachable (operator_call 1 id sample_ext) [Head [app_mutex] p, Head [] (Lock app_mutex p)] \<and>
    system_step [Head [app_mutex] p, Head [] (Lock app_mutex p)] ts'"
proof -
  obtain p where r: "system_reachable (operator_call 1 id sample_ext) [Head [app_mutex] p, Head [] (Lock app_mutex p)]"
    using contended by blast
  from operator_deadlock_free [OF this, of "Head [] (Lock app_mutex p)"] r show ?thesis by auto
qed

theorem operator_mutual_exclusion_witness:
  "\<exists>p. system_reachable (operator_call 1 id sample_ext) [Head [app_mutex] p, Head [] (Lock app_mutex p)] \<and>
    distinct (all_held [Head [app_mutex] p, Head [] (Lock app_mutex p)])"
proof -
  obtain p where r: "system_reachable (operator_call 1 id sample_ext) [Head [app_mutex] p, Head [] (Lock app_mutex p)]"
    using contended by blast
  from operator_mutual_exclusion [OF this] r show ?thesis by blast
qed

end
