(* ===== verification/CacheRefinement.thy ===== *)
theory CacheRefinement
  imports LockOrder
begin

section \<open>The controllers drive the cache by the steps of its state machine\<close>

text \<open>
  The state machine of \<open>StateCache\<close> (register an object, reset a hash) is what the controllers do to the cache, and all they do to
  it: a reconciliation moves the cache along \<open>cache_step\<close>, whatever the server answers and however the goroutines are
  scheduled. So its invariant holds in every cache the operator can reach, which is what the controllers' theorems assume.
\<close>

definition cache_from :: "cache \<Rightarrow> mem \<Rightarrow> bool" where
  "cache_from S m \<longleftrightarrow> cache_step\<^sup>*\<^sup>* S (m_State m)"

lemma cache_from_step:
  assumes "cache_from S m" and "cache_step (m_State m) S'"
  shows "cache_from S (m\<lparr>m_State := S'\<rparr>)"
  using assms unfolding cache_from_def by (simp add: rtranclp.rtrancl_into_rtrancl)

lemmas cache_from_steps = cache_from_step [OF _ cache_step.register] cache_from_step [OF _ cache_step.reset]

lemma cache_steps_reachable: "cache_step\<^sup>*\<^sup>* S S' \<Longrightarrow> cache_reachable S \<Longrightarrow> cache_reachable S'"
  by (induction rule: rtranclp_induct) (auto intro: cache_next)

lemma sat_cache_with_state:
  assumes "\<And>e. sat (cache_from S) P Q (fail e)" and "\<And>b. sat (cache_from S) P Q (go b)"
  shows "sat (cache_from S) P Q (with_state app fail go)"
  using assms by (auto simp: with_state_def UpdateCache_def ReadCache_def Let_def cache_from_steps split: option.split sum.split)

lemma sat_cache_base: "sat (cache_from S) (\<lambda>_. True) (\<lambda>_. True) (ReconcileBase E name namespace)"
proof -
  have "sat (cache_from S) (\<lambda>_. True) (\<lambda>_. True) (reset_bundles E abb items)" for abb items
    by (induction items) (auto simp: Let_def ReadCache_def UpdateCache_def cache_from_steps split: sum.split option.split)
  then show ?thesis
    unfolding ReconcileBase_def
    by (intro sat_mutexI bases.sat_GetInto sat_case_option sat_Done sat_cache_with_state sat_if sat_ListObjs sat_case_sum) auto
qed

lemma sat_cache_bundle: "sat (cache_from S) (\<lambda>_. True) (\<lambda>_. True) (ReconcileBundle n sched grow E name namespace)"
proof -
  have goroutine: "sat (cache_from S) (\<lambda>_. True) (\<lambda>_. True) p" if "p \<in> set (reconciles grow E)" for p
    using leaf_cache [OF leaf_reconciles [OF that], of "cache_step\<^sup>*\<^sup>* S"] by (simp add: cache_from_def [abs_def])
  have group: "sat (cache_from S) (\<lambda>_. True) (\<lambda>_. True) (run_reconciles sched grow E)"
    unfolding run_reconciles_def
    by (rule sat_bind, rule sat_mono [OF sat_RunReconciles [OF goroutine]]) (auto split: option.split)
  have base: "sat (cache_from S) (\<lambda>_. True) (\<lambda>_. True) (resolve_base n E ab)" for ab
    unfolding resolve_base_def by (intro sat_case_option sat_Done bases.sat_GetInto sat_resolve) auto
  have pass: "sat (cache_from S) (\<lambda>_. True) (\<lambda>_. True) (full_pass n sched grow E ab)" for ab
    unfolding full_pass_def
    by (rule sat_bind, rule sat_mono [OF base]) (auto simp: group cache_from_def split: option.split sum.split)
  then show ?thesis
    unfolding ReconcileBundle_def
    by (intro sat_mutexI bundles.sat_GetInto sat_case_option sat_Done sat_cache_with_state sat_if pass) auto
qed

text \<open>C33.
  The reconciliations of bundles and of bases refine the state machine of the cache: whatever the server answers and however the goroutines are scheduled, the cache
  after a reconciliation is reached from the cache before it by registrations of objects and resets of hashes alone. In particular an object once registered stays
  registered, and no reconciliation ever records its time.
\<close>

theorem reconciliations_refine_cache:
  "cache_step\<^sup>*\<^sup>* (m_State m) (m_State (snd (snd (run A (ReconcileBundle n sched grow E name namespace) w m)))) \<and>
    cache_step\<^sup>*\<^sup>* (m_State m) (m_State (snd (snd (run A (ReconcileBase E name namespace) w m))))"
proof -
  have start: "cache_from (m_State m) m" by (simp add: cache_from_def)
  have "cache_from (m_State m) (snd (snd (run A (ReconcileBundle n sched grow E name namespace) w m)))"
    using sat_run [OF sat_cache_bundle start] by (metis prod.collapse)
  moreover have "cache_from (m_State m) (snd (snd (run A (ReconcileBase E name namespace) w m)))"
    using sat_run [OF sat_cache_base start] by (metis prod.collapse)
  ultimately show ?thesis by (simp add: cache_from_def)
qed

end
