(* ===== verification/Quiet.thy ===== *)
theory Quiet
  imports Concurrency Memory
begin

section \<open>Programs that only look\<close>

text \<open>
  \<open>quiet A w I Q p\<close>: run against the client \<open>A\<close> in the cluster state \<open>w\<close>, under any
  interference that keeps the shared memory in \<open>I\<close>, the program \<open>p\<close> reads the cluster
  without changing it, sends no write, keeps \<open>I\<close> itself, and returns results in \<open>Q\<close>. It
  is to absence of writes what \<open>sat\<close> is to safety, and like it is preserved by sequencing, by
  loops, and by every interleaving of goroutines. Here the answers of the client are known, since the
  cluster is in one state throughout.
\<close>

primrec quiet :: "'w api \<Rightarrow> 'w \<Rightarrow> ('s \<Rightarrow> bool) \<Rightarrow> ('a \<Rightarrow> bool) \<Rightarrow> ('s, 'a) prog \<Rightarrow> bool" where
  "quiet A w I Q (Done a) \<longleftrightarrow> Q a"
| "quiet A w I Q (Get kd ns n c) \<longleftrightarrow>
     (case api_get A kd ns n w of (r, w') \<Rightarrow> w' = w \<and> quiet A w I Q (c r))"
| "quiet A w I Q (ListObjs kd ns sel c) \<longleftrightarrow>
     (case api_list A kd ns sel w of (r, w') \<Rightarrow> w' = w \<and> quiet A w I Q (c r))"
| "quiet A w I Q (Write q c) \<longleftrightarrow> False"
| "quiet A w I Q (Now c) \<longleftrightarrow> (case api_now A w of (t, w') \<Rightarrow> w' = w \<and> quiet A w I Q (c t))"
| "quiet A w I Q (Access f c) \<longleftrightarrow> (\<forall>s. I s \<longrightarrow> I (f s) \<and> quiet A w I Q (c s))"
| "quiet A w I Q (Lock m p) \<longleftrightarrow> quiet A w I Q p"
| "quiet A w I Q (Unlock m p) \<longleftrightarrow> quiet A w I Q p"
| "quiet A w I Q (Log l p) \<longleftrightarrow> quiet A w I Q p"

lemma quiet_mono: "quiet A w I Q p \<Longrightarrow> (\<And>a. Q a \<Longrightarrow> Q' a) \<Longrightarrow> quiet A w I Q' p"
  by (induction p) (auto split: prod.splits)

lemma quiet_bind: "quiet A w I (\<lambda>a. quiet A w I Q (k a)) p \<Longrightarrow> quiet A w I Q (bindP p k)"
  by (induction p) (auto split: prod.splits)

text \<open>What it says of an execution.\<close>

lemma quiet_run:
  assumes "quiet A w I Q p" and "I s"
  obtains a s' where "run A p w s = (a, w, s')" and "Q a" and "I s'" and "writes A p w s = []"
proof -
  have "\<exists>a s'. run A p w s = (a, w, s') \<and> Q a \<and> I s' \<and> writes A p w s = []"
    using assms by (induction p arbitrary: s rule: prog_induct) (auto split: prod.splits)
  with that show thesis by blast
qed

subsection \<open>Sequencing and loops\<close>

abbreviation no_error :: "goerr option \<Rightarrow> bool" where
  "no_error e \<equiv> e = None"

lemma quiet_thenP: "quiet A w I no_error p \<Longrightarrow> quiet A w I Q q \<Longrightarrow> quiet A w I Q (thenP p q)"
  unfolding thenP_def by (rule quiet_bind, erule quiet_mono) simp

lemma quiet_forP:
  "(\<And>x. x \<in> set xs \<Longrightarrow> quiet A w I no_error (body x)) \<Longrightarrow> quiet A w I no_error (forP xs body)"
  by (induction xs) (auto intro: quiet_thenP)

lemma quiet_with_mutex [simp]: "quiet A w I Q (with_mutex m p) \<longleftrightarrow> quiet A w I Q p"
proof -
  have "quiet A w I Q (bindP p (\<lambda>a. Unlock m (Done a))) \<longleftrightarrow> quiet A w I Q p"
    by (induction p) (auto split: prod.splits)
  then show ?thesis by (simp add: with_mutex_def)
qed

lemma quiet_ReadBundle:
  "(\<And>m. I m \<Longrightarrow> quiet A w I Q (c (m_bundle m))) \<Longrightarrow> quiet A w I Q (ReadBundle c)"
  by (simp add: ReadBundle_def)

lemma quiet_UpdateBundle:
  assumes "\<And>m. I m \<Longrightarrow> I (m\<lparr>m_bundle := snd (f (m_bundle m))\<rparr>)"
    and "\<And>m. I m \<Longrightarrow> quiet A w I Q (c (fst (f (m_bundle m))))"
  shows "quiet A w I Q (UpdateBundle f c)"
  using assms by (simp add: UpdateBundle_def)

text \<open>What a \<open>Get\<close> finds in the cluster state, and the answer "not found".\<close>

definition reading :: "'w api \<Rightarrow> 'w \<Rightarrow> kind \<Rightarrow> (kobj \<Rightarrow> 'o option) \<Rightarrow> string \<Rightarrow> string \<Rightarrow> 'o option" where
  "reading A w kd proj ns n = (case api_get A kd ns n w of
     (Inr x, w') \<Rightarrow> if w' = w then proj x else None | _ \<Rightarrow> None)"

definition absent :: "'w api \<Rightarrow> 'w \<Rightarrow> kind \<Rightarrow> string \<Rightarrow> string \<Rightarrow> bool" where
  "absent A w kd ns n \<longleftrightarrow> (case api_get A kd ns n w of
     (Inl e, w') \<Rightarrow> w' = w \<and> IsNotFound (Some e) | _ \<Rightarrow> False)"

lemma absentE:
  assumes "absent A w kd ns n"
  obtains e where "api_get A kd ns n w = (Inl e, w)" and "IsNotFound (Some e)"
  using assms by (auto simp: absent_def split: prod.splits sum.splits)

context kube_kind
begin

lemma reading_iff: "reading A w kd proj ns n = Some x \<longleftrightarrow> api_get A kd ns n w = (Inr (inj x), w)"
  by (auto simp: reading_def proj_inj split: prod.splits sum.splits dest: proj_Some)

lemma quiet_GetInto_found:
  "api_get A kd ns n w = (Inr (inj x), w) \<Longrightarrow> quiet A w I Q (c x None) \<Longrightarrow>
    quiet A w I Q (GetInto kd proj ns n init c)"
  by (simp add: GetInto_def proj_inj)

lemma quiet_GetInto_error:
  "api_get A kd ns n w = (Inl e, w) \<Longrightarrow> quiet A w I Q (c init (Some e)) \<Longrightarrow>
    quiet A w I Q (GetInto kd proj ns n init c)"
  by (simp add: GetInto_def)

end

subsection \<open>Goroutines\<close>

lemma quiet_step1: "quiet A w I Q p \<Longrightarrow> quiet A w I (quiet A w I Q) (step1 p)"
  by (cases p) (auto split: prod.splits)

lemma quiet_drain:
  "(\<And>t. t \<in> set ts \<Longrightarrow> quiet A w I no_error t) \<Longrightarrow> quiet A w I no_error (drain ts None)"
proof (induction ts)
  case (Cons t ts)
  have t: "quiet A w I no_error t" by (rule Cons.prems) simp
  have ts: "quiet A w I no_error (drain ts None)"
    by (rule Cons.IH) (rule Cons.prems, simp)
  have "quiet A w I (\<lambda>e. quiet A w I no_error (drain ts (first_error None e))) t"
    using t by (rule quiet_mono) (simp add: first_error_def ts)
  then show ?case by (simp add: quiet_bind)
qed simp

lemma quiet_par:
  assumes "\<And>t. t \<in> set ts \<Longrightarrow> quiet A w I no_error t"
  shows "quiet A w I no_error (par sched ts None)"
  using assms
proof (induction sched arbitrary: ts)
  case Nil
  then show ?case by (simp add: quiet_drain)
next
  case (Cons i sched)
  show ?case
  proof (cases "i < length ts")
    case False
    with Cons show ?thesis by simp
  next
    case i: True
    then have t: "quiet A w I no_error (ts ! i)" using Cons.prems by simp
    show ?thesis
    proof (cases "\<exists>e. ts ! i = Done e")
      case True
      then obtain e where e: "ts ! i = Done e" by blast
      with t have "first_error None e = None" by (simp add: first_error_def)
      moreover have "quiet A w I no_error (par sched (take i ts @ drop (Suc i) ts) None)"
        by (intro Cons.IH) (auto intro: Cons.prems dest: in_set_takeD in_set_dropD)
      ultimately show ?thesis using i e by simp
    next
      case False
      have "quiet A w I no_error (par sched (ts[i := p']) None)" if "quiet A w I no_error p'" for p'
        using set_update_subset_insert [of ts i p'] Cons.prems that by (intro Cons.IH) blast
      then have "quiet A w I (\<lambda>p'. quiet A w I no_error (par sched (ts[i := p']) None)) (step1 (ts ! i))"
        by (rule quiet_mono [OF quiet_step1 [OF t]])
      then have "quiet A w I no_error (bindP (step1 (ts ! i)) (\<lambda>p'. par sched (ts[i := p']) None))"
        by (rule quiet_bind)
      with i False show ?thesis by (simp only: par_step) simp
    qed
  qed
qed

lemma quiet_RunReconciles:
  "(\<And>t. t \<in> set ts \<Longrightarrow> quiet A w I no_error t) \<Longrightarrow> quiet A w I no_error (RunReconciles sched ts)"
  unfolding RunReconciles_def by (rule quiet_par)

end
