(* ===== verification/Cluster.thy ===== *)
theory Cluster
  imports Quiet Samples
begin

section \<open>The contents of a cluster, and an API server without other actors\<close>

text \<open>
  What a cluster holds is a map from kind, namespace and name to objects. \<open>answers A w s\<close>: in
  its state \<open>w\<close> the client \<open>A\<close> answers every read, and what it answers are the contents
  \<open>s\<close>. The locale \<open>kube_server\<close> states what the Kubernetes API documents of reads and writes, for
  a client no one else uses: a read that succeeds tells the contents, and \<open>not found\<close> is only
  said of what does not exist; a write that succeeds has stored the object as \<open>R\<close> allows (the
  server may fill in defaults) or removed it; any call may fail, and a failed write may or may not
  have been carried out. It is interpreted for a list of objects in memory.
\<close>

type_synonym object_key = "kind \<times> string \<times> string"
type_synonym cluster = "object_key \<Rightarrow> kobj option"

definition key_of :: "kobj \<Rightarrow> object_key" where
  "key_of x = (kind_of x, obj_Namespace x, obj_Name x)"

lemma fst_key_of [simp]: "fst (key_of x) = kind_of x"
  by (simp add: key_of_def)

definition held :: "cluster \<Rightarrow> kind \<Rightarrow> (kobj \<Rightarrow> 'o option) \<Rightarrow> string \<Rightarrow> string \<Rightarrow> 'o option" where
  "held s kd proj ns n = Option.bind (s (kd, ns, n)) proj"

definition listed :: "cluster \<Rightarrow> kind \<Rightarrow> string option \<Rightarrow> (string \<times> string) list \<Rightarrow> kobj set" where
  "listed s kd nso sel = {x. \<exists>ns n. s (kd, ns, n) = Some x \<and>
     (case nso of None \<Rightarrow> True | Some ns' \<Rightarrow> ns = ns') \<and> has_labels sel x}"

definition keyed :: "cluster \<Rightarrow> bool" where
  "keyed s \<longleftrightarrow> (\<forall>kd ns n x. s (kd, ns, n) = Some x \<longrightarrow> key_of x = (kd, ns, n))"

lemma keyedD: "keyed s \<Longrightarrow> s k = Some x \<Longrightarrow> key_of x = k"
  by (cases k) (simp add: keyed_def)

definition answers :: "'w api \<Rightarrow> 'w \<Rightarrow> cluster \<Rightarrow> bool" where
  "answers A w s \<longleftrightarrow>
     (\<forall>kd ns n. case s (kd, ns, n) of
        Some x \<Rightarrow> api_get A kd ns n w = (Inr x, w)
      | None \<Rightarrow> \<exists>e. api_get A kd ns n w = (Inl e, w) \<and> IsNotFound (Some e)) \<and>
     (\<forall>kd nso sel. \<exists>xs. api_list A kd nso sel w = (Inr xs, w) \<and> set xs = listed s kd nso sel)"

lemma answers_get: "answers A w s \<Longrightarrow> s (kd, ns, n) = Some x \<Longrightarrow> api_get A kd ns n w = (Inr x, w)"
  unfolding answers_def by (auto dest: spec [of _ kd] split: option.splits)

lemma answers_missing:
  assumes "answers A w s" and "s (kd, ns, n) = None"
  obtains e where "api_get A kd ns n w = (Inl e, w)" and "IsNotFound (Some e)"
proof -
  from assms(1) have "case s (kd, ns, n) of
        Some x \<Rightarrow> api_get A kd ns n w = (Inr x, w)
      | None \<Rightarrow> \<exists>e. api_get A kd ns n w = (Inl e, w) \<and> IsNotFound (Some e)"
    unfolding answers_def by blast
  with assms(2) that show thesis by auto
qed

lemma answers_list:
  assumes "answers A w s"
  obtains xs where "api_list A kd nso sel w = (Inr xs, w)" and "set xs = listed s kd nso sel"
  using assms unfolding answers_def by blast

context kube_kind
begin

lemma held_iff: "held s kd proj ns n = Some x \<longleftrightarrow> s (kd, ns, n) = Some (inj x)"
  by (auto simp: held_def bind_eq_Some_conv proj_inj dest: proj_Some)

lemma held_get: "answers A w s \<Longrightarrow> held s kd proj ns n = Some x \<Longrightarrow> api_get A kd ns n w = (Inr (inj x), w)"
  by (simp add: held_iff answers_get)

lemma held_upd_other: "fst k \<noteq> kd \<Longrightarrow> held (s(k := v)) kd proj ns n = held s kd proj ns n"
  by (auto simp: held_def)

end

subsection \<open>Writes\<close>

definition written :: "(kobj \<Rightarrow> kobj \<Rightarrow> bool) \<Rightarrow> wreq \<Rightarrow> cluster \<Rightarrow> cluster \<Rightarrow> bool" where
  "written R q s s' \<longleftrightarrow> (case q of
     Create x \<Rightarrow> \<exists>y. R x y \<and> s' = s(key_of x \<mapsto> y)
   | Update x \<Rightarrow> \<exists>y. R x y \<and> s' = s(key_of x \<mapsto> y)
   | Delete x \<Rightarrow> s' = s(key_of x := None)
   | StatusUpdate x \<Rightarrow> \<exists>y. key_of y = key_of x \<and> s' = s(key_of x \<mapsto> y))"

lemma written_simps [simp]:
  "written R (Create x) s s' \<longleftrightarrow> (\<exists>y. R x y \<and> s' = s(key_of x \<mapsto> y))"
  "written R (Update x) s s' \<longleftrightarrow> (\<exists>y. R x y \<and> s' = s(key_of x \<mapsto> y))"
  "written R (Delete x) s s' \<longleftrightarrow> s' = s(key_of x := None)"
  by (simp_all add: written_def)

locale kube_server =
  fixes A :: "'w api" and obs :: "'w \<Rightarrow> cluster" and R :: "kobj \<Rightarrow> kobj \<Rightarrow> bool"
  assumes keyed: "keyed (obs w)"
    and get_obs: "api_get A kd ns n w = (r, w') \<Longrightarrow> obs w' = obs w"
    and get_Inr: "api_get A kd ns n w = (Inr x, w') \<Longrightarrow> obs w (kd, ns, n) = Some x"
    and get_not_found: "api_get A kd ns n w = (Inl e, w') \<Longrightarrow> IsNotFound (Some e) \<Longrightarrow>
      obs w (kd, ns, n) = None"
    and list_obs: "api_list A kd nso sel w = (r', w') \<Longrightarrow> obs w' = obs w"
    and list_Inr: "api_list A kd nso sel w = (Inr xs, w') \<Longrightarrow> set xs = listed (obs w) kd nso sel"
    and now_obs: "api_now A w = (t, w') \<Longrightarrow> obs w' = obs w"
    and write_ok: "api_write A q w = (None, w') \<Longrightarrow> written R q (obs w) (obs w')"
    and write_failed: "api_write A q w = (Some e, w') \<Longrightarrow> obs w' = obs w \<or> written R q (obs w) (obs w')"

lemma kube_server_mono:
  assumes "kube_server A obs R" and "\<And>x y. R x y \<Longrightarrow> R' x y"
  shows "kube_server A obs R'"
proof -
  have w: "written R' q s s'" if "written R q s s'" for q s s'
    using that by (cases q) (auto simp: written_def intro: assms(2))
  note A = kube_server.get_obs [OF assms(1)] kube_server.get_Inr [OF assms(1)] kube_server.get_not_found [OF assms(1)]
    kube_server.list_obs [OF assms(1)] kube_server.list_Inr [OF assms(1)] kube_server.now_obs [OF assms(1)]
  show ?thesis
  proof unfold_locales
    show "written R' q (obs w) (obs w')" if "api_write A q w = (None, w')" for q w w'
      by (rule w, rule kube_server.write_ok [OF assms(1) that])
    show "obs w' = obs w \<or> written R' q (obs w) (obs w')" if "api_write A q w = (Some e, w')" for q w e w'
      using kube_server.write_failed [OF assms(1) that] w by blast
  qed (rule kube_server.keyed [OF assms(1)], (erule A; assumption?)+)
qed

subsection \<open>A server in memory\<close>

definition contents :: "store \<Rightarrow> cluster" where
  "contents w = (\<lambda>k. find (\<lambda>x. key_of x = k) w)"

definition memory_api :: "store api" where
  "memory_api = store_api\<lparr>api_list := (\<lambda>kd nso sel w.
     (Inr (filter (\<lambda>x. find (same_as x) w = Some x \<and> kind_of x = kd \<and>
        (case nso of None \<Rightarrow> True | Some ns \<Rightarrow> obj_Namespace x = ns) \<and> has_labels sel x) w), w))\<rparr>"

lemma same_object_key: "same_object kd ns n = (\<lambda>x. key_of x = (kd, ns, n))"
  by (simp add: fun_eq_iff same_object_def key_of_def)

lemma same_as_key: "same_as x = (\<lambda>y. key_of y = key_of x)"
  by (simp add: fun_eq_iff same_as_def same_object_def key_of_def)

lemma memory_api_sel [simp]:
  "api_get memory_api kd ns n w = (case contents w (kd, ns, n) of None \<Rightarrow> (Inl not_found, w) | Some x \<Rightarrow> (Inr x, w))"
  "api_list memory_api kd nso sel w = (Inr (filter (\<lambda>x. contents w (key_of x) = Some x \<and> kind_of x = kd \<and>
     (case nso of None \<Rightarrow> True | Some ns \<Rightarrow> obj_Namespace x = ns) \<and> has_labels sel x) w), w)"
  "api_write memory_api = store_write"
  "api_now memory_api w = (1000, w)"
  by (simp_all add: memory_api_def contents_def same_object_key same_as_key)

lemma contents_Some: "contents w k = Some x \<Longrightarrow> key_of x = k \<and> x \<in> set w"
  by (auto simp: contents_def find_Some_iff)

lemma keyed_contents: "keyed (contents w)"
  by (auto simp: keyed_def dest: contents_Some)

lemma list_contents:
  "set (filter (\<lambda>x. contents w (key_of x) = Some x \<and> kind_of x = kd \<and>
     (case nso of None \<Rightarrow> True | Some ns \<Rightarrow> obj_Namespace x = ns) \<and> has_labels sel x) w) =
    listed (contents w) kd nso sel"
proof (rule set_eqI)
  fix x
  have "(\<exists>ns n. contents w (kd, ns, n) = Some x \<and> (case nso of None \<Rightarrow> True | Some ns' \<Rightarrow> ns = ns')) \<longleftrightarrow>
      contents w (key_of x) = Some x \<and> kind_of x = kd \<and> (case nso of None \<Rightarrow> True | Some ns \<Rightarrow> obj_Namespace x = ns)"
    (is "?L \<longleftrightarrow> ?R")
  proof
    assume ?L
    then obtain ns n where c: "contents w (kd, ns, n) = Some x"
      and ns: "case nso of None \<Rightarrow> True | Some ns' \<Rightarrow> ns = ns'" by blast
    from contents_Some [OF c] have "key_of x = (kd, ns, n)" ..
    with c ns show ?R by (auto simp: key_of_def split: option.splits)
  next
    assume ?R
    then show ?L by (intro exI [of _ "obj_Namespace x"] exI [of _ "obj_Name x"]) (auto simp: key_of_def)
  qed
  then show "x \<in> set (filter (\<lambda>x. contents w (key_of x) = Some x \<and> kind_of x = kd \<and>
     (case nso of None \<Rightarrow> True | Some ns \<Rightarrow> obj_Namespace x = ns) \<and> has_labels sel x) w) \<longleftrightarrow>
    x \<in> listed (contents w) kd nso sel"
    unfolding listed_def by (auto dest: contents_Some)
qed

lemma contents_append:
  assumes "contents w (key_of x) = None"
  shows "contents (w @ [x]) = (contents w)(key_of x \<mapsto> x)"
proof
  show "contents (w @ [x]) k = ((contents w)(key_of x \<mapsto> x)) k" for k
    using assms by (induction w) (auto simp: contents_def)
qed

lemma contents_update:
  assumes "contents w (key_of x) \<noteq> None"
  shows "contents (map (\<lambda>y. if key_of y = key_of x then x else y) w) = (contents w)(key_of x \<mapsto> x)"
proof
  have other: "find (\<lambda>y. key_of y = k) (map (\<lambda>y. if key_of y = key_of x then x else y) w) =
      find (\<lambda>y. key_of y = k) w" if "k \<noteq> key_of x" for k
    using that by (induction w) auto
  show "contents (map (\<lambda>y. if key_of y = key_of x then x else y) w) k = ((contents w)(key_of x \<mapsto> x)) k" for k
  proof (cases "k = key_of x")
    case True
    with assms show ?thesis by (induction w) (auto simp: contents_def)
  next
    case False
    with other show ?thesis by (simp add: contents_def)
  qed
qed

lemma contents_delete: "contents (filter (\<lambda>y. key_of y \<noteq> key_of x) w) = (contents w)(key_of x := None)"
proof
  show "contents (filter (\<lambda>y. key_of y \<noteq> key_of x) w) k = ((contents w)(key_of x := None)) k" for k
    by (induction w) (auto simp: contents_def)
qed

lemma known_contents: "list_ex (\<lambda>y. key_of y = key_of x) w \<longleftrightarrow> contents w (key_of x) \<noteq> None"
  by (auto simp: contents_def list_ex_iff find_None_iff)

lemma memory_write:
  assumes "store_write q w = (None, w')"
  shows "written (=) q (contents w) (contents w')"
proof (cases q)
  case (StatusUpdate x)
  with assms have "w' = w" and "contents w (key_of x) \<noteq> None"
    by (auto simp: same_as_key known_contents split: if_splits)
  then obtain y where "contents w (key_of x) = Some y" and "key_of y = key_of x"
    by (auto dest: contents_Some)
  with \<open>w' = w\<close> show ?thesis by (auto simp: StatusUpdate written_def intro!: exI [of _ y])
qed (use assms in \<open>auto simp: same_as_key known_contents contents_append contents_update contents_delete
    split: if_splits\<close>)

lemma memory_list:
  "api_list memory_api kd nso sel w = (Inr xs, w') \<longleftrightarrow> w' = w \<and>
    xs = filter (\<lambda>x. contents w (key_of x) = Some x \<and> kind_of x = kd \<and>
      (case nso of None \<Rightarrow> True | Some ns \<Rightarrow> obj_Namespace x = ns) \<and> has_labels sel x) w"
  by auto

interpretation memory_server: kube_server memory_api contents "(=)"
proof unfold_locales
  show "set xs = listed (contents w) kd nso sel" if "api_list memory_api kd nso sel w = (Inr xs, w')" for kd nso sel w xs w'
    using that unfolding memory_list by (simp only: list_contents)
  show "written (=) q (contents w) (contents w')" if "api_write memory_api q w = (None, w')" for q w w'
    using that by (simp add: memory_write)
  show "contents w' = contents w \<or> written (=) q (contents w) (contents w')"
    if "api_write memory_api q w = (Some e, w')" for q w e w'
    using that by (cases q) (auto split: if_splits)
qed (simp_all add: keyed_contents split: option.splits)

lemma memory_answers: "answers memory_api w (contents w)"
proof -
  have "\<exists>xs. api_list memory_api kd nso sel w = (Inr xs, w) \<and> set xs = listed (contents w) kd nso sel" for kd nso sel
    unfolding memory_list using list_contents by blast
  then show ?thesis unfolding answers_def by (simp split: option.split del: memory_api_sel(2))
qed

end
