(* ===== verification/SteadyState.thy ===== *)
theory SteadyState
  imports Cluster BundleController
begin

section \<open>A cluster in sync is a fixed point of the operator\<close>

text \<open>
  When the cluster holds what a bundle stands for, the six reconcile functions find nothing
  to do, however their goroutines are interleaved. \<open>in_sync\<close> says what that means for each
  function, in terms of the contents \<open>s\<close> of the cluster and of the expected
  objects. The service and the ingresses are built from a bundle that the other goroutines
  may be changing, so the invariant of the shared memory is the frame strengthened by what the
  service type may become: \<open>settled\<close>.
\<close>

definition service_type :: "AppBundle \<Rightarrow> string" where
  "service_type ab = (case sp_ServiceType (ab_Spec ab) of None \<Rightarrow> ServiceTypeClusterIP | Some t \<Rightarrow> t)"

definition settled :: "AppBundle \<Rightarrow> mem \<Rightarrow> bool" where
  "settled ab0 m \<longleftrightarrow> agrees ab0 (m_bundle m) \<and> service_type (m_bundle m) = service_type ab0"

lemma settledD: "settled ab0 m \<Longrightarrow> agrees ab0 (m_bundle m)"
  by (simp add: settled_def)

lemma settled_refl: "settled (m_bundle m) m"
  by (simp add: settled_def)

subsection \<open>The service\<close>

definition service_in_sync :: "cluster \<Rightarrow> ext \<Rightarrow> AppBundle \<Rightarrow> bool" where
  "service_in_sync s E ab \<longleftrightarrow>
     (if sp_Routes (ab_Spec ab) = None then s (KService, ab_Namespace ab, ab_Name ab) = None
      else (case held s KService proj_Service (ab_Namespace ab) (ab_Name ab) of
          Some cur \<Rightarrow> (case fst (CreateExpectedService (GetGeneratedServiceSpecData cur) ab) of
              Inr svc \<Rightarrow>
                ext_DeepDerivative E (AnyServiceSpec (svc_Spec svc)) (AnyServiceSpec (svc_Spec cur)) \<and>
                StringMapsMatch (om_Labels (svc_ObjectMeta svc)) (om_Labels (svc_ObjectMeta cur))
            | Inl e \<Rightarrow> False)
        | None \<Rightarrow> False))"

lemma service_type_default: "service_type (snd (CreateExpectedService g ab)) = service_type ab"
  by (auto simp: CreateExpectedService_def service_type_def Let_def split: sum.split option.split)

lemma settled_service:
  "settled ab0 m \<Longrightarrow> settled ab0 (m\<lparr>m_bundle := snd (CreateExpectedService g (m_bundle m))\<rparr>)"
  by (simp add: settled_def CreateExpectedService_agrees service_type_default)

text \<open>The expected spec and labels are those of the bundle that was resolved.\<close>

lemma expected_service_settled:
  assumes "settled ab0 m" and "fst (CreateExpectedService g ab0) = Inr svc0"
  shows "\<exists>svc. fst (CreateExpectedService g (m_bundle m)) = Inr svc \<and> svc_Spec svc = svc_Spec svc0 \<and>
    om_Labels (svc_ObjectMeta svc) = om_Labels (svc_ObjectMeta svc0)"
proof -
  let ?ab = "m_bundle m"
  have ag: "agrees ab0 ?ab" and ty: "service_type ?ab = service_type ab0"
    using assms(1) by (simp_all add: settled_def)
  have ports: "service_ports ?ab = service_ports ab0"
    by (simp add: service_ports_def agrees_spec(1) [OF ag])
  from assms(2) show ?thesis
    using ty
    by (auto simp: CreateExpectedService_def Let_def ports rbind_Inr_iff service_type_def
        GetHomePageAnnotations_def agrees_simps [OF ag] agrees_labels [OF agrees_trans]
        SetDefaultAppBundleLabels_def own_labels_def
        split: sum.splits if_splits)
qed

lemma quiet_service:
  assumes "service_in_sync s E ab0" and ans: "answers A w s"
  shows "quiet A w (settled ab0) no_error (ReconcileService E)"
proof (cases "sp_Routes (ab_Spec ab0)")
  case None
  with assms(1) have "s (KService, ab_Namespace ab0, ab_Name ab0) = None" by (simp add: service_in_sync_def)
  then obtain e where e: "api_get A KService (ab_Namespace ab0) (ab_Name ab0) w = (Inl e, w)"
    "IsNotFound (Some e)"
    by (rule answers_missing [OF ans])
  show ?thesis
    unfolding ReconcileService_def
    by (intro quiet_ReadBundle, subst quiet_with_mutex, intro services.quiet_GetInto_error [where e = e])
      (use e None in \<open>auto simp: agrees_simps [OF settledD]\<close>)
next
  case (Some routes)
  with assms obtain cur svc0
    where get: "api_get A KService (ab_Namespace ab0) (ab_Name ab0) w = (Inr (ObjService cur), w)"
      and svc0: "fst (CreateExpectedService (GetGeneratedServiceSpecData cur) ab0) = Inr svc0"
      and eq: "ext_DeepDerivative E (AnyServiceSpec (svc_Spec svc0)) (AnyServiceSpec (svc_Spec cur))"
        "StringMapsMatch (om_Labels (svc_ObjectMeta svc0)) (om_Labels (svc_ObjectMeta cur))"
    by (auto simp: service_in_sync_def dest: services.held_get [OF ans] split: option.splits sum.splits)
  show ?thesis
    unfolding ReconcileService_def
  proof (intro quiet_ReadBundle, subst quiet_with_mutex, rule services.quiet_GetInto_found [where x = cur])
    fix m
    assume m: "settled ab0 m"
    note ag = agrees_simps [OF settledD [OF m]]
    show "api_get A KService (ab_Namespace (m_bundle m)) (ab_Name (m_bundle m)) w = (Inr (ObjService cur), w)"
      using get by (simp add: ag)
    show "quiet A w (settled ab0) no_error
      (if sp_Routes (ab_Spec (m_bundle m)) = None
       then (if IsNotFound None then Done None else Write (Delete (ObjService cur)) Done)
       else UpdateBundle (CreateExpectedService (GetGeneratedServiceSpecData cur))
          (\<lambda>r. case r of
              Inl err \<Rightarrow> Done (Some err)
            | Inr expectedService \<Rightarrow>
                if \<not> ext_DeepDerivative E (AnyServiceSpec (svc_Spec expectedService))
                      (AnyServiceSpec (svc_Spec cur))
                then with_reason
                  (FormulateDiffMessageForSpecs E (AnyServiceSpec (svc_Spec cur))
                     (AnyServiceSpec (svc_Spec expectedService)))
                  (\<lambda>reason. UpsertResource (ObjService expectedService) reason None False)
                else if \<not> StringMapsMatch (om_Labels (svc_ObjectMeta expectedService))
                           (om_Labels (svc_ObjectMeta cur))
                then with_reason
                  (FormulateDiffMessageForLabels E
                     (AnyStringMap (om_Labels (svc_ObjectMeta cur)))
                     (AnyStringMap (om_Labels (svc_ObjectMeta expectedService))))
                  (\<lambda>reason. UpsertResource (ObjService expectedService) reason None False)
                else Done None))"
      by (simp add: ag Some) (rule quiet_UpdateBundle, erule settled_service,
          drule expected_service_settled [OF _ svc0], auto simp: eq)
  qed
qed

subsection \<open>The deployment\<close>

definition deployment_in_sync :: "cluster \<Rightarrow> (nat \<Rightarrow> nat) \<Rightarrow> ext \<Rightarrow> AppBundle \<Rightarrow> bool" where
  "deployment_in_sync s grow E ab \<longleftrightarrow>
     (case held s KDeployment proj_Deployment (ab_Namespace ab) (ab_Name ab) of
       Some cur \<Rightarrow> (case CreateExpectedDeployment grow ab of
           Inr d \<Rightarrow> ext_DeepDerivative E (AnyDeploymentSpec (dep_Spec d)) (AnyDeploymentSpec (dep_Spec cur)) \<and>
             StringMapsMatch (om_Labels (dep_ObjectMeta d)) (om_Labels (dep_ObjectMeta cur))
         | Inl e \<Rightarrow> False)
     | None \<Rightarrow> False)"

lemma agrees_more_spec:
  assumes "agrees ab0 ab"
  shows "sp_Image (ab_Spec ab) = sp_Image (ab_Spec ab0)" and "sp_Command (ab_Spec ab) = sp_Command (ab_Spec ab0)"
    and "sp_Args (ab_Spec ab) = sp_Args (ab_Spec ab0)" and "sp_Resources (ab_Spec ab) = sp_Resources (ab_Spec ab0)"
    and "sp_LivenessProbe (ab_Spec ab) = sp_LivenessProbe (ab_Spec ab0)"
    and "sp_ReadinessProbe (ab_Spec ab) = sp_ReadinessProbe (ab_Spec ab0)"
    and "sp_StartupProbe (ab_Spec ab) = sp_StartupProbe (ab_Spec ab0)"
    and "sp_UseNvidia (ab_Spec ab) = sp_UseNvidia (ab_Spec ab0)"
    and "sp_NodeSelector (ab_Spec ab) = sp_NodeSelector (ab_Spec ab0)"
    and "sp_Replicas (ab_Spec ab) = sp_Replicas (ab_Spec ab0)" and "sp_Envs (ab_Spec ab) = sp_Envs (ab_Spec ab0)"
  using arg_cong [OF agrees_spec_eq [OF assms], of sp_Image] arg_cong [OF agrees_spec_eq [OF assms], of sp_Command]
    arg_cong [OF agrees_spec_eq [OF assms], of sp_Args] arg_cong [OF agrees_spec_eq [OF assms], of sp_Resources]
    arg_cong [OF agrees_spec_eq [OF assms], of sp_LivenessProbe]
    arg_cong [OF agrees_spec_eq [OF assms], of sp_ReadinessProbe]
    arg_cong [OF agrees_spec_eq [OF assms], of sp_StartupProbe] arg_cong [OF agrees_spec_eq [OF assms], of sp_UseNvidia]
    arg_cong [OF agrees_spec_eq [OF assms], of sp_NodeSelector] arg_cong [OF agrees_spec_eq [OF assms], of sp_Replicas]
    arg_cong [OF agrees_spec_eq [OF assms], of sp_Envs]
  by simp_all

definition wf_spec :: "AppBundle \<Rightarrow> bool" where
  "wf_spec ab \<longleftrightarrow> wf_map (entries (sp_Routes (ab_Spec ab))) \<and> wf_map (entries (sp_Volumes (ab_Spec ab))) \<and>
     wf_map (entries (sp_Configs (ab_Spec ab))) \<and> wf_map (entries (sp_Envs (ab_Spec ab))) \<and>
     wf_map (entries (sp_SourcedEnvs (ab_Spec ab)))"

lemma expected_deployment_agrees:
  assumes "agrees ab0 ab" and "wf_spec ab0" and "CreateExpectedDeployment grow ab0 = Inr d"
  shows "CreateExpectedDeployment grow ab = Inr (d\<lparr>dep_ObjectMeta := deployment_meta ab\<rparr>)"
    and "om_Labels (deployment_meta ab) = om_Labels (dep_ObjectMeta d)"
proof -
  note ag = agrees_meta [OF assms(1)] agrees_spec [OF assms(1)] agrees_more_spec [OF assms(1)]
  have "CreateExpectedDeployment grow ab =
      rbind (CreateExpectedDeployment grow ab0) (\<lambda>d. Inr (d\<lparr>dep_ObjectMeta := deployment_meta ab\<rparr>))"
    by (rule deployment_cong_meta) (use assms(2) in \<open>simp_all add: ag wf_spec_def same_map_refl\<close>)
  then show "CreateExpectedDeployment grow ab = Inr (d\<lparr>dep_ObjectMeta := deployment_meta ab\<rparr>)"
    by (simp add: assms(3))
  show "om_Labels (deployment_meta ab) = om_Labels (dep_ObjectMeta d)"
    by (simp add: expected_deployment_meta [OF assms(3)] agrees_labels [OF assms(1)])
qed

lemma quiet_deployment:
  assumes "deployment_in_sync s grow E ab0" and "wf_spec ab0" and ans: "answers A w s"
  shows "quiet A w (settled ab0) no_error (ReconcileDeployment grow E)"
proof -
  obtain cur d where get: "api_get A KDeployment (ab_Namespace ab0) (ab_Name ab0) w = (Inr (ObjDeployment cur), w)"
    and d: "CreateExpectedDeployment grow ab0 = Inr d"
    and eq: "ext_DeepDerivative E (AnyDeploymentSpec (dep_Spec d)) (AnyDeploymentSpec (dep_Spec cur))"
      "StringMapsMatch (om_Labels (dep_ObjectMeta d)) (om_Labels (dep_ObjectMeta cur))"
    using assms(1) by (auto simp: deployment_in_sync_def dest: deployments.held_get [OF ans] split: option.splits sum.splits)
  show ?thesis
    unfolding ReconcileDeployment_def
    by (intro quiet_ReadBundle, subst quiet_with_mutex, intro deployments.quiet_GetInto_found [where x = cur] quiet_ReadBundle)
      (simp_all add: agrees_meta [OF settledD] get expected_deployment_agrees [OF settledD assms(2) d] eq
        del: deployment_meta_sel(4))
qed

subsection \<open>The ingresses\<close>

definition route_in_sync :: "cluster \<Rightarrow> ext \<Rightarrow> AppBundle \<Rightarrow> string \<Rightarrow> bool" where
  "route_in_sync s E ab key \<longleftrightarrow>
     (case held s KIngress proj_Ingress (ab_Namespace ab) (ingress_name ab key) of
       Some cur \<Rightarrow>
         (case ingress_spec ab (ingress_name ab key) (route_at ab key) of
           Inr spec \<Rightarrow> ext_DeepDerivative E (AnyIngressSpec spec) (AnyIngressSpec (ing_Spec cur))
         | Inl e \<Rightarrow> False) \<and>
         (case wants_auth (route_at ab key) of Inr auth \<Rightarrow> True | Inl e \<Rightarrow> False)
     | None \<Rightarrow> False)"

definition ingress_in_sync :: "cluster \<Rightarrow> ext \<Rightarrow> AppBundle \<Rightarrow> bool" where
  "ingress_in_sync s E ab \<longleftrightarrow>
     (\<forall>ing. ObjIngress ing \<in> listed s KIngress (Some (ab_Namespace ab)) [(AppBundleSelector, ab_Name ab)] \<longrightarrow>
        om_Name (ing_ObjectMeta ing) \<in> set (ingress_names ab)) \<and>
     (\<forall>key\<in>set (ingress_keys ab). route_in_sync s E ab key)"

lemma settled_ingress:
  assumes "settled ab0 m"
  shows "settled ab0 (m\<lparr>m_bundle := snd (CreateExpectedIngress name route (m_bundle m))\<rparr>)"
proof -
  have "ab_Spec (snd (CreateExpectedIngress name route ab)) = ab_Spec ab" for ab
    by (simp add: CreateExpectedIngress_def Let_def split: sum.split)
  with assms show ?thesis
    by (simp add: settled_def CreateExpectedIngress_agrees service_type_def)
qed

lemma quiet_reconcile_route:
  assumes ag: "agrees ab0 ab" and sync: "route_in_sync s E ab0 key" and ans: "answers A w s"
  shows "quiet A w (settled ab0) no_error (reconcile_route E ab key)"
proof -
  obtain cur spec auth
    where get: "api_get A KIngress (ab_Namespace ab0) (ingress_name ab0 key) w = (Inr (ObjIngress cur), w)"
      and spec: "ingress_spec ab0 (ingress_name ab0 key) (route_at ab0 key) = Inr spec"
      and auth: "wants_auth (route_at ab0 key) = Inr auth"
      and eq: "ext_DeepDerivative E (AnyIngressSpec spec) (AnyIngressSpec (ing_Spec cur))"
    using sync by (auto simp: route_in_sync_def dest: ingresses.held_get [OF ans] split: option.splits sum.splits)
  have at: "route_at ab key = route_at ab0 key" and name: "ingress_name ab key = ingress_name ab0 key"
    by (simp_all add: route_at_def ingress_name_def agrees_spec [OF ag] agrees_meta [OF ag])
  have exp: "\<exists>ing. fst (CreateExpectedIngress (ingress_name ab0 key) (route_at ab0 key) (m_bundle m)) = Inr ing \<and>
      ing_Spec ing = spec" if "settled ab0 m" for m
  proof -
    have "ingress_spec (m_bundle m) (ingress_name ab0 key) (route_at ab0 key) = Inr spec"
      by (subst ingress_spec_agrees [OF settledD [OF that]]) (rule spec)
    then obtain ing ab' where
      "CreateExpectedIngress (ingress_name ab0 key) (route_at ab0 key) (m_bundle m) = (Inr ing, ab')" "ing_Spec ing = spec"
      using CreateExpectedIngress_ok [OF auth] by blast
    then show ?thesis by simp
  qed
  have "quiet A w (settled ab0) no_error (GetInto KIngress proj_Ingress (ab_Namespace ab) (ingress_name ab0 key) init
      (\<lambda>currentIngress er. if \<not> ext_DeepDerivative E (AnyIngressSpec spec) (AnyIngressSpec (ing_Spec currentIngress))
        then c currentIngress er else Done None))" for init c
    by (rule ingresses.quiet_GetInto_found [where x = cur]) (simp_all add: get agrees_meta [OF ag] eq)
  then show ?thesis
    unfolding reconcile_route_def Let_def at name
    by (cases "rt_Ingress (route_at ab0 key)")
      (auto intro!: quiet_UpdateBundle settled_ingress dest: exp)
qed

lemma quiet_ingress:
  assumes "ingress_in_sync s E ab0" and ans: "answers A w s"
  shows "quiet A w (settled ab0) no_error (ReconcileIngress E)"
proof -
  obtain objs where l: "api_list A KIngress (Some (ab_Namespace ab0)) [(AppBundleSelector, ab_Name ab0)] w = (Inr objs, w)"
    and objs: "set objs = listed s KIngress (Some (ab_Namespace ab0)) [(AppBundleSelector, ab_Name ab0)]"
    using answers_list [OF ans] .
  have names: "\<forall>ing\<in>set (items_of proj_Ingress objs). om_Name (ing_ObjectMeta ing) \<in> set (ingress_names ab0)"
    using assms(1) by (auto simp: items_of_def map_filter_def objs ingress_in_sync_def dest: ingresses.proj_Some)
  have route: "quiet A w (settled ab0) no_error (reconcile_route E ab key)"
    if ag: "agrees ab0 ab" and key: "key \<in> set (getSortedKeys (sp_Routes (ab_Spec ab0)))" for ab key
  proof (cases "rt_Ingress (route_at ab0 key)")
    case None
    moreover have "route_at ab key = route_at ab0 key" by (simp add: route_at_def agrees_spec [OF ag])
    ultimately show ?thesis by (simp add: reconcile_route_def Let_def)
  next
    case (Some i)
    then have "key \<in> set (ingress_keys ab0)" using key by (simp add: ingress_keys_def)
    then show ?thesis
      using assms by (intro quiet_reconcile_route [OF ag _ ans]) (simp add: ingress_in_sync_def)
  qed
  have del: "quiet A w (settled ab0) no_error (forP (items_of proj_Ingress objs) (delete_unexpected (ingress_names ab0)))"
    by (rule quiet_forP) (use names in \<open>simp add: delete_unexpected_def\<close>)
  show ?thesis
    unfolding ReconcileIngress_def Let_def
  proof (intro quiet_ReadBundle, subst quiet_with_mutex)
    fix m
    assume m: "settled ab0 m"
    note ag = agrees_simps [OF settledD [OF m]] agrees_ingress_names [OF settledD [OF m]]
    have "quiet A w (settled ab0) no_error
        (forP (getSortedKeys (sp_Routes (ab_Spec ab0))) (reconcile_route E (m_bundle m)))"
      by (rule quiet_forP) (rule route [OF settledD [OF m]])
    with del l show "quiet A w (settled ab0) no_error (ListObjs KIngress (Some (ab_Namespace (m_bundle m)))
        [(AppBundleSelector, ab_Name (m_bundle m))] (\<lambda>r. case r of
            Inl err \<Rightarrow> Done (Some err)
          | Inr objs \<Rightarrow>
              if sp_Routes (ab_Spec (m_bundle m)) = None \<and> items_of proj_Ingress objs = [] then Done None
              else thenP (forP (items_of proj_Ingress objs) (delete_unexpected (ingress_names (m_bundle m))))
                 (if ingress_names (m_bundle m) = [] then Done None
                  else forP (getSortedKeys (sp_Routes (ab_Spec (m_bundle m)))) (reconcile_route E (m_bundle m)))))"
      by (auto simp: ag intro: quiet_thenP)
  qed
qed

subsection \<open>The config map and the external secret\<close>

definition config_map_in_sync :: "cluster \<Rightarrow> ext \<Rightarrow> AppBundle \<Rightarrow> bool" where
  "config_map_in_sync s E ab \<longleftrightarrow> (case CreateExpectedConfigMap ab of
       Inr (Some cm) \<Rightarrow> (case held s KConfigMap proj_ConfigMap (ab_Namespace ab) (ab_Name ab) of
           Some cur \<Rightarrow> ext_DeepDerivative E (AnyStringMap (cm_Data cm)) (AnyStringMap (cm_Data cur))
         | None \<Rightarrow> False)
     | Inr None \<Rightarrow> s (KConfigMap, ab_Namespace ab, ab_Name ab) = None
     | Inl e \<Rightarrow> False)"

lemma expected_config_map_agrees:
  assumes "agrees ab0 ab"
  shows "CreateExpectedConfigMap ab = CreateExpectedConfigMap ab0"
  unfolding CreateExpectedConfigMap_def agrees_simps [OF assms] by (rule refl)

lemma quiet_config_map:
  assumes "config_map_in_sync s E ab0" and ans: "answers A w s"
  shows "quiet A w (settled ab0) no_error (ReconcileConfigMap E)"
proof -
  obtain expected where o: "CreateExpectedConfigMap ab0 = Inr expected"
    using assms(1) by (cases "CreateExpectedConfigMap ab0") (simp_all add: config_map_in_sync_def)
  consider (none) "CreateExpectedConfigMap ab0 = Inr None" "s (KConfigMap, ab_Namespace ab0, ab_Name ab0) = None"
    | (some) cur cm where "held s KConfigMap proj_ConfigMap (ab_Namespace ab0) (ab_Name ab0) = Some cur"
      "CreateExpectedConfigMap ab0 = Inr (Some cm)"
      "ext_DeepDerivative E (AnyStringMap (cm_Data cm)) (AnyStringMap (cm_Data cur))"
    using assms(1) o by (cases expected) (auto simp: config_map_in_sync_def split: option.splits)
  then show ?thesis
  proof cases
    case none
    from ans none(2) obtain e where e: "api_get A KConfigMap (ab_Namespace ab0) (ab_Name ab0) w = (Inl e, w)"
      "IsNotFound (Some e)" by (rule answers_missing)
    show ?thesis
      unfolding ReconcileConfigMap_def
      by (intro quiet_ReadBundle, subst quiet_with_mutex, intro config_maps.quiet_GetInto_error [where e = e])
        (use none e in \<open>auto simp: agrees_meta [OF settledD] expected_config_map_agrees [OF settledD]\<close>)
  next
    case some
    show ?thesis
      unfolding ReconcileConfigMap_def
      by (intro quiet_ReadBundle, subst quiet_with_mutex, intro config_maps.quiet_GetInto_found [where x = cur])
        (use some config_maps.held_get [OF ans some(1)] in \<open>auto simp: agrees_meta [OF settledD] expected_config_map_agrees [OF settledD]\<close>)
  qed
qed

definition secret_in_sync :: "cluster \<Rightarrow> ext \<Rightarrow> AppBundle \<Rightarrow> bool" where
  "secret_in_sync s E ab \<longleftrightarrow> (case CreateExpectedExternalSecret ab of
       Inr (Some xs) \<Rightarrow> (case held s KExternalSecret proj_ExternalSecret (ab_Namespace ab) (ab_Name ab) of
           Some cur \<Rightarrow> ext_DeepDerivative E (AnyExternalSecretSpec (xs_Spec xs)) (AnyExternalSecretSpec (xs_Spec cur))
         | None \<Rightarrow> False)
     | Inr None \<Rightarrow> s (KExternalSecret, ab_Namespace ab, ab_Name ab) = None
     | Inl e \<Rightarrow> False)"

lemma expected_secret_agrees:
  assumes "agrees ab0 ab"
  shows "CreateExpectedExternalSecret ab = CreateExpectedExternalSecret ab0"
  unfolding CreateExpectedExternalSecret_def secretsToGet_def secret_templates_def agrees_simps [OF assms]
  by (rule refl)

lemma quiet_secret:
  assumes "secret_in_sync s E ab0" and ans: "answers A w s"
  shows "quiet A w (settled ab0) no_error (ReconcileExternalSecret E)"
proof -
  obtain expected where o: "CreateExpectedExternalSecret ab0 = Inr expected"
    using assms(1) by (cases "CreateExpectedExternalSecret ab0") (simp_all add: secret_in_sync_def)
  consider (none) "CreateExpectedExternalSecret ab0 = Inr None" "s (KExternalSecret, ab_Namespace ab0, ab_Name ab0) = None"
    | (some) cur xs where "held s KExternalSecret proj_ExternalSecret (ab_Namespace ab0) (ab_Name ab0) = Some cur"
      "CreateExpectedExternalSecret ab0 = Inr (Some xs)"
      "ext_DeepDerivative E (AnyExternalSecretSpec (xs_Spec xs)) (AnyExternalSecretSpec (xs_Spec cur))"
    using assms(1) o by (cases expected) (auto simp: secret_in_sync_def split: option.splits)
  then show ?thesis
  proof cases
    case none
    from ans none(2) obtain e where e: "api_get A KExternalSecret (ab_Namespace ab0) (ab_Name ab0) w = (Inl e, w)"
      "IsNotFound (Some e)" by (rule answers_missing)
    show ?thesis
      unfolding ReconcileExternalSecret_def
      by (intro quiet_ReadBundle, subst quiet_with_mutex, intro external_secrets.quiet_GetInto_error [where e = e])
        (use none e in \<open>auto simp: agrees_meta [OF settledD] expected_secret_agrees [OF settledD]\<close>)
  next
    case some
    show ?thesis
      unfolding ReconcileExternalSecret_def
      by (intro quiet_ReadBundle, subst quiet_with_mutex, intro external_secrets.quiet_GetInto_found [where x = cur])
        (use some external_secrets.held_get [OF ans some(1)] in \<open>auto simp: agrees_meta [OF settledD] expected_secret_agrees [OF settledD]\<close>)
  qed
qed

subsection \<open>The volumes and their backup\<close>

definition claim_in_sync :: "cluster \<Rightarrow> ext \<Rightarrow> AppBundle \<Rightarrow> string \<Rightarrow> bool" where
  "claim_in_sync s E ab key \<longleftrightarrow> (let volume = volume_at ab key in
     case av_ExistingClaim volume of
       Some claim \<Rightarrow> (case held s KPVC proj_PVC (ab_Namespace ab) claim of
           Some cur \<Rightarrow> StringMapsMatch (om_Labels (pvc_ObjectMeta cur))
             (Some (range_loop mput (entries (om_Labels (pvc_ObjectMeta cur))) (GetPVCLabels ab volume)))
         | None \<Rightarrow> False)
     | None \<Rightarrow> av_HostPath volume \<noteq> None \<or> av_EmptyDir volume = Some True \<or>
         (case held s KPVC proj_PVC (ab_Namespace ab) (ab_Name ab @ ''-'' @ key) of
           Some cur \<Rightarrow> (case CreateExpectedPVC E ab volume (ab_Name ab @ ''-'' @ key) of
               Inr pvc \<Rightarrow> ext_DeepDerivative E (AnyPVCSpec (pvc_Spec pvc)) (AnyPVCSpec (pvc_Spec cur)) \<and>
                 StringMapsMatch (om_Labels (pvc_ObjectMeta pvc)) (om_Labels (pvc_ObjectMeta cur))
             | Inl e \<Rightarrow> False)
         | None \<Rightarrow> False))"

text \<open>The claims, and the Longhorn volume, that the search for the owner of the job reads.\<close>

fun owner_readable :: "cluster \<Rightarrow> AppBundle \<Rightarrow> string list \<Rightarrow> bool" where
  "owner_readable s ab [] = True"
| "owner_readable s ab (key # keys) =
     (if av_HostPath (volume_at ab key) \<noteq> None \<or> av_EmptyDir (volume_at ab key) \<noteq> None
      then owner_readable s ab keys
      else (case held s KPVC proj_PVC (ab_Namespace ab) (claim_name ab key) of
          Some pvc \<Rightarrow>
            if pvc_Phase pvc = ClaimBound
            then held s KLonghornVolume proj_LonghornVolume longhorn_ns (vc_VolumeName (pvc_Spec pvc)) \<noteq> None
            else owner_readable s ab keys
        | None \<Rightarrow> False))"

definition backup_in_sync :: "cluster \<Rightarrow> ext \<Rightarrow> AppBundle \<Rightarrow> bool" where
  "backup_in_sync s E ab \<longleftrightarrow> (case sp_Backup (ab_Spec ab) of
       None \<Rightarrow> True
     | Some backup \<Rightarrow> entries (sp_Volumes (ab_Spec ab)) = [] \<or>
         (case held s KRecurringJob proj_RecurringJob longhorn_ns (reccuringJobName ab) of
           Some cur \<Rightarrow>
             (case rbind (backup_job_spec ab backup) (ext_HashRecurringJobSpec E) of
               Inr h \<Rightarrow> ext_HashRecurringJobSpec E (job_Spec cur) = Inr h
             | Inl e \<Rightarrow> False) \<and>
             owner_readable s ab (getSortedKeys (sp_Volumes (ab_Spec ab)))
         | None \<Rightarrow> False))"

definition volumes_in_sync :: "cluster \<Rightarrow> ext \<Rightarrow> AppBundle \<Rightarrow> bool" where
  "volumes_in_sync s E ab \<longleftrightarrow>
     (\<forall>key\<in>set (getSortedKeys (sp_Volumes (ab_Spec ab))). claim_in_sync s E ab key) \<and>
     backup_in_sync s E ab"

text \<open>What the goroutine of the volumes does is a function of the frame.\<close>

lemma volumes_agree:
  assumes "agrees ab0 ab"
  shows "reconcile_volume E ab = reconcile_volume E ab0"
    and "ReconcileRecurringBackupJob E ab = ReconcileRecurringBackupJob E ab0"
proof -
  have at: "volume_at ab = volume_at ab0" by (intro ext) (simp add: volume_at_def agrees_spec [OF assms])
  have name: "reccuringJobName ab = reccuringJobName ab0" by (simp add: reccuringJobName_def agrees_meta [OF assms])
  have jkey: "jobSpecificKey ab = jobSpecificKey ab0" by (simp add: jobSpecificKey_def name)
  have lab: "GetPVCLabels ab = GetPVCLabels ab0"
    unfolding fun_eq_iff GetPVCLabels_def shouldBackup_def jkey agrees_simps [OF assms] by simp
  show "reconcile_volume E ab = reconcile_volume E ab0"
    unfolding fun_eq_iff reconcile_volume_def ReconcileExistingPVC_def ReconcilePVC_def CreateExpectedPVC_def
      at lab agrees_simps [OF assms] by simp
  have own: "backup_owner ab keys job c = backup_owner ab0 keys job c" for keys job and c :: "goerr + RecurringJob \<Rightarrow> 'a mprog"
  proof (induction keys)
    case (Cons key keys)
    show ?case unfolding backup_owner.simps at agrees_meta [OF assms] Cons.IH by (rule refl)
  qed simp
  show "ReconcileRecurringBackupJob E ab = ReconcileRecurringBackupJob E ab0"
    unfolding ReconcileRecurringBackupJob_def backup_job_spec_def name agrees_simps [OF assms] own by (rule refl)
qed

lemma quiet_claim:
  assumes "claim_in_sync s E ab key" and ans: "answers A w s"
  shows "quiet A w I no_error (reconcile_volume E ab key)"
proof (cases "av_ExistingClaim (volume_at ab key)")
  case (Some claim)
  with assms(1) obtain cur where get: "api_get A KPVC (ab_Namespace ab) claim w = (Inr (ObjPVC cur), w)"
    and eq: "StringMapsMatch (om_Labels (pvc_ObjectMeta cur))
        (Some (range_loop mput (entries (om_Labels (pvc_ObjectMeta cur))) (GetPVCLabels ab (volume_at ab key))))"
    by (auto simp: claim_in_sync_def Let_def dest: pvcs.held_get [OF ans] split: option.splits)
  show ?thesis
    by (simp add: reconcile_volume_def ReconcileExistingPVC_def Let_def Some)
      (rule pvcs.quiet_GetInto_found [where x = cur], simp_all add: get eq)
next
  case None
  show ?thesis
  proof (cases "av_HostPath (volume_at ab key) \<noteq> None \<or> av_EmptyDir (volume_at ab key) = Some True")
    case True
    with None show ?thesis by (auto simp: reconcile_volume_def Let_def)
  next
    case False
    let ?name = "ab_Name ab @ ''-'' @ key"
    obtain cur pvc where get: "api_get A KPVC (ab_Namespace ab) ?name w = (Inr (ObjPVC cur), w)"
      and pvc: "CreateExpectedPVC E ab (volume_at ab key) ?name = Inr pvc"
      and eq: "ext_DeepDerivative E (AnyPVCSpec (pvc_Spec pvc)) (AnyPVCSpec (pvc_Spec cur))"
        "StringMapsMatch (om_Labels (pvc_ObjectMeta pvc)) (om_Labels (pvc_ObjectMeta cur))"
      using assms(1) None False
      by (auto simp: claim_in_sync_def Let_def dest: pvcs.held_get [OF ans] split: option.splits sum.splits)
    have "quiet A w I no_error (ReconcilePVC E ab (volume_at ab key) ?name)"
      unfolding ReconcilePVC_def
      by (rule pvcs.quiet_GetInto_found [where x = cur]) (use get pvc eq in simp_all)
    with None False show ?thesis by (auto simp: reconcile_volume_def Let_def)
  qed
qed

lemma quiet_backup_owner:
  assumes "owner_readable s ab keys" and ans: "answers A w s"
    and "\<And>job'. job_Spec job' = job_Spec job \<Longrightarrow> quiet A w I Q (c (Inr job'))"
  shows "quiet A w I Q (backup_owner ab keys job c)"
  using assms(1)
proof (induction keys)
  case Nil
  then show ?case by (simp add: assms(3))
next
  case (Cons key keys)
  show ?case
  proof (cases "av_HostPath (volume_at ab key) \<noteq> None \<or> av_EmptyDir (volume_at ab key) \<noteq> None")
    case True
    with Cons show ?thesis by (auto simp: Let_def)
  next
    case False
    with Cons.prems obtain pvc where get: "api_get A KPVC (ab_Namespace ab) (claim_name ab key) w = (Inr (ObjPVC pvc), w)"
      and rest: "pvc_Phase pvc \<noteq> ClaimBound \<Longrightarrow> owner_readable s ab keys"
      and bound: "pvc_Phase pvc = ClaimBound \<Longrightarrow> \<exists>vol.
        api_get A KLonghornVolume longhorn_ns (vc_VolumeName (pvc_Spec pvc)) w = (Inr (ObjLonghornVolume vol), w)"
      by (auto dest: pvcs.held_get [OF ans] longhorn_volumes.held_get [OF ans] split: option.splits if_splits)
    show ?thesis
    proof (cases "pvc_Phase pvc = ClaimBound")
      case True
      from bound [OF True] obtain vol where
        "api_get A KLonghornVolume longhorn_ns (vc_VolumeName (pvc_Spec pvc)) w = (Inr (ObjLonghornVolume vol), w)" ..
      with False True get show ?thesis
        by (auto simp: Let_def claim_name_def [symmetric] intro!: pvcs.quiet_GetInto_found [where x = pvc]
            longhorn_volumes.quiet_GetInto_found [where x = vol] assms(3))
    next
      case unbound: False
      with False get Cons.IH [OF rest [OF unbound]] show ?thesis
        by (auto simp: Let_def claim_name_def [symmetric] intro!: pvcs.quiet_GetInto_found [where x = pvc])
    qed
  qed
qed

lemma quiet_backup:
  assumes "backup_in_sync s E ab" and ans: "answers A w s"
  shows "quiet A w I no_error (ReconcileRecurringBackupJob E ab)"
proof (cases "sp_Backup (ab_Spec ab) = None \<or> entries (sp_Volumes (ab_Spec ab)) = []")
  case True
  then show ?thesis by (auto simp: ReconcileRecurringBackupJob_def split: option.split)
next
  case False
  then obtain backup where b: "sp_Backup (ab_Spec ab) = Some backup" by auto
  with assms(1) False obtain cur spec h where
      get: "api_get A KRecurringJob longhorn_ns (reccuringJobName ab) w = (Inr (ObjRecurringJob cur), w)"
    and spec: "backup_job_spec ab backup = Inr spec"
    and h: "ext_HashRecurringJobSpec E spec = Inr h" "ext_HashRecurringJobSpec E (job_Spec cur) = Inr h"
    and own: "owner_readable s ab (getSortedKeys (sp_Volumes (ab_Spec ab)))"
    by (auto simp: backup_in_sync_def rbind_Inr_iff dest: recurring_jobs.held_get [OF ans]
        split: option.splits sum.splits)
  have "quiet A w I no_error (backup_owner ab (getSortedKeys (sp_Volumes (ab_Spec ab))) (cur\<lparr>job_Spec := spec\<rparr>)
      (\<lambda>r. with_result r (\<lambda>job. with_result (ext_HashRecurringJobSpec E (job_Spec job)) (\<lambda>rjAfterHash.
         if h = rjAfterHash then Done None else UpsertResource (ObjRecurringJob job) [] None False))))"
    using own ans by (rule quiet_backup_owner) (simp add: with_result_def h)
  with False show ?thesis
    unfolding ReconcileRecurringBackupJob_def b
    by (auto simp: with_result_def spec h intro!: recurring_jobs.quiet_GetInto_found [OF get])
qed

lemma quiet_volumes:
  assumes "volumes_in_sync s E ab0" and ans: "answers A w s"
  shows "quiet A w (settled ab0) no_error (ReconcileVolumes E)"
proof -
  have "quiet A w (settled ab0) no_error (forP (getSortedKeys (sp_Volumes (ab_Spec ab0))) (reconcile_volume E ab0))"
    by (rule quiet_forP, rule quiet_claim [OF _ ans])
      (use assms(1) in \<open>simp add: volumes_in_sync_def del: set_getSortedKeys\<close>)
  moreover have "quiet A w (settled ab0) no_error (ReconcileRecurringBackupJob E ab0)"
    by (rule quiet_backup [OF _ ans]) (use assms(1) in \<open>simp add: volumes_in_sync_def\<close>)
  ultimately show ?thesis
    unfolding ReconcileVolumes_def
    by (intro quiet_ReadBundle, subst quiet_with_mutex)
      (simp add: agrees_spec [OF settledD] volumes_agree [OF settledD] quiet_thenP)
qed

subsection \<open>The whole reconciliation\<close>

definition in_sync :: "cluster \<Rightarrow> (nat \<Rightarrow> nat) \<Rightarrow> ext \<Rightarrow> AppBundle \<Rightarrow> bool" where
  "in_sync s grow E ab \<longleftrightarrow> volumes_in_sync s E ab \<and> service_in_sync s E ab \<and>
     deployment_in_sync s grow E ab \<and> ingress_in_sync s E ab \<and> config_map_in_sync s E ab \<and>
     secret_in_sync s E ab"

lemma quiet_reconciles:
  assumes "in_sync s grow E ab0" and "wf_spec ab0" and "answers A w s" and "t \<in> set (reconciles grow E)"
  shows "quiet A w (settled ab0) no_error t"
  using assms by (auto simp: reconciles_def in_sync_def intro: quiet_volumes quiet_service
      quiet_deployment quiet_ingress quiet_config_map quiet_secret)

lemma full_pass_in_sync:
  assumes "in_sync s grow E ab'" and "wf_spec ab'" and "answers A w s"
    and "run A (resolve_base n E ab) w m = (Some (Inr ab'), w, m)"
  shows "writes A (full_pass n sched grow E ab) w m = [] \<and>
    (\<exists>m'. run A (full_pass n sched grow E ab) w m = (Some (10, None), w, m'))"
proof -
  let ?m = "m\<lparr>m_bundle := ab'\<rparr>"
  have "quiet A w (settled ab') no_error (RunReconciles sched (reconciles grow E))"
    by (rule quiet_RunReconciles) (rule quiet_reconciles [OF assms(1-3)])
  moreover have "settled ab' ?m" by (simp add: settled_def)
  ultimately obtain m' where "run A (RunReconciles sched (reconciles grow E)) w ?m = (None, w, m')"
    "writes A (RunReconciles sched (reconciles grow E)) w ?m = []"
    by (rule quiet_run) simp
  then show ?thesis
    by (simp add: full_pass_def run_reconciles_def run_bind writes_bind writes_resolve_base assms(4))
qed

text \<open>C2. A cluster in sync is a fixed point of the operator. Let the bundle of a request resolve to
  \<open>ab'\<close>, and let the cluster hold, for each of the six components, what the component
  expects of it (\<open>in_sync\<close>: the claims with their labels and the backup job, the service, the deployment, the
  ingresses and no others, the config map, the external secret, or none where none is expected). Then a full reconciliation, under every schedule of
  its goroutines, sends no write, leaves the cluster as it is, reports no error, and asks to
  be called again in 10 seconds.
\<close>

theorem in_sync_is_steady:
  assumes "in_sync s grow E ab'" and "wf_spec ab'" and "answers A w s"
    and "\<And>m. run A (resolve_base n E ab) w (m :: mem) = (Some (Inr ab'), w, m)"
    and "cache_reachable (m_State m)"
    and "s (KAppBundle, namespace, name) = Some (ObjAppBundle ab)"
    and "ext_HashAppBundleSpec E (ab_Spec ab) = Inr h"
    and "api_now A w = (now, w)" and "30 < now"
  shows "writes A (ReconcileBundle n sched grow E name namespace) w m = [] \<and>
    (\<exists>m'. run A (ReconcileBundle n sched grow E name namespace) w m = (Some (10, None), w, m'))"
proof -
  let ?m = "m\<lparr>m_State := snd (RegisterStateIfNotAlreadyRegistered (bundle_app E ab) (m_State m))\<rparr>"
  note get = answers_get [OF assms(3,6)]
  have "writes A (ReconcileBundle n sched grow E name namespace) w m = writes A (full_pass n sched grow E ab) w ?m"
    by (simp add: ReconcileBundle_def bundles.writes_GetInto_found [OF get] assms(7)
        with_state_full(2) [OF assms(5) _ assms(8,9), of _ h])
  moreover have "run A (ReconcileBundle n sched grow E name namespace) w m = run A (full_pass n sched grow E ab) w ?m"
    by (simp add: ReconcileBundle_def bundles.run_GetInto_found [OF get] assms(7)
        with_state_full(1) [OF assms(5) _ assms(8,9), of _ h])
  ultimately show ?thesis using full_pass_in_sync [OF assms(1-4)] by simp
qed

text \<open>A bundle with one route, and a cluster that holds its deployment and its service.\<close>

definition served_bundle :: AppBundle where
  "served_bundle = sample_bundle ''app'' ''devel'' (zero_spec\<lparr>
     sp_Image := Some \<lparr>img_Repository = Some ''repo'', img_Tag = Some ''v1'', img_PullPolicy = None\<rparr>,
     sp_Routes := Some [(''web'', route_to 80)]\<rparr>)"

lemma served_bundle_sel [simp]:
  "ab_Name served_bundle = ''app''" "ab_Namespace served_bundle = ''devel''"
  "sp_Base (ab_Spec served_bundle) = None" "sp_Volumes (ab_Spec served_bundle) = None"
  "sp_Configs (ab_Spec served_bundle) = None" "sp_SourcedEnvs (ab_Spec served_bundle) = None"
  "sp_Envs (ab_Spec served_bundle) = None" "sp_Backup (ab_Spec served_bundle) = None"
  "sp_Command (ab_Spec served_bundle) = None" "sp_Args (ab_Spec served_bundle) = None"
  "sp_Homepage (ab_Spec served_bundle) = None" "sp_TailscaleName (ab_Spec served_bundle) = None"
  "sp_Routes (ab_Spec served_bundle) = Some [(''web'', route_to 80)]"
  "sp_Image (ab_Spec served_bundle) = Some \<lparr>img_Repository = Some ''repo'', img_Tag = Some ''v1'', img_PullPolicy = None\<rparr>"
  "getSortedKeys (Some [(''web'', route_to 80)]) = [''web'']"
  by (simp_all add: served_bundle_def getSortedKeys_def mkeys_def)

lemma served_route [simp]:
  "mget_or zero_route (Some [(''web'', route_to 80)]) ''web'' = route_to 80"
  "rt_Port (route_to p) = Some p" "rt_TargetPort (route_to p) = None" "rt_Protocol (route_to p) = None"
  "rt_Ingress (route_to p) = None"
  by (simp_all add: mget_or_def route_to_def)

lemma served_deployment: "\<exists>d. CreateExpectedDeployment go_grow served_bundle = Inr d"
  by (simp add: CreateExpectedDeployment_def container_port_def image_ref_def container_env_def
      deref_list_def Let_def)

lemma served_service: "\<exists>svc ab. CreateExpectedService g served_bundle = (Inr svc, ab)"
proof -
  have "service_ports served_bundle \<noteq> Inl e" for e
    by (simp add: service_ports_def service_port_def Let_def)
  then show ?thesis
    by (cases "service_ports served_bundle")
      (auto simp: CreateExpectedService_def default_service_type_def Let_def split: option.split)
qed

definition served_cluster :: "Deployment \<Rightarrow> Service \<Rightarrow> store" where
  "served_cluster d svc = [ObjAppBundle served_bundle, ObjDeployment d, ObjService svc]"

lemma served_in_sync:
  assumes d: "CreateExpectedDeployment go_grow served_bundle = Inr d"
    and svc: "CreateExpectedService g served_bundle = (Inr svc, ab)"
  shows "in_sync (contents (served_cluster d svc)) go_grow sample_ext served_bundle"
proof -
  have dmeta: "om_Name (dep_ObjectMeta d) = ''app''" "om_Namespace (dep_ObjectMeta d) = ''devel''"
    and smeta: "om_Name (svc_ObjectMeta svc) = ''app''" "om_Namespace (svc_ObjectMeta svc) = ''devel''"
    and slabels: "om_Labels (svc_ObjectMeta svc) = Some (SetDefaultAppBundleLabels served_bundle None)"
    and dlabels: "om_Labels (dep_ObjectMeta d) = Some (SetDefaultAppBundleLabels served_bundle None)"
    by (simp_all add: expected_deployment_meta [OF d]) (subst CreateExpectedService_Inr(1) [OF svc], simp)+
  have same: "StringMapsMatch (Some (SetDefaultAppBundleLabels served_bundle None))
      (Some (SetDefaultAppBundleLabels served_bundle None))"
    by (simp add: StringMapsMatch_iff wf_default_labels)
  note read = held_def listed_def contents_def served_cluster_def key_of_def dmeta smeta
  have "service_in_sync (contents (served_cluster d svc)) sample_ext served_bundle"
    by (simp add: service_in_sync_def read CreateExpectedService_Inr(5) [OF svc] svc slabels same)
  moreover have "deployment_in_sync (contents (served_cluster d svc)) go_grow sample_ext served_bundle"
    by (simp add: deployment_in_sync_def read d dlabels same)
  moreover have "ingress_in_sync (contents (served_cluster d svc)) sample_ext served_bundle"
    by (simp add: ingress_in_sync_def ingress_keys_def route_at_def read items_of_def List.map_filter_def)
  moreover have "config_map_in_sync (contents (served_cluster d svc)) sample_ext served_bundle"
    by (simp add: config_map_in_sync_def CreateExpectedConfigMap_def read)
  moreover have "secret_in_sync (contents (served_cluster d svc)) sample_ext served_bundle"
    by (simp add: secret_in_sync_def CreateExpectedExternalSecret_def secretsToGet_def read)
  moreover have "volumes_in_sync (contents (served_cluster d svc)) sample_ext served_bundle"
    by (simp add: volumes_in_sync_def backup_in_sync_def)
  ultimately show ?thesis by (simp add: in_sync_def)
qed

theorem in_sync_is_steady_witness:
  "\<exists>d svc. writes memory_api (ReconcileBundle 1 [2, 0, 1, 1, 5] go_grow sample_ext ''app'' ''devel'')
      (served_cluster d svc) (sample_mem zero_bundle) = [] \<and>
    (\<exists>m'. run memory_api (ReconcileBundle 1 [2, 0, 1, 1, 5] go_grow sample_ext ''app'' ''devel'')
      (served_cluster d svc) (sample_mem zero_bundle) = (Some (10, None), served_cluster d svc, m'))"
proof -
  obtain d where d: "CreateExpectedDeployment go_grow served_bundle = Inr d" using served_deployment by blast
  obtain svc ab where svc: "CreateExpectedService (GetGeneratedServiceSpecData (blank_service served_bundle))
      served_bundle = (Inr svc, ab)" using served_service by blast
  have "wf_spec served_bundle" by (simp add: wf_spec_def wf_map_def)
  from in_sync_is_steady [OF served_in_sync [OF d svc] this memory_answers, where ab = served_bundle and n = 1 and h = "''hash''"
      and now = 1000 and m = "sample_mem zero_bundle" and name = "''app''" and namespace = "''devel''"
      and sched = "[2, 0, 1, 1, 5]"]
  show ?thesis
    by (intro exI [of _ d] exI [of _ svc])
      (simp add: resolve_base_def cache_empty served_cluster_def contents_def key_of_def)
qed

end
