(* ===== verification/Ensures.thy ===== *)
theory Ensures
  imports Cluster
begin

section \<open>What a program brings about\<close>

text \<open>
  \<open>ensures R F I Q p s\<close>: started when the cluster holds \<open>s\<close>, the program \<open>p\<close> writes only
  objects of the kinds in \<open>F\<close>, keeps the shared memory in \<open>I\<close>, and when it returns \<open>a\<close> the
  contents satisfy \<open>Q a\<close>. At every moment other goroutines may change the shared memory within
  \<open>I\<close> and the contents of every kind outside \<open>F\<close>; any call may fail. It is a weakest
  precondition, by recursion on the effect tree, with the rule of sequencing (\<open>ensures_bind\<close>), a
  frame rule (\<open>ensures_frame\<close>) and a rule for goroutines with disjoint kinds (\<open>ensures_par\<close>).
\<close>

definition same_on :: "kind set \<Rightarrow> cluster \<Rightarrow> cluster \<Rightarrow> bool" where
  "same_on F s s' \<longleftrightarrow> (\<forall>kd\<in>F. \<forall>k. s' (kd, k) = s (kd, k))"

definition stable_on :: "kind set \<Rightarrow> (cluster \<Rightarrow> bool) \<Rightarrow> bool" where
  "stable_on F K \<longleftrightarrow> (\<forall>s s'. same_on F s s' \<longrightarrow> K s \<longrightarrow> K s')"

lemma same_on_refl [simp]: "same_on F s s"
  by (simp add: same_on_def)

lemma same_on_trans: "same_on F s s' \<Longrightarrow> same_on F s' s'' \<Longrightarrow> same_on F s s''"
  by (simp add: same_on_def)

lemma same_on_mono: "same_on G s s' \<Longrightarrow> F \<subseteq> G \<Longrightarrow> same_on F s s'"
  by (auto simp: same_on_def)

lemma same_onD: "same_on F s s' \<Longrightarrow> kd \<in> F \<Longrightarrow> s' (kd, k) = s (kd, k)"
  unfolding same_on_def by blast

lemma same_on_upd: "fst k \<notin> F \<Longrightarrow> same_on F s (s(k := v))"
  by (auto simp: same_on_def)

lemma stable_onD: "stable_on F K \<Longrightarrow> same_on F s s' \<Longrightarrow> K s \<Longrightarrow> K s'"
  by (auto simp: stable_on_def)

lemma stable_conj: "stable_on F K \<Longrightarrow> stable_on F' K' \<Longrightarrow> stable_on (F \<union> F') (\<lambda>s. K s \<and> K' s)"
  unfolding stable_on_def by (meson same_on_mono Un_upper1 Un_upper2)

lemma written_same: "written R q s s' \<Longrightarrow> kind_of (wobj q) \<notin> F \<Longrightarrow> same_on F s s'"
  by (cases q) (auto simp: written_def intro: same_on_upd)

primrec ensures :: "(kobj \<Rightarrow> kobj \<Rightarrow> bool) \<Rightarrow> kind set \<Rightarrow> ('s \<Rightarrow> bool) \<Rightarrow> ('a \<Rightarrow> cluster \<Rightarrow> bool) \<Rightarrow>
    ('s, 'a) prog \<Rightarrow> cluster \<Rightarrow> bool" where
  "ensures R F I Q (Done a) = (\<lambda>s. \<forall>s'. same_on F s s' \<longrightarrow> Q a s')"
| "ensures R F I Q (Get kd ns n c) = (\<lambda>s. \<forall>s' r. same_on F s s' \<longrightarrow> keyed s' \<longrightarrow>
     (case r of Inr x \<Rightarrow> s' (kd, ns, n) = Some x | Inl e \<Rightarrow> IsNotFound (Some e) \<longrightarrow> s' (kd, ns, n) = None) \<longrightarrow>
     ensures R F I Q (c r) s')"
| "ensures R F I Q (ListObjs kd nso sel c) = (\<lambda>s. \<forall>s' r. same_on F s s' \<longrightarrow> keyed s' \<longrightarrow>
     (\<forall>xs. r = Inr xs \<longrightarrow> set xs = listed s' kd nso sel) \<longrightarrow> ensures R F I Q (c r) s')"
| "ensures R F I Q (Write q c) = (\<lambda>s. kind_of (wobj q) \<in> F \<and>
     (\<forall>s' s'' e. same_on F s s' \<longrightarrow> keyed s'' \<longrightarrow>
       written R q s' s'' \<or> (e \<noteq> None \<and> s'' = s') \<longrightarrow> ensures R F I Q (c e) s''))"
| "ensures R F I Q (Now c) = (\<lambda>s. \<forall>t. ensures R F I Q (c t) s)"
| "ensures R F I Q (Access f c) = (\<lambda>s. \<forall>m. I m \<longrightarrow> I (f m) \<and> ensures R F I Q (c m) s)"
| "ensures R F I Q (Lock m p) = ensures R F I Q p"
| "ensures R F I Q (Unlock m p) = ensures R F I Q p"
| "ensures R F I Q (Log l p) = ensures R F I Q p"

text \<open>It depends on the kinds of the program alone.\<close>

lemma ensures_stable: "ensures R F I Q p s \<Longrightarrow> same_on F s s' \<Longrightarrow> ensures R F I Q p s'"
proof (induction p arbitrary: s s' rule: prog_induct)
  case (Write q c)
  then show ?case by (auto intro: same_on_trans)
qed (auto intro: same_on_trans)

lemma ensures_mono:
  assumes "ensures R F I Q p s" and "\<And>a s. Q a s \<Longrightarrow> Q' a s"
  shows "ensures R F I Q' p s"
  using assms(1) by (induction p arbitrary: s rule: prog_induct) (auto intro: assms(2))

lemma ensures_bind:
  "ensures R F I (\<lambda>a. ensures R F I Q (k a)) p s \<Longrightarrow> ensures R F I Q (bindP p k) s"
  by (induction p arbitrary: s rule: prog_induct) auto

lemma ensures_frame:
  assumes "ensures R F I Q p s" and "F \<subseteq> G" and "stable_on FK K" and "FK \<subseteq> G" and "F \<inter> FK = {}" and "K s"
  shows "ensures R G I (\<lambda>a s. Q a s \<and> K s) p s"
proof -
  note G = same_on_mono [OF _ assms(2)] stable_onD [OF assms(3) same_on_mono [OF _ assms(4)]]
  show ?thesis
    using assms(1,6)
  proof (induction p arbitrary: s rule: prog_induct)
    case (Write q c)
    then have q: "kind_of (wobj q) \<in> F" by simp
    with assms(5) have FK: "kind_of (wobj q) \<notin> FK" by auto
    have "ensures R G I (\<lambda>a s. Q a s \<and> K s) (c e) s''"
      if "same_on G s s'" "keyed s''" "written R q s' s'' \<or> (e \<noteq> None \<and> s'' = s')" for s' s'' e
    proof (rule Write.IH)
      show "ensures R F I Q (c e) s''" using Write.prems(1) G(1) [OF that(1)] that(2,3)
        unfolding ensures.simps by blast
      have "K s'" using G(2) [OF that(1)] Write.prems(2) .
      then show "K s''" using that(3) stable_onD [OF assms(3) written_same [OF _ FK]] by blast
    qed
    with q assms(2) show ?case by auto
  next
    case (Get kd ns n c)
    then show ?case
      unfolding ensures.simps by (intro allI impI Get.IH) (blast intro: G)+
  next
    case (ListObjs kd nso sel c)
    then show ?case
      unfolding ensures.simps by (intro allI impI ListObjs.IH) (blast intro: G)+
  qed (auto dest: G)
qed


subsection \<open>Sequencing and loops\<close>

abbreviation succeeds :: "(cluster \<Rightarrow> bool) \<Rightarrow> goerr option \<Rightarrow> cluster \<Rightarrow> bool" where
  "succeeds P e s \<equiv> e = None \<longrightarrow> P s"

lemma ensures_Done: "(\<And>s'. same_on F s s' \<Longrightarrow> Q a s') \<Longrightarrow> ensures R F I Q (Done a) s"
  by simp

lemma ensures_error: "ensures R F I (succeeds P) (Done (Some e)) s"
  by simp

lemma ensures_thenP:
  assumes "ensures R F I (succeeds P) p s" and "\<And>s'. P s' \<Longrightarrow> ensures R F I (succeeds Q) q s'"
  shows "ensures R F I (succeeds Q) (thenP p q) s"
  unfolding thenP_def
  by (rule ensures_bind, rule ensures_mono [OF assms(1)]) (auto intro: assms(2) split: option.split)

text \<open>A loop: \<open>J\<close> holds of the part of the list that has been done.\<close>

lemma ensures_forP_from:
  assumes "\<And>ys x zs s. xs = ys @ x # zs \<Longrightarrow> J ys s \<Longrightarrow> ensures R F I (succeeds (J (ys @ [x]))) (body x) s"
    and "\<And>ys. stable_on F (J ys)" and "xs = ys @ zs" and "J ys s"
  shows "ensures R F I (succeeds (J xs)) (forP zs body) s"
  using assms(3,4)
proof (induction zs arbitrary: ys s)
  case Nil
  then show ?case by (auto intro: stable_onD [OF assms(2)])
next
  case (Cons z zs)
  show ?case
    unfolding forP.simps
  proof (rule ensures_thenP)
    show "ensures R F I (succeeds (J (ys @ [z]))) (body z) s" by (rule assms(1) [OF Cons.prems])
    show "ensures R F I (succeeds (J xs)) (forP zs body) s'" if "J (ys @ [z]) s'" for s'
      using Cons.IH [of "ys @ [z]"] Cons.prems(1) that by simp
  qed
qed

lemmas ensures_forP = ensures_forP_from [where ys = "[]", simplified]

lemma ensures_with_mutex [simp]: "ensures R F I Q (with_mutex m p) s = ensures R F I Q p s"
proof -
  have "ensures R F I Q (bindP p (\<lambda>a. Unlock m (Done a))) s = ensures R F I Q p s"
    by (induction p arbitrary: s rule: prog_induct) auto
  then show ?thesis by (simp add: with_mutex_def)
qed

lemma ensures_ReadBundle:
  "(\<And>m. I m \<Longrightarrow> ensures R F I Q (c (m_bundle m)) s) \<Longrightarrow> ensures R F I Q (ReadBundle c) s"
  by (simp add: ReadBundle_def)

lemma ensures_UpdateBundle:
  assumes "\<And>m. I m \<Longrightarrow> I (m\<lparr>m_bundle := snd (f (m_bundle m))\<rparr>)"
    and "\<And>m. I m \<Longrightarrow> ensures R F I Q (c (fst (f (m_bundle m)))) s"
  shows "ensures R F I Q (UpdateBundle f c) s"
  using assms by (simp add: UpdateBundle_def)

lemma ensures_with_reason:
  "(\<And>reason. ensures R F I (succeeds P) (c reason) s) \<Longrightarrow> ensures R F I (succeeds P) (with_reason r c) s"
  by (simp add: with_reason_def split: sum.split)

text \<open>A write of a kind of one's own.\<close>

lemma ensures_Delete:
  assumes "kind_of x \<in> F"
    and "\<And>s1 e. same_on F s s1 \<Longrightarrow> ensures R F I Q (c e) (s1(key_of x := None))"
    and "\<And>s1 e. same_on F s s1 \<Longrightarrow> e \<noteq> None \<Longrightarrow> ensures R F I Q (c e) s1"
  shows "ensures R F I Q (Write (Delete x) c) s"
  using assms by auto

lemma ensures_UpsertResource:
  assumes "kind_of x \<in> F" and "\<And>s1 y. same_on F s s1 \<Longrightarrow> R x y \<Longrightarrow> P (s1(key_of x \<mapsto> y))"
    and "stable_on F P"
  shows "ensures R F I (succeeds P) (UpsertResource x reason er nd) s"
proof -
  have "P s'" if "same_on F s s1" "R x y" "same_on F (s1(key_of x \<mapsto> y)) s'" for s1 y s'
    using stable_onD [OF assms(3) that(3) assms(2) [OF that(1,2)]] .
  then show ?thesis
    using assms(1) by (auto simp: UpsertResource_def split: option.split)
qed

context kube_kind
begin

lemma ensures_GetInto:
  assumes "\<And>x s1. same_on F s s1 \<Longrightarrow> keyed s1 \<Longrightarrow> s1 (kd, ns, n) = Some (inj x) \<Longrightarrow>
      ensures R F I Q (c x None) s1"
    and "\<And>e s1. same_on F s s1 \<Longrightarrow> keyed s1 \<Longrightarrow> (IsNotFound (Some e) \<Longrightarrow> s1 (kd, ns, n) = None) \<Longrightarrow>
      ensures R F I Q (c init (Some e)) s1"
  shows "ensures R F I Q (GetInto kd proj ns n init c) s"
proof -
  have "ensures R F I Q (case r of Inl e \<Rightarrow> c init (Some e)
      | Inr x \<Rightarrow> (case proj x of
          Some cur \<Rightarrow> c cur None
        | None \<Rightarrow> c init (Some (APIStatus (ReasonOther ''wrong kind'') ''wrong kind'')))) s1"
    if s1: "same_on F s s1" "keyed s1"
      and r: "case r of Inr x \<Rightarrow> s1 (kd, ns, n) = Some x | Inl e \<Rightarrow> IsNotFound (Some e) \<longrightarrow> s1 (kd, ns, n) = None"
    for r s1
  proof (cases r)
    case (Inl e)
    with r show ?thesis by (auto intro: assms(2) [OF s1])
  next
    case (Inr x)
    show ?thesis
    proof (cases "proj x")
      case None
      with Inr show ?thesis by (auto intro: assms(2) [OF s1])
    next
      case (Some cur)
      with Inr r show ?thesis by (auto intro: assms(1) [OF s1] dest: proj_Some)
    qed
  qed
  then show ?thesis by (simp add: GetInto_def)
qed

end

subsection \<open>Goroutines\<close>

text \<open>
  Goroutines with their kinds and what they bring about: \<open>(F, P, p)\<close>. No two write the same
  kind. The group writes within \<open>G\<close> and, if no goroutine returns an error, brings about all
  of it.
\<close>

type_synonym 's goal = "kind set \<times> (cluster \<Rightarrow> bool) \<times> ('s, goerr option) prog"

definition meets :: "(kobj \<Rightarrow> kobj \<Rightarrow> bool) \<Rightarrow> ('s \<Rightarrow> bool) \<Rightarrow> 's goal \<Rightarrow> cluster \<Rightarrow> bool" where
  "meets R I x s \<longleftrightarrow> (case x of (F, P, p) \<Rightarrow> ensures R F I (succeeds P) p s \<and> stable_on F P)"

definition apart :: "'s goal list \<Rightarrow> bool" where
  "apart xs \<longleftrightarrow> sorted_wrt (\<lambda>x y. fst x \<inter> fst y = {}) xs"

definition achieved :: "'s goal list \<Rightarrow> cluster \<Rightarrow> bool" where
  "achieved xs s \<longleftrightarrow> (\<forall>x\<in>set xs. fst (snd x) s)"

lemma meets_stable: "meets R I x s \<Longrightarrow> same_on (fst x) s s' \<Longrightarrow> meets R I x s'"
  by (cases x) (auto simp: meets_def intro: ensures_stable)

lemma stable_meets: "stable_on (\<Union> (fst ` set xs)) (\<lambda>s. \<forall>x\<in>set xs. meets R I x s)"
  unfolding stable_on_def by (blast intro: meets_stable same_on_mono)

text \<open>One goroutine, or its first effect, while the others and what is done (\<open>K\<close>) wait.\<close>

lemma meets_frame:
  assumes "ensures R F I Q p s" and "F \<subseteq> G" and "stable_on FK K" and "FK \<subseteq> G" and "F \<inter> FK = {}" and "K s"
    and "\<forall>x\<in>set xs. meets R I x s \<and> fst x \<subseteq> G \<and> F \<inter> fst x = {}"
    and "\<And>a s. Q a s \<Longrightarrow> K s \<Longrightarrow> \<forall>x\<in>set xs. meets R I x s \<Longrightarrow> Q' a s"
  shows "ensures R G I Q' p s"
proof -
  have "ensures R G I (\<lambda>a s. Q a s \<and> (K s \<and> (\<forall>x\<in>set xs. meets R I x s))) p s"
    by (rule ensures_frame [OF assms(1,2) stable_conj [OF assms(3) stable_meets]])
      (use assms(4-7) in auto)
  then show ?thesis by (rule ensures_mono) (blast intro: assms(8))
qed

lemma ensures_step1:
  "ensures R F I Q p s \<Longrightarrow> ensures R F I (\<lambda>p'. ensures R F I Q p') (step1 p) s"
proof (cases p)
  case (Done a)
  moreover assume "ensures R F I Q p s"
  ultimately show ?thesis by (auto intro: same_on_trans)
next
  case (Write q c)
  moreover assume "ensures R F I Q p s"
  ultimately show ?thesis
    by (simp only: step1.simps ensures.simps) (blast intro: ensures_stable)
qed (auto intro: ensures_stable)

lemma ensures_drain:
  assumes "apart xs" and "\<forall>x\<in>set xs. meets R I x s \<and> fst x \<subseteq> G \<and> FK \<inter> fst x = {}"
    and "stable_on FK K" and "FK \<subseteq> G" and "err = None \<Longrightarrow> K s"
  shows "ensures R G I (succeeds (\<lambda>s. K s \<and> achieved xs s)) (drain (map (snd \<circ> snd) xs) err) s"
  using assms
proof (induction xs arbitrary: err s FK K)
  case Nil
  then show ?case
    by (auto simp: achieved_def intro: stable_onD [OF Nil.prems(3)] same_on_mono)
next
  case (Cons x xs)
  obtain F P p where x: "x = (F, P, p)" by (cases x)
  have p: "ensures R F I (succeeds P) p s" and P: "stable_on F P" and F: "F \<subseteq> G" "FK \<inter> F = {}"
    using Cons.prems(2) by (auto simp: x meets_def)
  have xs: "apart xs" "\<forall>y\<in>set xs. meets R I y s \<and> fst y \<subseteq> G \<and> F \<inter> fst y = {}"
    "\<forall>y\<in>set xs. (FK \<union> F) \<inter> fst y = {}"
    using Cons.prems(1,2) by (auto simp: apart_def x)
  have K: "stable_on FK (\<lambda>s. err = None \<longrightarrow> K s)" using Cons.prems(3) by (auto simp: stable_on_def)
  have "ensures R G I (\<lambda>e. ensures R G I (succeeds (\<lambda>s. K s \<and> achieved (x # xs) s))
      (drain (map (snd \<circ> snd) xs) (first_error err e))) p s"
  proof (rule meets_frame [OF p F(1) K Cons.prems(4) _ _ xs(2)])
    fix e s'
    assume e: "succeeds P e s'" "err = None \<longrightarrow> K s'" "\<forall>y\<in>set xs. meets R I y s'"
    have "ensures R G I (succeeds (\<lambda>s. (K s \<and> P s) \<and> achieved xs s))
        (drain (map (snd \<circ> snd) xs) (first_error err e)) s'"
      by (rule Cons.IH [where FK = "FK \<union> F"])
        (use xs e F Cons.prems(4) stable_conj [OF Cons.prems(3) P] in \<open>auto simp: first_error_def split: if_splits\<close>)
    then show "ensures R G I (succeeds (\<lambda>s. K s \<and> achieved (x # xs) s))
        (drain (map (snd \<circ> snd) xs) (first_error err e)) s'"
      by (rule ensures_mono) (simp add: achieved_def x)
  qed (use F(2) Cons.prems(5) in auto)
  then show ?case by (simp add: x ensures_bind comp_def)
qed

lemma ensures_par:
  assumes "apart xs" and "\<forall>x\<in>set xs. meets R I x s \<and> fst x \<subseteq> G \<and> FK \<inter> fst x = {}"
    and "stable_on FK K" and "FK \<subseteq> G" and "err = None \<Longrightarrow> K s"
  shows "ensures R G I (succeeds (\<lambda>s. K s \<and> achieved xs s)) (par sched (map (snd \<circ> snd) xs) err) s"
  using assms
proof (induction sched arbitrary: xs err s FK K)
  case Nil
  from ensures_drain [OF Nil] show ?case by (simp add: comp_def)
next
  case (Cons i sched)
  show ?case
  proof (cases "i < length xs")
    case False
    with Cons.IH [OF Cons.prems] show ?thesis by simp
  next
    case i: True
    obtain F P p where x: "xs ! i = (F, P, p)" by (cases "xs ! i")
    define ys where "ys = take i xs @ drop (Suc i) xs"
    have split: "xs = take i xs @ (F, P, p) # drop (Suc i) xs" using id_take_nth_drop [OF i] x by simp
    then have set_xs: "set xs = insert (F, P, p) (set ys)"
      unfolding ys_def by (metis set_append list.set(2) Un_insert_right)
    have "apart (take i xs @ (F, P, p) # drop (Suc i) xs)" using Cons.prems(1) split by simp
    then have ys: "apart ys" "\<forall>y\<in>set ys. F \<inter> fst y = {}"
      by (auto simp: apart_def ys_def sorted_wrt_append)
    have p: "ensures R F I (succeeds P) p s" and P: "stable_on F P" and F: "F \<subseteq> G" "FK \<inter> F = {}"
      and others: "\<forall>y\<in>set ys. meets R I y s \<and> fst y \<subseteq> G \<and> FK \<inter> fst y = {}"
      using Cons.prems(2) by (auto simp: set_xs meets_def)
    have K: "stable_on FK (\<lambda>s. err = None \<longrightarrow> K s)" using Cons.prems(3) by (auto simp: stable_on_def)
    have prog: "map (snd \<circ> snd) xs ! i = p" using i x by simp
    show ?thesis
    proof (cases "\<exists>e. p = Done e")
      case True
      then obtain e where e: "p = Done e" by blast
      with p have "e = None \<Longrightarrow> P s" by auto
      then have "ensures R G I (succeeds (\<lambda>s. (K s \<and> P s) \<and> achieved ys s))
          (par sched (map (snd \<circ> snd) ys) (first_error err e)) s"
        by (intro Cons.IH [where FK = "FK \<union> F"])
          (use ys others F Cons.prems(4,5) stable_conj [OF Cons.prems(3) P] in
            \<open>auto simp: first_error_def split: if_splits\<close>)
      moreover have "map (snd \<circ> snd) ys = take i (map (snd \<circ> snd) xs) @ drop (Suc i) (map (snd \<circ> snd) xs)"
        by (simp add: ys_def take_map drop_map)
      moreover have "achieved xs s' \<longleftrightarrow> P s' \<and> achieved ys s'" for s' by (simp add: achieved_def set_xs)
      ultimately show ?thesis using i prog e by (simp add: conj_assoc comp_def)
    next
      case False
      have "ensures R G I (\<lambda>p'. ensures R G I (succeeds (\<lambda>s. K s \<and> achieved xs s))
          (par sched ((map (snd \<circ> snd) xs)[i := p']) err)) (step1 p) s"
      proof (rule meets_frame [OF ensures_step1 [OF p] F(1) K Cons.prems(4), where xs = ys])
        fix p' s'
        assume s': "ensures R F I (succeeds P) p' s'" "err = None \<longrightarrow> K s'" "\<forall>y\<in>set ys. meets R I y s'"
        define xs' where "xs' = take i xs @ (F, P, p') # drop (Suc i) xs"
        have xs': "xs' = xs[i := (F, P, p')]" using i by (simp add: xs'_def upd_conv_take_nth_drop)
        have set': "set xs' = insert (F, P, p') (set ys)" by (auto simp: xs'_def ys_def)
        have "apart xs'"
          using ys by (auto simp: apart_def xs'_def ys_def sorted_wrt_append Int_commute)
        moreover have "\<forall>x\<in>set xs'. meets R I x s' \<and> fst x \<subseteq> G \<and> FK \<inter> fst x = {}"
          using s' others F P by (simp add: set' meets_def)
        ultimately have "ensures R G I (succeeds (\<lambda>s. K s \<and> achieved xs' s)) (par sched (map (snd \<circ> snd) xs') err) s'"
          using Cons.prems(3,4) s'(2) by (intro Cons.IH) auto
        moreover have "achieved xs' = achieved xs" by (simp add: achieved_def set' set_xs fun_eq_iff)
        moreover have "map (snd \<circ> snd) xs' = (map (snd \<circ> snd) xs)[i := p']" by (simp add: xs' map_update)
        ultimately show "ensures R G I (succeeds (\<lambda>s. K s \<and> achieved xs s))
            (par sched ((map (snd \<circ> snd) xs)[i := p']) err) s'" by simp
      qed (use F(2) Cons.prems(5) others ys(2) in auto)
      then have "ensures R G I (succeeds (\<lambda>s. K s \<and> achieved xs s))
          (bindP (step1 p) (\<lambda>p'. par sched ((map (snd \<circ> snd) xs)[i := p']) err)) s"
        by (rule ensures_bind)
      with i False prog show ?thesis by (simp only: par_step) simp
    qed
  qed
qed

text \<open>The group of goroutines, whatever its schedule, while \<open>K\<close> holds of what it does not write.\<close>

lemma ensures_RunReconciles:
  assumes "apart xs" and "\<And>x. x \<in> set xs \<Longrightarrow> meets R I x s"
    and "\<And>x. x \<in> set xs \<Longrightarrow> FK \<inter> fst x = {}" and "stable_on FK K" and "K s"
  shows "ensures R UNIV I (succeeds (\<lambda>s. K s \<and> achieved xs s)) (RunReconciles sched (map (snd \<circ> snd) xs)) s"
  unfolding RunReconciles_def by (rule ensures_par [OF assms(1) _ assms(4)]) (use assms in auto)

context kube_server
begin

text \<open>What it says of an execution.\<close>

lemma ensures_run:
  assumes "ensures R F I Q p (obs w)" and "I m" and "run A p w m = (a, w', m')"
  shows "Q a (obs w') \<and> I m'"
  using assms
proof (induction p arbitrary: w m rule: prog_induct)
  case (Get kd ns n c)
  obtain r w1 where g: "api_get A kd ns n w = (r, w1)" by (cases "api_get A kd ns n w")
  have "case r of Inr x \<Rightarrow> obs w (kd, ns, n) = Some x
      | Inl e \<Rightarrow> IsNotFound (Some e) \<longrightarrow> obs w (kd, ns, n) = None"
    using g by (cases r) (auto dest: get_Inr get_not_found)
  with Get.prems(1) keyed have "ensures R F I Q (c r) (obs w)" by simp
  then have "ensures R F I Q (c r) (obs w1)" by (simp add: get_obs [OF g])
  with Get g show ?case by (auto intro: Get.IH [of r w1 m])
next
  case (ListObjs kd nso sel c)
  obtain r w1 where g: "api_list A kd nso sel w = (r, w1)" by (cases "api_list A kd nso sel w")
  then have "\<forall>xs. r = Inr xs \<longrightarrow> set xs = listed (obs w) kd nso sel" by (auto dest: list_Inr)
  with ListObjs.prems(1) keyed have "ensures R F I Q (c r) (obs w)" by simp
  then have "ensures R F I Q (c r) (obs w1)" by (simp add: list_obs [OF g])
  with ListObjs g show ?case by (auto intro: ListObjs.IH [of r w1 m])
next
  case (Write q c)
  obtain e w1 where g: "api_write A q w = (e, w1)" by (cases "api_write A q w")
  then have "written R q (obs w) (obs w1) \<or> (e \<noteq> None \<and> obs w1 = obs w)"
    using write_ok [of q w w1] write_failed [of q w _ w1] by (cases e) auto
  with Write.prems(1) keyed [of w1] same_on_refl [of F "obs w"] have "ensures R F I Q (c e) (obs w1)"
    unfolding ensures.simps by blast
  with Write g show ?case by (auto intro: Write.IH [of e w1 m])
next
  case (Now c)
  obtain t w1 where g: "api_now A w = (t, w1)" by (cases "api_now A w")
  with Now.prems(1) now_obs [OF g] have "ensures R F I Q (c t) (obs w1)" by simp
  with Now g show ?case by (auto intro: Now.IH [of t w1 m])
qed auto

end

end
