(* ===== verification/Convergence.thy ===== *)
theory Convergence
  imports SteadyState Ensures
begin

section \<open>A reconciliation that reports success has brought the cluster in sync\<close>

text \<open>
  For each of the six reconcile functions: if it returns no error, the cluster holds what the
  function expects of it, whatever it held before, whichever calls failed, and whatever the
  other goroutines did. The goroutines write objects of different kinds, so the group of the
  six brings about all of \<open>in_sync\<close>. What is relied on of the server is \<open>stores\<close>: an object that has
  been written keeps its labels and its specification, to which the server may add defaults;
  and of the libraries \<open>compares\<close>: an object is a derivative of itself, and what the operator expects is
  never a derivative of an empty object.
\<close>

definition fills :: "ext \<Rightarrow> GoAny \<Rightarrow> GoAny \<Rightarrow> bool" where
  "fills E a b \<longleftrightarrow> (\<forall>c. ext_DeepDerivative E c a \<longrightarrow> ext_DeepDerivative E c b)"

definition spec_kept :: "ext \<Rightarrow> kobj \<Rightarrow> kobj \<Rightarrow> bool" where
  "spec_kept E x y \<longleftrightarrow> (case x of
     ObjDeployment x \<Rightarrow> (case proj_Deployment y of Some y \<Rightarrow> fills E (AnyDeploymentSpec (dep_Spec x)) (AnyDeploymentSpec (dep_Spec y)) | None \<Rightarrow> False)
   | ObjService x \<Rightarrow> (case proj_Service y of Some y \<Rightarrow> ext_DeepDerivative E
       (AnyServiceSpec (MergeIntoServiceSpec (svc_Spec x) (GetGeneratedServiceSpecData y)))
       (AnyServiceSpec (svc_Spec y)) | None \<Rightarrow> False)
   | ObjIngress x \<Rightarrow> (case proj_Ingress y of Some y \<Rightarrow> fills E (AnyIngressSpec (ing_Spec x)) (AnyIngressSpec (ing_Spec y)) | None \<Rightarrow> False)
   | ObjConfigMap x \<Rightarrow> (case proj_ConfigMap y of Some y \<Rightarrow> fills E (AnyStringMap (cm_Data x)) (AnyStringMap (cm_Data y)) | None \<Rightarrow> False)
   | ObjExternalSecret x \<Rightarrow> (case proj_ExternalSecret y of Some y \<Rightarrow> fills E
       (AnyExternalSecretSpec (xs_Spec x)) (AnyExternalSecretSpec (xs_Spec y)) | None \<Rightarrow> False)
   | ObjPVC x \<Rightarrow> (case proj_PVC y of Some y \<Rightarrow> fills E (AnyPVCSpec (pvc_Spec x)) (AnyPVCSpec (pvc_Spec y)) | None \<Rightarrow> False)
   | ObjRecurringJob x \<Rightarrow> (case proj_RecurringJob y of Some y \<Rightarrow> ext_HashRecurringJobSpec E (job_Spec y) = ext_HashRecurringJobSpec E (job_Spec x) | None \<Rightarrow> False)
   | _ \<Rightarrow> True)"

text \<open>The fields that the server generates for a service are those that the operator copies back.\<close>

definition stores :: "ext \<Rightarrow> kobj \<Rightarrow> kobj \<Rightarrow> bool" where
  "stores E x y \<longleftrightarrow> key_of y = key_of x \<and> om_Labels (obj_meta y) = om_Labels (obj_meta x) \<and> spec_kept E x y"

definition compares :: "ext \<Rightarrow> bool" where
  "compares E \<longleftrightarrow> (\<forall>a. ext_DeepDerivative E a a) \<and>
     (\<forall>d. ext_DeepDerivative E (AnyStringMap (Some d)) (AnyStringMap None) \<longrightarrow> d = []) \<and>
     (\<forall>x. ext_DeepDerivative E (AnyExternalSecretSpec x) (AnyExternalSecretSpec zero_external_secret_spec) \<longrightarrow>
        es_StoreKind x = []) \<and>
     (\<forall>x. ext_DeepDerivative E (AnyPVCSpec x) (AnyPVCSpec zero_pvc_spec) \<longrightarrow> vc_AccessModes x = []) \<and>
     (\<forall>x. ext_DeepDerivative E (AnyIngressSpec x) (AnyIngressSpec zero_ingress_spec) \<longrightarrow> is_Rules x = []) \<and>
     (\<forall>x h. ext_HashRecurringJobSpec E x = Inr h \<longrightarrow>
        ext_HashRecurringJobSpec E zero_recurring_job_spec = Inr h \<longrightarrow> rj_Task x = [])"

lemma compares_refl: "compares E \<Longrightarrow> ext_DeepDerivative E a a"
  by (simp add: compares_def)

lemma fillsD: "fills E a b \<Longrightarrow> ext_DeepDerivative E c a \<Longrightarrow> ext_DeepDerivative E c b"
  by (simp add: fills_def)

lemma held_same: "same_on F s s' \<Longrightarrow> kd \<in> F \<Longrightarrow> held s' kd proj ns n = held s kd proj ns n"
  by (simp add: held_def same_onD)

context kube_kind
begin

text \<open>What is held after an object of this kind has been stored.\<close>

lemma held_stored:
  "om_Namespace (meta x) = ns \<Longrightarrow> om_Name (meta x) = n \<Longrightarrow>
    held (s(key_of (inj x) \<mapsto> inj y)) kd proj ns n = Some y"
  by (simp add: held_def key_of_def kind_inj meta_inj proj_inj)

end

text \<open>The shape of a reconcile function after it has built what it expects.\<close>

lemma ensures_case_sum:
  "(\<And>x. r = Inr x \<Longrightarrow> ensures R F I (succeeds P) (g x) s) \<Longrightarrow>
    ensures R F I (succeeds P) (case r of Inl err \<Rightarrow> Done (Some err) | Inr x \<Rightarrow> g x) s"
  by (cases r) simp_all

lemma ensures_if:
  "(b \<Longrightarrow> ensures R F I Q p s) \<Longrightarrow> (\<not> b \<Longrightarrow> ensures R F I Q q s) \<Longrightarrow> ensures R F I Q (if b then p else q) s"
  by simp

lemma ensures_nothing: "stable_on F P \<Longrightarrow> P s \<Longrightarrow> ensures R F I (succeeds P) (Done None) s"
  by (auto dest: stable_onD)

lemma ensures_case_option:
  "(r = None \<Longrightarrow> ensures R F I Q p s) \<Longrightarrow> (\<And>x. r = Some x \<Longrightarrow> ensures R F I Q (g x) s) \<Longrightarrow>
    ensures R F I Q (case r of None \<Rightarrow> p | Some x \<Rightarrow> g x) s"
  by (cases r) simp_all

lemma ensures_ListObjs:
  assumes "\<And>s1 r. same_on F s s1 \<Longrightarrow> keyed s1 \<Longrightarrow> (\<And>xs. r = Inr xs \<Longrightarrow> set xs = listed s1 kd nso sel) \<Longrightarrow>
      ensures R F I Q (c r) s1"
  shows "ensures R F I Q (ListObjs kd nso sel c) s"
  using assms by simp

lemmas ensures_intros = ensures_ReadBundle ensures_case_sum ensures_case_option ensures_if ensures_with_reason

text \<open>What is stored for an object of each kind.\<close>

lemma stores_Deployment:
  assumes "stores E (ObjDeployment x) z"
  obtains y where "z = ObjDeployment y" and "om_Labels (dep_ObjectMeta y) = om_Labels (dep_ObjectMeta x)"
    and "fills E (AnyDeploymentSpec (dep_Spec x)) (AnyDeploymentSpec (dep_Spec y))"
  using assms by (auto simp: stores_def spec_kept_def dest: deployments.proj_Some split: option.splits)

lemma stores_Service:
  assumes "stores E (ObjService x) z"
  obtains y where "z = ObjService y" and "om_Labels (svc_ObjectMeta y) = om_Labels (svc_ObjectMeta x)"
    and "ext_DeepDerivative E (AnyServiceSpec (MergeIntoServiceSpec (svc_Spec x) (GetGeneratedServiceSpecData y)))
      (AnyServiceSpec (svc_Spec y))"
  using assms by (auto simp: stores_def spec_kept_def dest: services.proj_Some split: option.splits)

lemma stores_ConfigMap:
  assumes "stores E (ObjConfigMap x) z"
  obtains y where "z = ObjConfigMap y" and "fills E (AnyStringMap (cm_Data x)) (AnyStringMap (cm_Data y))"
  using assms by (auto simp: stores_def spec_kept_def dest: config_maps.proj_Some split: option.splits)

lemma stores_ExternalSecret:
  assumes "stores E (ObjExternalSecret x) z"
  obtains y where "z = ObjExternalSecret y"
    and "fills E (AnyExternalSecretSpec (xs_Spec x)) (AnyExternalSecretSpec (xs_Spec y))"
  using assms by (auto simp: stores_def spec_kept_def dest: external_secrets.proj_Some split: option.splits)

lemma stores_Ingress:
  assumes "stores E (ObjIngress x) z"
  obtains y where "z = ObjIngress y" and "fills E (AnyIngressSpec (ing_Spec x)) (AnyIngressSpec (ing_Spec y))"
    and "key_of z = key_of (ObjIngress x)"
  using assms by (auto simp: stores_def spec_kept_def dest: ingresses.proj_Some split: option.splits)

subsection \<open>The deployment\<close>

lemma expected_deployment_frame:
  assumes "agrees ab0 ab" and "wf_spec ab0" and "CreateExpectedDeployment grow ab = Inr d"
  obtains d0 where "CreateExpectedDeployment grow ab0 = Inr d0" and "dep_Spec d0 = dep_Spec d"
    and "om_Labels (dep_ObjectMeta d0) = om_Labels (dep_ObjectMeta d)"
    and "om_Name (dep_ObjectMeta d) = ab_Name ab0" and "om_Namespace (dep_ObjectMeta d) = ab_Namespace ab0"
proof (cases "CreateExpectedDeployment grow ab0")
  case (Inl e)
  note ag = agrees_meta [OF assms(1)] agrees_spec [OF assms(1)] agrees_more_spec [OF assms(1)]
  have "CreateExpectedDeployment grow ab =
      rbind (CreateExpectedDeployment grow ab0) (\<lambda>d. Inr (d\<lparr>dep_ObjectMeta := deployment_meta ab\<rparr>))"
    by (rule deployment_cong_meta) (use assms(2) in \<open>simp_all add: ag wf_spec_def same_map_refl\<close>)
  with Inl assms(3) show thesis by simp
next
  case (Inr d0)
  from expected_deployment_agrees [OF assms(1,2) Inr] assms(3) show thesis
    by (intro that [OF Inr]) (auto simp: agrees_meta [OF assms(1)])
qed

lemma stable_deployment: "stable_on {KDeployment} (\<lambda>s. deployment_in_sync s grow E ab)"
  by (auto simp: stable_on_def deployment_in_sync_def held_same [of "{KDeployment}"])

lemma deployment_stored:
  assumes "compares E" and "wf_spec ab0" and "agrees ab0 ab" and "CreateExpectedDeployment grow ab = Inr d"
    and "stores E (ObjDeployment d) y"
  shows "deployment_in_sync (s(key_of (ObjDeployment d) \<mapsto> y)) grow E ab0"
proof -
  obtain d0 where d0: "CreateExpectedDeployment grow ab0 = Inr d0" "dep_Spec d0 = dep_Spec d"
    "om_Labels (dep_ObjectMeta d0) = om_Labels (dep_ObjectMeta d)"
    and meta: "om_Namespace (dep_ObjectMeta d) = ab_Namespace ab0" "om_Name (dep_ObjectMeta d) = ab_Name ab0"
    using expected_deployment_frame [OF assms(3,2,4)] by metis
  have lab: "om_Labels (dep_ObjectMeta d0) = Some (SetDefaultAppBundleLabels ab0 None)"
    by (simp add: expected_deployment_meta [OF d0(1)])
  obtain x where y: "y = ObjDeployment x"
    and kept: "om_Labels (dep_ObjectMeta x) = om_Labels (dep_ObjectMeta d)"
    "fills E (AnyDeploymentSpec (dep_Spec d)) (AnyDeploymentSpec (dep_Spec x))"
    using assms(5) by (rule stores_Deployment)
  have x: "held (s(key_of (ObjDeployment d) \<mapsto> y)) KDeployment proj_Deployment (ab_Namespace ab0) (ab_Name ab0) = Some x"
    unfolding y using meta by (rule deployments.held_stored)
  have "StringMapsMatch (om_Labels (dep_ObjectMeta d0)) (om_Labels (dep_ObjectMeta x))"
    unfolding kept(1) d0(3) [symmetric] lab by (simp add: StringMapsMatch_iff wf_default_labels)
  then show ?thesis
    using fillsD [OF kept(2) compares_refl [OF assms(1)]] by (simp add: deployment_in_sync_def x d0(1,2))
qed

lemma deployment_unchanged:
  assumes "wf_spec ab0" and "agrees ab0 ab" and "CreateExpectedDeployment grow ab = Inr d"
    and "ext_DeepDerivative E (AnyDeploymentSpec (dep_Spec d)) (AnyDeploymentSpec (dep_Spec cur))"
    and "StringMapsMatch (om_Labels (dep_ObjectMeta d)) (om_Labels (dep_ObjectMeta cur))"
    and "s (KDeployment, ab_Namespace ab0, ab_Name ab0) = Some (ObjDeployment cur)"
  shows "deployment_in_sync s grow E ab0"
proof -
  have "held s KDeployment proj_Deployment (ab_Namespace ab0) (ab_Name ab0) = Some cur"
    using assms(6) by (simp add: deployments.held_iff)
  moreover obtain d0 where "CreateExpectedDeployment grow ab0 = Inr d0" "dep_Spec d0 = dep_Spec d"
    "om_Labels (dep_ObjectMeta d0) = om_Labels (dep_ObjectMeta d)"
    using expected_deployment_frame [OF assms(2,1,3)] by metis
  ultimately show ?thesis using assms(4,5) by (simp add: deployment_in_sync_def)
qed

lemma upsert_deployment:
  assumes "compares E" and "wf_spec ab0" and "agrees ab0 ab" and "CreateExpectedDeployment grow ab = Inr d"
  shows "ensures (stores E) {KDeployment} I (succeeds (\<lambda>s. deployment_in_sync s grow E ab0))
    (UpsertResource (ObjDeployment d) reason er nd) s"
  by (rule ensures_UpsertResource) (simp_all add: deployment_stored [OF assms] stable_deployment)

lemma ensures_deployment:
  assumes "compares E" and "wf_spec ab0"
  shows "ensures (stores E) {KDeployment} (settled ab0) (succeeds (\<lambda>s. deployment_in_sync s grow E ab0))
    (ReconcileDeployment grow E) s"
proof -
  have blank: "\<not> StringMapsMatch (om_Labels (dep_ObjectMeta d)) (om_Labels (dep_ObjectMeta (blank_deployment ab)))"
    if "CreateExpectedDeployment grow ab' = Inr d" for d ab ab'
    using labels_differ_from_none by (simp add: expected_deployment_meta [OF that])
  show ?thesis
    unfolding ReconcileDeployment_def
    by (intro ensures_ReadBundle, subst ensures_with_mutex, rule deployments.ensures_GetInto;
        intro ensures_intros ensures_nothing stable_deployment)
      (auto simp: agrees_meta [OF settledD] intro: upsert_deployment assms settledD deployment_unchanged dest: blank)
qed

subsection \<open>The service\<close>

lemma expected_service_generated:
  assumes "fst (CreateExpectedService g ab) = Inr svc"
  obtains svc' where "fst (CreateExpectedService g' ab) = Inr svc'" and "svc_ObjectMeta svc' = svc_ObjectMeta svc"
    and "svc_Spec svc' = MergeIntoServiceSpec (svc_Spec svc) g'"
proof -
  have "\<exists>svc'. fst (CreateExpectedService g' ab) = Inr svc' \<and> svc_ObjectMeta svc' = svc_ObjectMeta svc \<and>
      svc_Spec svc' = MergeIntoServiceSpec (svc_Spec svc) g'"
    using assms by (auto simp: CreateExpectedService_def Let_def rbind_Inr_iff MergeIntoServiceSpec_def
        split: sum.splits if_splits)
  with that show thesis by blast
qed

lemma expected_service_frame:
  assumes "settled ab0 m" and "fst (CreateExpectedService g (m_bundle m)) = Inr svc"
  obtains svc0 where "fst (CreateExpectedService g' ab0) = Inr svc0"
    and "svc_Spec svc0 = MergeIntoServiceSpec (svc_Spec svc) g'"
    and "om_Labels (svc_ObjectMeta svc0) = om_Labels (svc_ObjectMeta svc)"
    and "om_Name (svc_ObjectMeta svc) = ab_Name ab0" and "om_Namespace (svc_ObjectMeta svc) = ab_Namespace ab0"
proof -
  have "settled (m_bundle m) (m\<lparr>m_bundle := ab0\<rparr>)"
    using assms(1) by (simp add: settled_def agrees_def)
  from expected_service_settled [OF this assms(2)] obtain svc1
    where svc1: "fst (CreateExpectedService g ab0) = Inr svc1" "svc_Spec svc1 = svc_Spec svc"
      "om_Labels (svc_ObjectMeta svc1) = om_Labels (svc_ObjectMeta svc)" by auto
  obtain ab' where "CreateExpectedService g (m_bundle m) = (Inr svc, ab')"
    using assms(2) by (cases "CreateExpectedService g (m_bundle m)") simp
  note meta = CreateExpectedService_Inr(1) [OF this]
  have "om_Name (svc_ObjectMeta svc) = ab_Name ab0" "om_Namespace (svc_ObjectMeta svc) = ab_Namespace ab0"
    by (subst meta, simp add: agrees_meta [OF settledD [OF assms(1)]])+
  with svc1 that show thesis by (metis expected_service_generated)
qed

lemma stable_service: "stable_on {KService} (\<lambda>s. service_in_sync s E ab)"
  by (auto simp: stable_on_def service_in_sync_def held_same [of "{KService}"] same_onD [of "{KService}"])

lemma upsert_service:
  assumes "settled ab0 m" and "fst (CreateExpectedService g (m_bundle m)) = Inr svc"
    and "sp_Routes (ab_Spec ab0) \<noteq> None"
  shows "ensures (stores E) {KService} I (succeeds (\<lambda>s. service_in_sync s E ab0))
    (UpsertResource (ObjService svc) reason er nd) s"
proof (rule ensures_UpsertResource)
  fix s1 z
  assume "stores E (ObjService svc) z"
  then obtain y where z: "z = ObjService y" and lab: "om_Labels (svc_ObjectMeta y) = om_Labels (svc_ObjectMeta svc)"
    and spec: "ext_DeepDerivative E (AnyServiceSpec (MergeIntoServiceSpec (svc_Spec svc) (GetGeneratedServiceSpecData y)))
      (AnyServiceSpec (svc_Spec y))" by (rule stores_Service)
  obtain svc0 where svc0: "fst (CreateExpectedService (GetGeneratedServiceSpecData y) ab0) = Inr svc0"
    "svc_Spec svc0 = MergeIntoServiceSpec (svc_Spec svc) (GetGeneratedServiceSpecData y)"
    "om_Labels (svc_ObjectMeta svc0) = om_Labels (svc_ObjectMeta svc)"
    and meta: "om_Name (svc_ObjectMeta svc) = ab_Name ab0" "om_Namespace (svc_ObjectMeta svc) = ab_Namespace ab0"
    using expected_service_frame [OF assms(1,2)] .
  have own: "om_Labels (svc_ObjectMeta svc0) = Some (SetDefaultAppBundleLabels ab0 None)"
    using svc0(1) by (cases "CreateExpectedService (GetGeneratedServiceSpecData y) ab0")
      (simp, subst CreateExpectedService_Inr(1), simp_all)
  have "held (s1(key_of (ObjService svc) \<mapsto> z)) KService proj_Service (ab_Namespace ab0) (ab_Name ab0) = Some y"
    unfolding z using meta(2,1) by (rule services.held_stored)
  moreover have "StringMapsMatch (om_Labels (svc_ObjectMeta svc0)) (om_Labels (svc_ObjectMeta y))"
    unfolding lab svc0(3) [symmetric] own by (simp add: StringMapsMatch_iff wf_default_labels)
  ultimately show "service_in_sync (s1(key_of (ObjService svc) \<mapsto> z)) E ab0"
    using assms(3) svc0 spec by (auto simp: service_in_sync_def)
qed (simp_all add: stable_service)

lemma service_unchanged:
  assumes "settled ab0 m" and "fst (CreateExpectedService (GetGeneratedServiceSpecData cur) (m_bundle m)) = Inr svc"
    and "ext_DeepDerivative E (AnyServiceSpec (svc_Spec svc)) (AnyServiceSpec (svc_Spec cur))"
    and "StringMapsMatch (om_Labels (svc_ObjectMeta svc)) (om_Labels (svc_ObjectMeta cur))"
    and "s (KService, ab_Namespace ab0, ab_Name ab0) = Some (ObjService cur)"
    and "sp_Routes (ab_Spec ab0) \<noteq> None"
  shows "service_in_sync s E ab0"
proof -
  have "held s KService proj_Service (ab_Namespace ab0) (ab_Name ab0) = Some cur"
    using assms(5) by (simp add: services.held_iff)
  moreover have "settled (m_bundle m) (m\<lparr>m_bundle := ab0\<rparr>)"
    using assms(1) by (simp add: settled_def agrees_def)
  from expected_service_settled [OF this assms(2)] obtain svc0
    where "fst (CreateExpectedService (GetGeneratedServiceSpecData cur) ab0) = Inr svc0" "svc_Spec svc0 = svc_Spec svc"
      "om_Labels (svc_ObjectMeta svc0) = om_Labels (svc_ObjectMeta svc)" by auto
  ultimately show ?thesis using assms(3,4,6) by (auto simp: service_in_sync_def)
qed

text \<open>Deleting what is not expected.\<close>

lemma ensures_deleted:
  assumes "key_of x = k" and "fst k \<in> F" and "\<And>s. s k = None \<Longrightarrow> P s" and "stable_on F P"
  shows "ensures R F I (succeeds P) (Write (Delete x) Done) s"
proof (rule ensures_Delete)
  show "kind_of x \<in> F" using assms(1,2) by auto
  show "ensures R F I (succeeds P) (Done e) (s1(key_of x := None))" for s1 e
    using stable_onD [OF assms(4) _ assms(3), of "s1(k := None)"] assms(1) by simp
qed auto

lemma ensures_service:
  "ensures (stores E) {KService} (settled ab0) (succeeds (\<lambda>s. service_in_sync s E ab0)) (ReconcileService E) s"
proof -
  have blank: "\<not> StringMapsMatch (om_Labels (svc_ObjectMeta svc)) None"
    if "fst (CreateExpectedService g ab) = Inr svc" for g ab svc
    using that labels_differ_from_none by (cases "CreateExpectedService g ab")
      (simp, subst CreateExpectedService_Inr(1), simp_all)
  have absent: "service_in_sync s E ab0"
    if "sp_Routes (ab_Spec ab0) = None" "s (KService, ab_Namespace ab0, ab_Name ab0) = None" for s
    using that by (simp add: service_in_sync_def)
  show ?thesis
    unfolding ReconcileService_def
    by (intro ensures_ReadBundle, subst ensures_with_mutex, rule services.ensures_GetInto;
        intro ensures_intros ensures_UpdateBundle settled_service ensures_nothing stable_service
        ensures_deleted [where k = "(KService, ab_Namespace ab0, ab_Name ab0)"])
      (auto simp: agrees_simps [OF settledD] key_of_def
        intro: upsert_service service_unchanged absent dest: blank keyedD)
qed

subsection \<open>The config map\<close>

lemma expected_config_map_data:
  assumes "CreateExpectedConfigMap ab = Inr (Some cm)"
  obtains d where "cm_Data cm = Some d" and "d \<noteq> []"
    and "om_Name (cm_ObjectMeta cm) = ab_Name ab" and "om_Namespace (cm_ObjectMeta cm) = ab_Namespace ab"
  using assms by (auto simp: CreateExpectedConfigMap_def Let_def split: if_splits)

lemma stable_config_map: "stable_on {KConfigMap, KPod} (\<lambda>s. config_map_in_sync s E ab)"
  by (auto simp: stable_on_def config_map_in_sync_def held_same [of "{KConfigMap, KPod}"]
      same_onD [of "{KConfigMap, KPod}"] split: sum.split option.split)

lemma upsert_config_map:
  assumes "compares E" and "CreateExpectedConfigMap ab0 = Inr (Some cm)"
  shows "ensures (stores E) {KConfigMap, KPod} I (succeeds (\<lambda>s. config_map_in_sync s E ab0))
    (UpsertResource (ObjConfigMap cm) reason er nd) s"
proof (rule ensures_UpsertResource)
  fix s1 z
  assume "stores E (ObjConfigMap cm) z"
  then obtain y where z: "z = ObjConfigMap y" and kept: "fills E (AnyStringMap (cm_Data cm)) (AnyStringMap (cm_Data y))"
    by (rule stores_ConfigMap)
  have "om_Namespace (cm_ObjectMeta cm) = ab_Namespace ab0" "om_Name (cm_ObjectMeta cm) = ab_Name ab0"
    using assms(2) by (auto elim: expected_config_map_data)
  then have "held (s1(key_of (ObjConfigMap cm) \<mapsto> z)) KConfigMap proj_ConfigMap (ab_Namespace ab0) (ab_Name ab0) = Some y"
    unfolding z by (rule config_maps.held_stored)
  then show "config_map_in_sync (s1(key_of (ObjConfigMap cm) \<mapsto> z)) E ab0"
    using fillsD [OF kept compares_refl [OF assms(1)]] assms(2) by (simp add: config_map_in_sync_def)
qed (simp_all add: stable_config_map)

text \<open>Restarting a pod leaves the config map alone.\<close>

lemma ensures_restart_pod:
  assumes "config_map_in_sync s E ab0"
  shows "ensures R {KConfigMap, KPod} I (succeeds (\<lambda>s. config_map_in_sync s E ab0)) (restart_pod ab) s"
  unfolding restart_pod_def
proof (rule ensures_ListObjs, rule ensures_case_sum)
  fix s1 r objs
  assume "same_on {KConfigMap, KPod} s s1"
  then have s1: "config_map_in_sync s1 E ab0" using assms by (rule stable_onD [OF stable_config_map])
  have keep: "ensures R {KConfigMap, KPod} I (succeeds (\<lambda>s. config_map_in_sync s E ab0)) (Done e) s2"
    if "config_map_in_sync s2 E ab0" for e s2
    using that by (auto dest: stable_onD [OF stable_config_map])
  have "config_map_in_sync (s2(key_of (ObjPod pod) := None)) E ab0" if "same_on {KConfigMap, KPod} s1 s2" for pod s2
    using stable_onD [OF stable_config_map that s1]
    by (auto simp: config_map_in_sync_def config_maps.held_upd_other key_of_def split: sum.splits option.splits)
  then have "ensures R {KConfigMap, KPod} I (succeeds (\<lambda>s. config_map_in_sync s E ab0)) (Write (Delete (ObjPod pod)) Done) s1"
    for pod by (intro ensures_Delete keep) (auto dest: stable_onD [OF stable_config_map _ s1])
  with keep [OF s1] show "ensures R {KConfigMap, KPod} I (succeeds (\<lambda>s. config_map_in_sync s E ab0))
     (case items_of proj_Pod objs of [] \<Rightarrow> Done None
      | [pod] \<Rightarrow> Write (Delete (ObjPod pod)) Done
      | _ \<Rightarrow> Done (Some (APIStatus ReasonBadRequest ''More than one pod found for appbundle''))) s1"
    by (auto split: list.split)
qed

lemma upsert_then_restart:
  assumes "compares E" and "CreateExpectedConfigMap ab0 = Inr (Some cm)"
  shows "ensures (stores E) {KConfigMap, KPod} I (succeeds (\<lambda>s. config_map_in_sync s E ab0))
    (thenP (UpsertResource (ObjConfigMap cm) reason er nd) (restart_pod ab)) s"
  by (rule ensures_thenP [OF upsert_config_map [OF assms] ensures_restart_pod])

lemma ensures_config_map:
  assumes "compares E"
  shows "ensures (stores E) {KConfigMap, KPod} (settled ab0) (succeeds (\<lambda>s. config_map_in_sync s E ab0))
    (ReconcileConfigMap E) s"
proof -
  let ?k = "(KConfigMap, ab_Namespace ab0, ab_Name ab0)"
  have blank: "\<not> ext_DeepDerivative E (AnyStringMap (cm_Data cm)) (AnyStringMap None)"
    if "CreateExpectedConfigMap ab0 = Inr (Some cm)" for cm
    using that assms by (auto simp: compares_def elim!: expected_config_map_data)
  have absent: "config_map_in_sync s E ab0" if "CreateExpectedConfigMap ab0 = Inr None" "s ?k = None" for s
    using that by (simp add: config_map_in_sync_def)
  have found: "config_map_in_sync s E ab0"
    if "CreateExpectedConfigMap ab0 = Inr (Some cm)" "s ?k = Some (ObjConfigMap cur)"
      "ext_DeepDerivative E (AnyStringMap (cm_Data cm)) (AnyStringMap (cm_Data cur))" for s cm cur
    using that config_maps.held_iff [of s "ab_Namespace ab0" "ab_Name ab0" cur] by (simp add: config_map_in_sync_def)
  show ?thesis
    unfolding ReconcileConfigMap_def
    by (intro ensures_ReadBundle, subst ensures_with_mutex, rule config_maps.ensures_GetInto;
        intro ensures_intros ensures_nothing stable_config_map ensures_deleted [where k = ?k])
      (auto simp: key_of_def agrees_meta [OF settledD] expected_config_map_agrees [OF settledD]
        intro: upsert_then_restart [OF assms] absent found dest: blank keyedD)
qed

subsection \<open>The external secret\<close>

lemma stable_secret: "stable_on {KExternalSecret} (\<lambda>s. secret_in_sync s E ab)"
  by (auto simp: stable_on_def secret_in_sync_def held_same [of "{KExternalSecret}"]
      same_onD [of "{KExternalSecret}"] split: sum.split option.split)

lemma upsert_secret:
  assumes "compares E" and "CreateExpectedExternalSecret ab0 = Inr (Some xs)"
  shows "ensures (stores E) {KExternalSecret} I (succeeds (\<lambda>s. secret_in_sync s E ab0))
    (UpsertResource (ObjExternalSecret xs) reason er nd) s"
proof (rule ensures_UpsertResource)
  fix s1 z
  assume "stores E (ObjExternalSecret xs) z"
  then obtain y where z: "z = ObjExternalSecret y"
    and kept: "fills E (AnyExternalSecretSpec (xs_Spec xs)) (AnyExternalSecretSpec (xs_Spec y))"
    by (rule stores_ExternalSecret)
  have "om_Namespace (xs_ObjectMeta xs) = ab_Namespace ab0" "om_Name (xs_ObjectMeta xs) = ab_Name ab0"
    by (simp_all add: CreateExpectedExternalSecret_Some(1) [OF assms(2)])
  then have "held (s1(key_of (ObjExternalSecret xs) \<mapsto> z)) KExternalSecret proj_ExternalSecret
      (ab_Namespace ab0) (ab_Name ab0) = Some y"
    unfolding z by (rule external_secrets.held_stored)
  then show "secret_in_sync (s1(key_of (ObjExternalSecret xs) \<mapsto> z)) E ab0"
    using fillsD [OF kept compares_refl [OF assms(1)]] assms(2) by (simp add: secret_in_sync_def)
qed (simp_all add: stable_secret)

lemma ensures_external_secret:
  assumes "compares E"
  shows "ensures (stores E) {KExternalSecret} (settled ab0) (succeeds (\<lambda>s. secret_in_sync s E ab0))
    (ReconcileExternalSecret E) s"
proof -
  let ?k = "(KExternalSecret, ab_Namespace ab0, ab_Name ab0)"
  have blank: "\<not> ext_DeepDerivative E (AnyExternalSecretSpec (xs_Spec xs)) (AnyExternalSecretSpec zero_external_secret_spec)"
    if "CreateExpectedExternalSecret ab0 = Inr (Some xs)" for xs
    using that assms by (auto simp: compares_def CreateExpectedExternalSecret_def Let_def split: if_splits option.splits)
  have absent: "secret_in_sync s E ab0" if "CreateExpectedExternalSecret ab0 = Inr None" "s ?k = None" for s
    using that by (simp add: secret_in_sync_def)
  have found: "secret_in_sync s E ab0"
    if "CreateExpectedExternalSecret ab0 = Inr (Some xs)" "s ?k = Some (ObjExternalSecret cur)"
      "ext_DeepDerivative E (AnyExternalSecretSpec (xs_Spec xs)) (AnyExternalSecretSpec (xs_Spec cur))" for s xs cur
    using that external_secrets.held_iff [of s "ab_Namespace ab0" "ab_Name ab0" cur] by (simp add: secret_in_sync_def)
  show ?thesis
    unfolding ReconcileExternalSecret_def
    by (intro ensures_ReadBundle, subst ensures_with_mutex, rule external_secrets.ensures_GetInto;
        intro ensures_intros ensures_nothing stable_secret ensures_deleted [where k = ?k] ensures_Delete)
      (auto simp: key_of_def agrees_meta [OF settledD] expected_secret_agrees [OF settledD]
        intro: upsert_secret [OF assms] absent found dest: blank keyedD)
qed

subsection \<open>The ingresses\<close>

text \<open>Ingresses of the bundle that it does not ask for are among \<open>W\<close>.\<close>

definition strays :: "AppBundle \<Rightarrow> Ingress set \<Rightarrow> cluster \<Rightarrow> bool" where
  "strays ab W s \<longleftrightarrow> (\<forall>ns n x. s (KIngress, ns, n) = Some x \<longrightarrow> key_of x = (KIngress, ns, n)) \<and>
     (\<forall>ing. ObjIngress ing \<in> listed s KIngress (Some (ab_Namespace ab)) [(AppBundleSelector, ab_Name ab)] \<longrightarrow>
        om_Name (ing_ObjectMeta ing) \<in> set (ingress_names ab) \<or> ing \<in> W)"

definition routes_done :: "ext \<Rightarrow> AppBundle \<Rightarrow> string list \<Rightarrow> cluster \<Rightarrow> bool" where
  "routes_done E ab ys s \<longleftrightarrow> strays ab {} s \<and>
     (\<forall>key\<in>set ys. rt_Ingress (route_at ab key) \<noteq> None \<longrightarrow> route_in_sync s E ab key)"

lemma listed_same: "same_on F s s' \<Longrightarrow> kd \<in> F \<Longrightarrow> listed s' kd nso sel = listed s kd nso sel"
  by (simp add: listed_def same_onD)

lemma stable_strays: "stable_on {KIngress} (strays ab W)"
  by (auto simp: stable_on_def strays_def listed_same [of "{KIngress}"] same_onD [of "{KIngress}"])

lemma stable_routes: "stable_on {KIngress} (routes_done E ab ys)"
  using stable_strays
  by (auto simp: stable_on_def routes_done_def route_in_sync_def held_same [of "{KIngress}"])

lemma strays_mono: "strays ab W s \<Longrightarrow> (\<And>ing. ing \<in> W \<Longrightarrow> om_Name (ing_ObjectMeta ing) \<in> set (ingress_names ab) \<or> ing \<in> V) \<Longrightarrow> strays ab V s"
  unfolding strays_def by blast

lemma strays_delete:
  assumes "strays ab W s"
  shows "strays ab (W - {ing}) (s(key_of (ObjIngress ing) := None))"
  unfolding strays_def
proof (intro conjI allI impI)
  let ?s = "s(key_of (ObjIngress ing) := None)" and ?sel = "[(AppBundleSelector, ab_Name ab)]"
  have keyed: "key_of x = (KIngress, ns, n)" if "s (KIngress, ns, n) = Some x" for ns n x
    using that assms by (simp add: strays_def)
  then show "key_of x = (KIngress, ns, n)" if "?s (KIngress, ns, n) = Some x" for ns n x
    using that by (auto split: if_splits)
  fix i
  assume i: "ObjIngress i \<in> listed ?s KIngress (Some (ab_Namespace ab)) ?sel"
  then have "i \<noteq> ing" by (auto simp: listed_def split: if_splits dest: keyed)
  moreover have "ObjIngress i \<in> listed s KIngress (Some (ab_Namespace ab)) ?sel"
    using i by (auto simp: listed_def split: if_splits)
  ultimately show "om_Name (ing_ObjectMeta i) \<in> set (ingress_names ab) \<or> i \<in> W - {ing}"
    using assms by (auto simp: strays_def)
qed

lemma strays_put:
  assumes "strays ab W s" and "key_of (ObjIngress y) = k" and "om_Name (ing_ObjectMeta y) \<in> set (ingress_names ab)"
  shows "strays ab W (s(k \<mapsto> ObjIngress y))"
  using assms unfolding strays_def listed_def by (auto split: if_splits)

lemma ensures_delete_unexpected:
  assumes "strays ab0 W s" and "ingress_names ab = ingress_names ab0"
  shows "ensures R {KIngress} I (succeeds (strays ab0 (W - {ing}))) (delete_unexpected (ingress_names ab) ing) s"
proof (cases "om_Name (ing_ObjectMeta ing) \<in> set (ingress_names ab0)")
  case True
  then have "strays ab0 (W - {ing}) s" by (intro strays_mono [OF assms(1)]) auto
  with True show ?thesis
    by (auto simp: delete_unexpected_def assms(2) dest: stable_onD [OF stable_strays])
next
  case False
  have "strays ab0 (W - {ing}) s2"
    if "same_on {KIngress} s s1" "same_on {KIngress} (s1(key_of (ObjIngress ing) := None)) s2" for s1 s2
    by (rule stable_onD [OF stable_strays that(2) strays_delete])
      (rule stable_onD [OF stable_strays that(1) assms(1)])
  with False show ?thesis
    by (auto simp: delete_unexpected_def assms(2) intro!: ensures_Delete)
qed

lemma ensures_cleanup:
  assumes "strays ab0 (set items) s" and "ingress_names ab = ingress_names ab0"
  shows "ensures R {KIngress} I (succeeds (strays ab0 {})) (forP items (delete_unexpected (ingress_names ab))) s"
proof (rule ensures_mono)
  show "ensures R {KIngress} I (succeeds (strays ab0 (set items - set items)))
      (forP items (delete_unexpected (ingress_names ab))) s"
  proof (rule ensures_forP [where J = "\<lambda>ys. strays ab0 (set items - set ys)"])
    fix ys x zs s1
    assume "strays ab0 (set items - set ys) s1"
    from ensures_delete_unexpected [OF this assms(2), of R I x]
    have "ensures R {KIngress} I (succeeds (strays ab0 (set items - set ys - {x}))) (delete_unexpected (ingress_names ab) x) s1" .
    moreover have "set items - set ys - {x} = set items - set (ys @ [x])" by auto
    ultimately show "ensures R {KIngress} I (succeeds (strays ab0 (set items - set (ys @ [x]))))
        (delete_unexpected (ingress_names ab) x) s1" by simp
  qed (use assms(1) stable_strays in simp_all)
qed simp

text \<open>One route; the others keep their ingresses, which have other names.\<close>

lemma ingress_name_inj: "ingress_name ab k = ingress_name ab k' \<longleftrightarrow> k = k'"
  by (simp add: ingress_name_def)

lemma ingress_spec_rules: "ingress_spec ab name r = Inr spec \<Longrightarrow> is_Rules spec \<noteq> []"
  by (auto simp: ingress_spec_def rbind_Inr_iff)

lemma routes_done_upd:
  assumes "routes_done E ab ys s" and "strays ab {} (s(k := v))" and "k = (KIngress, ab_Namespace ab, ingress_name ab key)"
    and "route_in_sync (s(k := v)) E ab key"
  shows "routes_done E ab (ys @ [key]) (s(k := v))"
  using assms by (auto simp: routes_done_def route_in_sync_def held_def ingress_name_inj split: if_splits)

lemma ensures_route:
  assumes "compares E" and "settled ab0 m0" and "routes_done E ab0 ys s"
    and "key \<in> set (getSortedKeys (sp_Routes (ab_Spec ab0)))"
  shows "ensures (stores E) {KIngress} (settled ab0) (succeeds (routes_done E ab0 (ys @ [key])))
    (reconcile_route E (m_bundle m0) key) s"
proof -
  let ?ab = "m_bundle m0" and ?k = "(KIngress, ab_Namespace ab0, ingress_name ab0 key)" and ?r = "route_at ab0 key"
  let ?done = "routes_done E ab0 (ys @ [key])"
  note ag = settledD [OF assms(2)]
  have at: "route_at ?ab key = ?r" and name: "ingress_name ?ab key = ingress_name ab0 key"
    by (simp_all add: route_at_def ingress_name_def agrees_spec [OF ag] agrees_meta [OF ag])
  have expected: "ingress_spec ab0 (ingress_name ab0 key) ?r = Inr (ing_Spec ing)" "\<exists>auth. wants_auth ?r = Inr auth"
    "key_of (ObjIngress ing) = ?k" "is_Rules (ing_Spec ing) \<noteq> []"
    if "settled ab0 m" "fst (CreateExpectedIngress (ingress_name ab0 key) ?r (m_bundle m)) = Inr ing" for m ing
  proof -
    have "\<exists>ab'. CreateExpectedIngress (ingress_name ab0 key) ?r (m_bundle m) = (Inr ing, ab')"
      using that(2) by (cases "CreateExpectedIngress (ingress_name ab0 key) ?r (m_bundle m)") auto
    then obtain ab' where ing: "CreateExpectedIngress (ingress_name ab0 key) ?r (m_bundle m) = (Inr ing, ab')" ..
    note facts = CreateExpectedIngress_Inr [OF ing]
    show spec: "ingress_spec ab0 (ingress_name ab0 key) ?r = Inr (ing_Spec ing)"
      using facts(1) by (simp add: ingress_spec_agrees [OF settledD [OF that(1)]])
    show "\<exists>auth. wants_auth ?r = Inr auth" using ing by (rule CreateExpectedIngress_bundle) blast
    show "key_of (ObjIngress ing) = ?k"
      by (simp add: key_of_def facts(2,3) agrees_meta [OF settledD [OF that(1)]])
    show "is_Rules (ing_Spec ing) \<noteq> []" using spec by (rule ingress_spec_rules)
  qed
  have same: "routes_done E ab0 ys s1" if "same_on {KIngress} s s1" for s1
    using stable_onD [OF stable_routes that assms(3)] .
  have upsert: "ensures (stores E) {KIngress} (settled ab0) (succeeds ?done) (UpsertResource (ObjIngress ing) reason er nd) s1"
    if m: "settled ab0 m" "fst (CreateExpectedIngress (ingress_name ab0 key) ?r (m_bundle m)) = Inr ing"
      and some: "rt_Ingress ?r \<noteq> None" and s1: "same_on {KIngress} s s1" for m ing reason er nd s1
  proof (rule ensures_UpsertResource)
    fix s2 z
    assume s2: "same_on {KIngress} s1 s2" and "stores E (ObjIngress ing) z"
    then obtain y where z: "z = ObjIngress y" and kept: "fills E (AnyIngressSpec (ing_Spec ing)) (AnyIngressSpec (ing_Spec y))"
      and ky: "key_of z = ?k" using expected(3) [OF m] by (auto elim: stores_Ingress)
    have "held (s2(?k \<mapsto> z)) KIngress proj_Ingress (ab_Namespace ab0) (ingress_name ab0 key) = Some y"
      by (simp add: held_def z)
    then have sync: "route_in_sync (s2(?k \<mapsto> z)) E ab0 key"
      using expected(1,2) [OF m] fillsD [OF kept compares_refl [OF assms(1)]] by (auto simp: route_in_sync_def)
    have "ingress_name ab0 key \<in> set (ingress_names ab0)"
      using assms(4) some by (simp add: ingress_names_def ingress_keys_def)
    with ky z have "strays ab0 {} (s2(?k \<mapsto> z))"
      using same [OF same_on_trans [OF s1 s2]]
      by (auto simp: routes_done_def key_of_def intro!: strays_put)
    with sync show "?done (s2(key_of (ObjIngress ing) \<mapsto> z))"
      unfolding expected(3) [OF m] by (intro routes_done_upd [OF same [OF same_on_trans [OF s1 s2]]] refl)
  qed (simp_all add: stable_routes)
  have unchanged: "?done s1"
    if m: "settled ab0 m" "fst (CreateExpectedIngress (ingress_name ab0 key) ?r (m_bundle m)) = Inr ing"
      and s1: "same_on {KIngress} s s1" and cur: "s1 ?k = Some (ObjIngress cur)"
      and eq: "ext_DeepDerivative E (AnyIngressSpec (ing_Spec ing)) (AnyIngressSpec (ing_Spec cur))" for m ing s1 cur
  proof -
    have "held s1 KIngress proj_Ingress (ab_Namespace ab0) (ingress_name ab0 key) = Some cur"
      using cur by (simp add: ingresses.held_iff)
    then have "route_in_sync s1 E ab0 key"
      using expected(1,2) [OF m] eq by (auto simp: route_in_sync_def)
    with same [OF s1] show ?thesis by (auto simp: routes_done_def)
  qed
  have blank: "\<not> ext_DeepDerivative E (AnyIngressSpec (ing_Spec ing)) (AnyIngressSpec zero_ingress_spec)"
    if "settled ab0 m" "fst (CreateExpectedIngress (ingress_name ab0 key) ?r (m_bundle m)) = Inr ing" for m ing
    using expected(4) [OF that] assms(1) by (auto simp: compares_def)
  show ?thesis
  proof (cases "rt_Ingress ?r = None")
    case True
    have "?done s" using assms(3) True by (auto simp: routes_done_def)
    with True show ?thesis
      by (simp add: reconcile_route_def at Let_def) (metis stable_onD [OF stable_routes])
  next
    case False
    then show ?thesis
      unfolding reconcile_route_def at name Let_def agrees_meta [OF ag]
      by (simp only: if_False) (intro ensures_UpdateBundle settled_ingress ensures_case_sum, assumption,
        rule ingresses.ensures_GetInto; intro ensures_intros ensures_nothing stable_routes;
        auto intro: upsert unchanged dest: blank)
  qed
qed

lemma stable_ingress: "stable_on {KIngress} (\<lambda>s. ingress_in_sync s E ab)"
  by (auto simp: stable_on_def ingress_in_sync_def route_in_sync_def listed_same [of "{KIngress}"]
      held_same [of "{KIngress}"])

lemma ingress_sync_iff:
  "routes_done E ab (getSortedKeys (sp_Routes (ab_Spec ab))) s \<Longrightarrow> ingress_in_sync s E ab"
  by (auto simp: routes_done_def strays_def ingress_in_sync_def ingress_keys_def)

lemma strays_listed:
  assumes "keyed s" and "set objs = listed s KIngress (Some (ab_Namespace ab)) [(AppBundleSelector, ab_Name ab)]"
  shows "strays ab (set (items_of proj_Ingress objs)) s"
proof -
  have "ing \<in> set (items_of proj_Ingress objs)" if "ObjIngress ing \<in> set objs" for ing
    using that by (force simp: items_of_def map_filter_def)
  with assms show ?thesis by (auto simp: strays_def dest: keyedD)
qed

lemma ensures_routes:
  assumes "compares E" and "settled ab0 m0" and "strays ab0 {} s"
  shows "ensures (stores E) {KIngress} (settled ab0) (succeeds (\<lambda>s. ingress_in_sync s E ab0))
    (if ingress_names ab0 = [] then Done None
     else forP (getSortedKeys (sp_Routes (ab_Spec ab0))) (reconcile_route E (m_bundle m0))) s"
proof (rule ensures_if)
  show "ensures (stores E) {KIngress} (settled ab0) (succeeds (\<lambda>s. ingress_in_sync s E ab0))
      (forP (getSortedKeys (sp_Routes (ab_Spec ab0))) (reconcile_route E (m_bundle m0))) s"
  proof (rule ensures_mono)
    show "ensures (stores E) {KIngress} (settled ab0) (succeeds (routes_done E ab0 (getSortedKeys (sp_Routes (ab_Spec ab0)))))
        (forP (getSortedKeys (sp_Routes (ab_Spec ab0))) (reconcile_route E (m_bundle m0))) s"
      by (rule ensures_forP [where J = "routes_done E ab0"])
        (use assms(3) in \<open>auto simp: stable_routes routes_done_def [of E ab0 "[]"] simp del: set_getSortedKeys
          intro: ensures_route [OF assms(1,2)]\<close>)
  qed (auto intro: ingress_sync_iff)
next
  assume "ingress_names ab0 = []"
  then have "ingress_in_sync s E ab0"
    using assms(3) by (simp add: ingress_in_sync_def strays_def ingress_names_def)
  then show "ensures (stores E) {KIngress} (settled ab0) (succeeds (\<lambda>s. ingress_in_sync s E ab0)) (Done None) s"
    by (rule ensures_nothing [OF stable_ingress])
qed

lemma ensures_ingress:
  assumes "compares E"
  shows "ensures (stores E) {KIngress} (settled ab0) (succeeds (\<lambda>s. ingress_in_sync s E ab0)) (ReconcileIngress E) s"
  unfolding ReconcileIngress_def Let_def
proof (intro ensures_ReadBundle, subst ensures_with_mutex, rule ensures_ListObjs, rule ensures_case_sum)
  fix m s1 objs and r :: "goerr + kobj list"
  assume m: "settled ab0 m" and s1: "keyed s1"
    and objs: "\<And>xs. r = Inr xs \<Longrightarrow> set xs = listed s1 KIngress (Some (ab_Namespace (m_bundle m))) [(AppBundleSelector, ab_Name (m_bundle m))]"
    and r: "r = Inr objs"
  let ?items = "items_of proj_Ingress objs"
  note ag = agrees_meta [OF settledD [OF m]] agrees_ingress_names [OF settledD [OF m]] agrees_spec [OF settledD [OF m]]
  have str: "strays ab0 (set ?items) s1" by (rule strays_listed [OF s1]) (simp add: objs [OF r] ag)
  have "ingress_in_sync s1 E ab0" if "sp_Routes (ab_Spec ab0) = None" "?items = []"
    using str that by (simp add: strays_def ingress_in_sync_def ingress_names_def ingress_keys_def)
  then show "ensures (stores E) {KIngress} (settled ab0) (succeeds (\<lambda>s. ingress_in_sync s E ab0))
     (if sp_Routes (ab_Spec (m_bundle m)) = None \<and> ?items = [] then Done None
      else thenP (forP ?items (delete_unexpected (ingress_names (m_bundle m))))
         (if ingress_names (m_bundle m) = [] then Done None
          else forP (getSortedKeys (sp_Routes (ab_Spec (m_bundle m)))) (reconcile_route E (m_bundle m)))) s1"
    using ensures_thenP [OF ensures_cleanup [OF str ag(6)] ensures_routes [OF assms m]]
    by (auto simp: ag dest: stable_onD [OF stable_ingress])
qed

end
