(* ===== verification/VolumesConvergence.thy ===== *)
theory VolumesConvergence
  imports Convergence
begin

section \<open>The claims and the backup job after a reconciliation that reports success\<close>

text \<open>
  The goroutine of the volumes reconciles the claims one after the other and then the recurring
  job. It writes claims and jobs, and reads Longhorn volumes. The loop keeps the claims that are done, which
  needs that no two volumes of the bundle have the same claim (\<open>claims_apart\<close>).
\<close>

definition claims_apart :: "AppBundle \<Rightarrow> bool" where
  "claims_apart ab \<longleftrightarrow> inj_on (claim_name ab) (set (getSortedKeys (sp_Volumes (ab_Spec ab))))"

abbreviation "volume_kinds \<equiv> {KPVC, KRecurringJob, KLonghornVolume}"

definition claims_done :: "ext \<Rightarrow> AppBundle \<Rightarrow> string list \<Rightarrow> cluster \<Rightarrow> bool" where
  "claims_done E ab ys s \<longleftrightarrow> (\<forall>key\<in>set ys. claim_in_sync s E ab key)"

lemma stable_mono: "stable_on F P \<Longrightarrow> F \<subseteq> G \<Longrightarrow> stable_on G P"
  unfolding stable_on_def using same_on_mono by blast

text \<open>A claim is in sync by what is held under its name.\<close>

definition claim_ok :: "ext \<Rightarrow> AppBundle \<Rightarrow> string \<Rightarrow> PersistentVolumeClaim \<Rightarrow> bool" where
  "claim_ok E ab key cur \<longleftrightarrow> (let volume = volume_at ab key in
     if av_ExistingClaim volume \<noteq> None
     then StringMapsMatch (om_Labels (pvc_ObjectMeta cur))
       (Some (range_loop mput (entries (om_Labels (pvc_ObjectMeta cur))) (GetPVCLabels ab volume)))
     else case CreateExpectedPVC E ab volume (claim_name ab key) of
         Inr pvc \<Rightarrow> ext_DeepDerivative E (AnyPVCSpec (pvc_Spec pvc)) (AnyPVCSpec (pvc_Spec cur)) \<and>
           StringMapsMatch (om_Labels (pvc_ObjectMeta pvc)) (om_Labels (pvc_ObjectMeta cur))
       | Inl e \<Rightarrow> False)"

lemma claim_in_sync_iff:
  "claim_in_sync s E ab key \<longleftrightarrow>
     av_ExistingClaim (volume_at ab key) = None \<and>
       (av_HostPath (volume_at ab key) \<noteq> None \<or> av_EmptyDir (volume_at ab key) = Some True) \<or>
     (\<exists>cur. s (KPVC, ab_Namespace ab, claim_name ab key) = Some (ObjPVC cur) \<and> claim_ok E ab key cur)"
  by (cases "av_ExistingClaim (volume_at ab key)")
    (auto simp: claim_in_sync_def claim_ok_def claim_name_def Let_def pvcs.held_iff [symmetric] split: option.splits sum.splits)

lemma stable_claims: "stable_on {KPVC} (claims_done E ab ys)"
  unfolding stable_on_def claims_done_def claim_in_sync_iff
  by (simp add: same_onD [of "{KPVC}"] cong: conj_cong)

lemma claims_put:
  assumes "claims_apart ab" and "getSortedKeys (sp_Volumes (ab_Spec ab)) = ys @ key # zs"
    and "claims_done E ab ys s" and "claim_ok E ab key cur"
  shows "claims_done E ab (ys @ [key]) (s((KPVC, ab_Namespace ab, claim_name ab key) \<mapsto> ObjPVC cur))"
proof -
  have "claim_name ab k \<noteq> claim_name ab key" if "k \<in> set ys" "k \<noteq> key" for k
    using that inj_onD [OF assms(1) [unfolded claims_apart_def], of k key] by (auto simp: assms(2) simp del: set_getSortedKeys)
  with assms(3,4) show ?thesis unfolding claims_done_def claim_in_sync_iff by auto
qed

subsection \<open>One claim\<close>

lemma stores_PVC:
  assumes "stores E (ObjPVC x) z"
  obtains y where "z = ObjPVC y" and "om_Labels (pvc_ObjectMeta y) = om_Labels (pvc_ObjectMeta x)"
    and "fills E (AnyPVCSpec (pvc_Spec x)) (AnyPVCSpec (pvc_Spec y))"
  using assms by (auto simp: stores_def spec_kept_def dest: pvcs.proj_Some split: option.splits)

lemma stores_RecurringJob:
  assumes "stores E (ObjRecurringJob x) z"
  obtains y where "z = ObjRecurringJob y"
    and "ext_HashRecurringJobSpec E (job_Spec y) = ext_HashRecurringJobSpec E (job_Spec x)"
  using assms by (auto simp: stores_def spec_kept_def dest: recurring_jobs.proj_Some split: option.splits)

text \<open>Merging the labels a second time changes nothing.\<close>

lemma copy_loop_keeps: "map_of (range_loop mput es m) k = None \<Longrightarrow> map_of m k = None"
proof (induction es arbitrary: m)
  case (Cons e es)
  from Cons.IH [of "mput (fst e) (snd e) m"] Cons.prems show ?case
    by (cases e) (auto split: if_splits)
qed simp

lemma merge_idem:
  assumes "wf_map g" and "l = range_loop mput es g"
  shows "StringMapsMatch (Some l) (Some (range_loop mput l g))"
proof -
  have wf: "wf_map l" using assms by (simp add: wf_copy_loop)
  moreover have "wf_map (range_loop mput l g)" using assms(1) by (simp add: wf_copy_loop)
  moreover have "map_of l k = map_of (range_loop mput l g) k" for k
    using copy_loop_keeps [of es g k] wf
    by (auto simp: copy_loop_lookup map_add_def assms(2) split: option.split)
  ultimately show ?thesis by (simp add: StringMapsMatch_iff)
qed

lemma labels_missing: "\<not> StringMapsMatch None (Some (GetPVCLabels ab volume))"
  using PVCLabels_selector [of ab volume] by (cases "GetPVCLabels ab volume") (auto simp: StringMapsMatch_def)

lemma upsert_claim:
  assumes "claims_apart ab" and "getSortedKeys (sp_Volumes (ab_Spec ab)) = ys @ key # zs"
    and "claims_done E ab ys s" and "key_of (ObjPVC pvc) = (KPVC, ab_Namespace ab, claim_name ab key)"
    and "\<And>y. stores E (ObjPVC pvc) (ObjPVC y) \<Longrightarrow> claim_ok E ab key y"
  shows "ensures (stores E) volume_kinds I (succeeds (claims_done E ab (ys @ [key])))
    (UpsertResource (ObjPVC pvc) reason er nd) s"
proof (rule ensures_UpsertResource)
  fix s1 z
  assume s1: "same_on volume_kinds s s1" and z: "stores E (ObjPVC pvc) z"
  from z obtain y where y: "z = ObjPVC y" by (rule stores_PVC)
  have "claims_done E ab ys s1"
    using stable_onD [OF stable_mono [OF stable_claims] s1 assms(3)] by simp
  then show "claims_done E ab (ys @ [key]) (s1(key_of (ObjPVC pvc) \<mapsto> z))"
    unfolding assms(4) y using assms(5) z y by (intro claims_put [OF assms(1,2)]) simp_all
qed (simp_all add: stable_mono [OF stable_claims])

lemma ensures_existing_claim:
  assumes "claims_apart ab" and "getSortedKeys (sp_Volumes (ab_Spec ab)) = ys @ key # zs" and "claims_done E ab ys s"
    and "av_ExistingClaim (volume_at ab key) = Some claim"
  shows "ensures (stores E) volume_kinds I (succeeds (claims_done E ab (ys @ [key])))
    (ReconcileExistingPVC E ab (volume_at ab key)) s"
proof -
  have name: "claim_name ab key = claim" by (simp add: claim_name_def assms(4))
  have before: "claims_done E ab ys s1" if "same_on volume_kinds s s1" for s1
    using stable_onD [OF stable_mono [OF stable_claims] that assms(3)] by simp
  have ok: "claim_ok E ab key y"
    if "stores E (ObjPVC (set_labels (range_loop mput es (GetPVCLabels ab (volume_at ab key))) cur)) (ObjPVC y)" for es cur y
    using that by (auto simp: claim_ok_def assms(4) Let_def elim!: stores_PVC intro: merge_idem [OF wf_GetPVCLabels refl])
  have unchanged: "claims_done E ab (ys @ [key]) s1"
    if "same_on volume_kinds s s1" "s1 (KPVC, ab_Namespace ab, claim) = Some (ObjPVC cur)"
      "StringMapsMatch (om_Labels (pvc_ObjectMeta cur))
        (Some (range_loop mput (entries (om_Labels (pvc_ObjectMeta cur))) (GetPVCLabels ab (volume_at ab key))))" for s1 cur
    using before [OF that(1)] that(2,3) by (auto simp: claims_done_def claim_in_sync_iff name claim_ok_def assms(4))
  show ?thesis
    unfolding ReconcileExistingPVC_def assms(4) deref_simps sum.case Let_def
    by (rule pvcs.ensures_GetInto; intro ensures_intros ensures_nothing stable_mono [OF stable_claims]
        upsert_claim [OF assms(1,2) before])
      (auto simp: key_of_def name labels_missing intro: unchanged ok ok [where es = "[]", simplified] dest: keyedD)
qed

lemma ensures_own_claim:
  assumes "compares E" and "claims_apart ab" and "getSortedKeys (sp_Volumes (ab_Spec ab)) = ys @ key # zs"
    and "claims_done E ab ys s" and "av_ExistingClaim (volume_at ab key) = None"
  shows "ensures (stores E) volume_kinds I (succeeds (claims_done E ab (ys @ [key])))
    (ReconcilePVC E ab (volume_at ab key) (claim_name ab key)) s"
proof -
  let ?name = "claim_name ab key"
  have before: "claims_done E ab ys s1" if "same_on volume_kinds s s1" for s1
    using stable_onD [OF stable_mono [OF stable_claims] that assms(4)] by simp
  have okI: "claim_ok E ab key y"
    if "CreateExpectedPVC E ab (volume_at ab key) ?name = Inr pvc"
      "ext_DeepDerivative E (AnyPVCSpec (pvc_Spec pvc)) (AnyPVCSpec (pvc_Spec y))"
      "StringMapsMatch (Some (GetPVCLabels ab (volume_at ab key))) (om_Labels (pvc_ObjectMeta y))" for pvc y
    using that by (simp add: claim_ok_def assms(5) CreateExpectedPVC_Inr [OF that(1)])
  have same: "StringMapsMatch (Some (GetPVCLabels ab (volume_at ab key))) (Some (GetPVCLabels ab (volume_at ab key)))"
    by (simp add: StringMapsMatch_refl)
  have created: "claim_ok E ab key y"
    if "CreateExpectedPVC E ab (volume_at ab key) ?name = Inr pvc" "stores E (ObjPVC pvc) (ObjPVC y)" for pvc y
  proof -
    have "om_Labels (pvc_ObjectMeta y) = Some (GetPVCLabels ab (volume_at ab key))"
      "fills E (AnyPVCSpec (pvc_Spec pvc)) (AnyPVCSpec (pvc_Spec y))"
      using that(2) by (auto simp: CreateExpectedPVC_Inr [OF that(1)] elim: stores_PVC)
    with same fillsD [OF _ compares_refl [OF assms(1)]] show ?thesis by (intro okI [OF that(1)]) simp_all
  qed
  have labelled: "claim_ok E ab key y"
    if "CreateExpectedPVC E ab (volume_at ab key) ?name = Inr pvc"
      "ext_DeepDerivative E (AnyPVCSpec (pvc_Spec pvc)) (AnyPVCSpec (pvc_Spec cur))"
      "stores E (ObjPVC (set_labels (entries (om_Labels (pvc_ObjectMeta pvc))) cur)) (ObjPVC y)" for pvc cur y
  proof -
    have "om_Labels (pvc_ObjectMeta y) = Some (GetPVCLabels ab (volume_at ab key))"
      "fills E (AnyPVCSpec (pvc_Spec cur)) (AnyPVCSpec (pvc_Spec y))"
      using that(3) by (auto simp: CreateExpectedPVC_Inr [OF that(1)] elim: stores_PVC)
    with same fillsD [OF _ that(2)] show ?thesis by (intro okI [OF that(1)]) simp_all
  qed
  have unchanged: "claims_done E ab (ys @ [key]) s1"
    if "same_on volume_kinds s s1" "s1 (KPVC, ab_Namespace ab, ?name) = Some (ObjPVC cur)" "claim_ok E ab key cur" for s1 cur
    using before [OF that(1)] that(2,3) by (auto simp: claims_done_def claim_in_sync_iff)
  have blank: "\<not> ext_DeepDerivative E (AnyPVCSpec (pvc_Spec pvc)) (AnyPVCSpec zero_pvc_spec)"
    if "CreateExpectedPVC E ab (volume_at ab key) ?name = Inr pvc" for pvc
    using that assms(1) by (auto simp: compares_def CreateExpectedPVC_def rbind_Inr_iff)
  show ?thesis
    unfolding ReconcilePVC_def
    by (rule pvcs.ensures_GetInto; intro ensures_intros ensures_nothing stable_mono [OF stable_claims]
        upsert_claim [OF assms(2,3) before])
      (auto simp: key_of_def CreateExpectedPVC_Inr intro: unchanged created labelled okI dest: keyedD blank)
qed

lemma ensures_volume:
  assumes "compares E" and "claims_apart ab" and "getSortedKeys (sp_Volumes (ab_Spec ab)) = ys @ key # zs"
    and "claims_done E ab ys s"
  shows "ensures (stores E) volume_kinds I (succeeds (claims_done E ab (ys @ [key]))) (reconcile_volume E ab key) s"
proof -
  have skip: "ensures (stores E) volume_kinds I (succeeds (claims_done E ab (ys @ [key]))) (Done None) s"
    if "claim_in_sync s E ab key"
    using assms(4) that by (intro ensures_nothing stable_mono [OF stable_claims]) (simp_all add: claims_done_def)
  show ?thesis
  proof (cases "av_ExistingClaim (volume_at ab key)")
    case None
    then have "claim_name ab key = ab_Name ab @ ''-'' @ key" by (simp add: claim_name_def)
    with ensures_own_claim [OF assms None] None skip show ?thesis
      by (auto simp: reconcile_volume_def Let_def claim_in_sync_iff)
  next
    case (Some claim)
    with ensures_existing_claim [OF assms(2-4) Some] show ?thesis by (simp add: reconcile_volume_def Let_def)
  qed
qed

lemma ensures_claims:
  assumes "compares E" and "claims_apart ab"
  shows "ensures (stores E) volume_kinds I (succeeds (claims_done E ab (getSortedKeys (sp_Volumes (ab_Spec ab)))))
    (forP (getSortedKeys (sp_Volumes (ab_Spec ab))) (reconcile_volume E ab)) s"
  by (rule ensures_forP [where J = "claims_done E ab"])
    (auto simp: stable_mono [OF stable_claims] claims_done_def [of E ab "[]"] intro: ensures_volume [OF assms])

subsection \<open>The backup job\<close>

lemma stable_owner: "stable_on {KPVC, KLonghornVolume} (\<lambda>s. owner_readable s ab keys)"
proof -
  have "owner_readable s' ab keys = owner_readable s ab keys" if "same_on {KPVC, KLonghornVolume} s s'" for s s'
    by (induction keys) (simp_all add: held_same [OF that] split: option.split)
  then show ?thesis by (simp add: stable_on_def)
qed

lemma ensures_backup_owner:
  assumes "\<And>job' s1. same_on volume_kinds s s1 \<Longrightarrow> job_Spec job' = job_Spec job \<Longrightarrow>
      key_of (ObjRecurringJob job') = key_of (ObjRecurringJob job) \<Longrightarrow> owner_readable s1 ab keys \<Longrightarrow>
      ensures R volume_kinds I Q (c (Inr job')) s1"
    and "\<And>e s1. ensures R volume_kinds I Q (c (Inl e)) s1"
  shows "ensures R volume_kinds I Q (backup_owner ab keys job c) s"
  using assms(1)
proof (induction keys arbitrary: s)
  case Nil
  then show ?case by simp
next
  case (Cons key keys)
  show ?case
  proof (cases "av_HostPath (volume_at ab key) \<noteq> None \<or> av_EmptyDir (volume_at ab key) \<noteq> None")
    case True
    with Cons.prems have "ensures R volume_kinds I Q (backup_owner ab keys job c) s" by (intro Cons.IH) simp
    with True show ?thesis by (auto simp: Let_def)
  next
    case False
    have rest: "ensures R volume_kinds I Q (backup_owner ab keys job c) s1"
      if "same_on volume_kinds s s1" "s1 (KPVC, ab_Namespace ab, claim_name ab key) = Some (ObjPVC pvc)" "pvc_Phase pvc \<noteq> ClaimBound"
      for s1 pvc
    proof (rule Cons.IH)
      fix job' s2
      assume s2: "same_on volume_kinds s1 s2" and job: "job_Spec job' = job_Spec job"
        "key_of (ObjRecurringJob job') = key_of (ObjRecurringJob job)" "owner_readable s2 ab keys"
      have "held s2 KPVC proj_PVC (ab_Namespace ab) (claim_name ab key) = Some pvc"
        using that(2) same_onD [OF s2, of KPVC] by (simp add: pvcs.held_iff)
      with False that(3) job show "ensures R volume_kinds I Q (c (Inr job')) s2"
        by (intro Cons.prems same_on_trans [OF that(1) s2]) simp_all
    qed
    have found: "ensures R volume_kinds I Q (c (Inr (job\<lparr>job_ObjectMeta := (job_ObjectMeta job)\<lparr>om_OwnerReferences := os\<rparr>\<rparr>))) s2"
      if "same_on volume_kinds s s1" "s1 (KPVC, ab_Namespace ab, claim_name ab key) = Some (ObjPVC pvc)" "pvc_Phase pvc = ClaimBound"
        "same_on volume_kinds s1 s2" "s2 (KLonghornVolume, longhorn_ns, vc_VolumeName (pvc_Spec pvc)) = Some (ObjLonghornVolume vol)"
      for s1 s2 pvc vol os
    proof (rule Cons.prems [OF same_on_trans [OF that(1,4)]])
      have "held s2 KPVC proj_PVC (ab_Namespace ab) (claim_name ab key) = Some pvc"
        using that(2) same_onD [OF that(4), of KPVC] by (simp add: pvcs.held_iff)
      moreover have "held s2 KLonghornVolume proj_LonghornVolume longhorn_ns (vc_VolumeName (pvc_Spec pvc)) = Some vol"
        using that(5) by (simp add: longhorn_volumes.held_iff)
      ultimately show "owner_readable s2 ab (key # keys)" using False that(3) by simp
    qed (simp_all add: key_of_def)
    from False show ?thesis
      by (auto simp: Let_def claim_name_def [symmetric] assms(2)
          intro!: ensures_if pvcs.ensures_GetInto longhorn_volumes.ensures_GetInto) (rule found rest; assumption)+
  qed
qed

lemma stable_backup: "stable_on volume_kinds (\<lambda>s. backup_in_sync s E ab)"
  using stable_mono [OF stable_owner, of volume_kinds]
  by (auto simp: stable_on_def backup_in_sync_def held_same [of volume_kinds] split: option.splits)

lemma stable_volumes: "stable_on volume_kinds (\<lambda>s. volumes_in_sync s E ab)"
proof -
  have "volumes_in_sync s E ab \<longleftrightarrow> claims_done E ab (getSortedKeys (sp_Volumes (ab_Spec ab))) s \<and> backup_in_sync s E ab" for s
    by (simp add: volumes_in_sync_def claims_done_def)
  with stable_conj [OF stable_mono [OF stable_claims, of volume_kinds] stable_backup] show ?thesis by simp
qed

lemma backupI:
  assumes "sp_Backup (ab_Spec ab) = Some backup" and "backup_job_spec ab backup = Inr spec"
    and "ext_HashRecurringJobSpec E spec = Inr h" and "ext_HashRecurringJobSpec E (job_Spec cur) = Inr h"
    and "s (KRecurringJob, longhorn_ns, reccuringJobName ab) = Some (ObjRecurringJob cur)"
    and "owner_readable s ab (getSortedKeys (sp_Volumes (ab_Spec ab)))"
  shows "backup_in_sync s E ab"
proof -
  have "held s KRecurringJob proj_RecurringJob longhorn_ns (reccuringJobName ab) = Some cur"
    using assms(5) by (simp add: recurring_jobs.held_iff)
  with assms show ?thesis by (simp add: backup_in_sync_def)
qed

abbreviation job_key :: "AppBundle \<Rightarrow> object_key" where
  "job_key ab \<equiv> (KRecurringJob, longhorn_ns, reccuringJobName ab)"

lemma volumesI:
  "claims_done E ab (getSortedKeys (sp_Volumes (ab_Spec ab))) s \<Longrightarrow> backup_in_sync s E ab \<Longrightarrow> volumes_in_sync s E ab"
  unfolding volumes_in_sync_def claims_done_def by (rule conjI)

lemma upsert_job:
  assumes "claims_done E ab (getSortedKeys (sp_Volumes (ab_Spec ab))) s" and "sp_Backup (ab_Spec ab) = Some backup"
    and "backup_job_spec ab backup = Inr spec" and "ext_HashRecurringJobSpec E spec = Inr h" and "job_Spec job = spec"
    and "key_of (ObjRecurringJob job) = job_key ab" and "owner_readable s ab (getSortedKeys (sp_Volumes (ab_Spec ab)))"
  shows "ensures (stores E) volume_kinds I (succeeds (\<lambda>s. volumes_in_sync s E ab))
    (UpsertResource (ObjRecurringJob job) reason er nd) s"
proof (rule ensures_UpsertResource)
  fix s1 z
  let ?keys = "getSortedKeys (sp_Volumes (ab_Spec ab))"
  assume s1: "same_on volume_kinds s s1" and "stores E (ObjRecurringJob job) z"
  then obtain y where z: "z = ObjRecurringJob y" and h: "ext_HashRecurringJobSpec E (job_Spec y) = Inr h"
    using assms(4,5) by (auto elim: stores_RecurringJob)
  have upd: "same_on F s1 (s1(job_key ab \<mapsto> z))" if "KRecurringJob \<notin> F" for F
    by (rule same_on_upd) (simp add: that)
  have "claims_done E ab ?keys (s1(job_key ab \<mapsto> z))"
    by (rule stable_onD [OF stable_claims upd stable_onD [OF stable_mono [OF stable_claims] s1 assms(1)]]) simp_all
  moreover have "owner_readable (s1(job_key ab \<mapsto> z)) ab ?keys"
    by (rule stable_onD [OF stable_owner upd stable_onD [OF stable_mono [OF stable_owner] s1 assms(7)]]) simp_all
  then have "backup_in_sync (s1(job_key ab \<mapsto> z)) E ab" by (intro backupI [OF assms(2-4) h]) (simp_all add: z)
  ultimately show "volumes_in_sync (s1(key_of (ObjRecurringJob job) \<mapsto> z)) E ab"
    unfolding assms(6) by (rule volumesI)
qed (simp_all add: stable_volumes)

text \<open>After the job has been read, or found missing.\<close>

lemma ensures_job:
  assumes "compares E" and "claims_done E ab (getSortedKeys (sp_Volumes (ab_Spec ab))) s"
    and "sp_Backup (ab_Spec ab) = Some backup" and "key_of (ObjRecurringJob job) = job_key ab"
    and "s (job_key ab) = Some (ObjRecurringJob job) \<or> job_Spec job = zero_recurring_job_spec"
  shows "ensures (stores E) volume_kinds I (succeeds (\<lambda>s. volumes_in_sync s E ab))
    (with_result (ext_HashRecurringJobSpec E (job_Spec job)) (\<lambda>before. with_result (backup_job_spec ab backup) (\<lambda>spec.
      backup_owner ab (getSortedKeys (sp_Volumes (ab_Spec ab))) (job\<lparr>job_Spec := spec\<rparr>) (\<lambda>r. with_result r (\<lambda>job.
        with_result (ext_HashRecurringJobSpec E (job_Spec job)) (\<lambda>after.
          if before = after then Done None else UpsertResource (ObjRecurringJob job) [] er False)))))) s"
  unfolding with_result_def
proof (intro ensures_case_sum ensures_backup_owner)
  fix before spec job' s1 job2 "after"
  let ?keys = "getSortedKeys (sp_Volumes (ab_Spec ab))"
  assume h0: "ext_HashRecurringJobSpec E (job_Spec job) = Inr before" and spec: "backup_job_spec ab backup = Inr spec"
    and s1: "same_on volume_kinds s s1" and job': "job_Spec job' = job_Spec (job\<lparr>job_Spec := spec\<rparr>)"
    "key_of (ObjRecurringJob job') = key_of (ObjRecurringJob (job\<lparr>job_Spec := spec\<rparr>))"
    and own: "owner_readable s1 ab ?keys" and "Inr job' = (Inr job2 :: goerr + RecurringJob)"
    and h: "ext_HashRecurringJobSpec E (job_Spec job2) = Inr after"
  show "ensures (stores E) volume_kinds I (succeeds (\<lambda>s. volumes_in_sync s E ab))
      (if before = after then Done None else UpsertResource (ObjRecurringJob job2) [] er False) s1"
  proof (rule ensures_if)
    have "job_Spec job2 = spec" "key_of (ObjRecurringJob job2) = job_key ab" "ext_HashRecurringJobSpec E spec = Inr after"
      using job' \<open>Inr job' = _\<close> assms(4) h by (simp_all add: key_of_def)
    note job2 = this
    have done1: "claims_done E ab ?keys s1"
      using stable_onD [OF stable_mono [OF stable_claims] s1 assms(2)] by simp
    show "ensures (stores E) volume_kinds I (succeeds (\<lambda>s. volumes_in_sync s E ab))
        (UpsertResource (ObjRecurringJob job2) [] er False) s1"
      by (rule upsert_job [OF done1 assms(3) spec job2(3) job2(1,2) own])
    assume eq: "before = after"
    have "rj_Task spec \<noteq> []"
      using spec by (auto simp: backup_job_spec_def rbind_Inr_iff)
    then have "job_Spec job \<noteq> zero_recurring_job_spec"
      using assms(1) h0 job2(3) eq unfolding compares_def by metis
    with assms(5) have "s1 (job_key ab) = Some (ObjRecurringJob job)" using same_onD [OF s1, of KRecurringJob] by simp
    then have "backup_in_sync s1 E ab" using h0 eq by (intro backupI [OF assms(3) spec job2(3) _ _ own]) simp_all
    with done1 show "ensures (stores E) volume_kinds I (succeeds (\<lambda>s. volumes_in_sync s E ab)) (Done None) s1"
      by (intro ensures_nothing [OF stable_volumes] volumesI)
  qed
qed simp

lemma ensures_backup:
  assumes "compares E" and "claims_done E ab (getSortedKeys (sp_Volumes (ab_Spec ab))) s"
  shows "ensures (stores E) volume_kinds I (succeeds (\<lambda>s. volumes_in_sync s E ab)) (ReconcileRecurringBackupJob E ab) s"
proof (cases "sp_Backup (ab_Spec ab) = None \<or> entries (sp_Volumes (ab_Spec ab)) = []")
  case True
  then have "backup_in_sync s E ab" by (auto simp: backup_in_sync_def split: option.split)
  with assms(2) have "volumes_in_sync s E ab" by (rule volumesI)
  from ensures_nothing [OF stable_volumes this] True show ?thesis
    by (auto simp: ReconcileRecurringBackupJob_def split: option.split)
next
  case False
  then obtain backup where b: "sp_Backup (ab_Spec ab) = Some backup" by auto
  have claims: "claims_done E ab (getSortedKeys (sp_Volumes (ab_Spec ab))) s1" if "same_on volume_kinds s s1" for s1
    using stable_onD [OF stable_mono [OF stable_claims] that assms(2)] by simp
  from False show ?thesis
    unfolding ReconcileRecurringBackupJob_def b
    by (auto intro!: recurring_jobs.ensures_GetInto ensures_if ensures_job [OF assms(1)] claims b
        simp: key_of_def dest: keyedD)
qed

lemma ensures_volumes:
  assumes "compares E" and "claims_apart ab0"
  shows "ensures (stores E) volume_kinds (settled ab0) (succeeds (\<lambda>s. volumes_in_sync s E ab0)) (ReconcileVolumes E) s"
  unfolding ReconcileVolumes_def
proof (intro ensures_ReadBundle, subst ensures_with_mutex, rule ensures_if)
  fix m
  assume m: "settled ab0 m"
  note ag = agrees_spec [OF settledD [OF m]] volumes_agree [OF settledD [OF m]]
  have none: "volumes_in_sync s1 E ab0"
    if "claims_done E ab0 (getSortedKeys (sp_Volumes (ab_Spec ab0))) s1"
      "sp_Volumes (ab_Spec ab0) = None \<or> sp_Backup (ab_Spec ab0) = None" for s1
    using that(2) by (intro volumesI [OF that(1)]) (auto simp: backup_in_sync_def split: option.split)
  show "ensures (stores E) volume_kinds (settled ab0) (succeeds (\<lambda>s. volumes_in_sync s E ab0))
      (thenP (forP (getSortedKeys (sp_Volumes (ab_Spec (m_bundle m)))) (reconcile_volume E (m_bundle m)))
        (if sp_Backup (ab_Spec (m_bundle m)) \<noteq> None then ReconcileRecurringBackupJob E (m_bundle m) else Done None)) s"
    unfolding ag by (intro ensures_thenP [OF ensures_claims [OF assms]] ensures_if ensures_backup [OF assms(1)]
        ensures_nothing [OF stable_volumes] none) simp_all
  assume "sp_Volumes (ab_Spec (m_bundle m)) = None"
  then have "sp_Volumes (ab_Spec ab0) = None" by (simp add: ag)
  then show "ensures (stores E) volume_kinds (settled ab0) (succeeds (\<lambda>s. volumes_in_sync s E ab0)) (Done None) s"
    by (intro ensures_nothing [OF stable_volumes] none) (simp_all add: claims_done_def)
qed

end
