(* ===== verification/Reconciled.thy ===== *)
theory Reconciled
  imports VolumesConvergence
begin

section \<open>A reconciliation that reports success has brought the cluster in sync\<close>

text \<open>
  The six goroutines, each with the kinds it writes and what it brings about. No two write
  the same kind, so by the rule for goroutines the group brings about \<open>in_sync\<close>, under
  every schedule and whichever calls fail, whenever it reports no error.
\<close>

definition goals :: "(nat \<Rightarrow> nat) \<Rightarrow> ext \<Rightarrow> AppBundle \<Rightarrow> mem goal list" where
  "goals grow E ab = [(volume_kinds, \<lambda>s. volumes_in_sync s E ab, ReconcileVolumes E),
     ({KService}, \<lambda>s. service_in_sync s E ab, ReconcileService E),
     ({KDeployment}, \<lambda>s. deployment_in_sync s grow E ab, ReconcileDeployment grow E),
     ({KIngress}, \<lambda>s. ingress_in_sync s E ab, ReconcileIngress E),
     ({KConfigMap, KPod}, \<lambda>s. config_map_in_sync s E ab, ReconcileConfigMap E),
     ({KExternalSecret}, \<lambda>s. secret_in_sync s E ab, ReconcileExternalSecret E)]"

lemma goals_programs: "map (snd \<circ> snd) (goals grow E ab) = reconciles grow E"
  by (simp add: goals_def reconciles_def)

lemma goals_apart: "apart (goals grow E ab)"
  by (simp add: goals_def apart_def)

lemma goals_achieved: "achieved (goals grow E ab) s \<longleftrightarrow> in_sync s grow E ab"
  by (auto simp: goals_def achieved_def in_sync_def)

lemma goals_met:
  assumes "compares E" and "wf_spec ab" and "claims_apart ab" and "x \<in> set (goals grow E ab)"
  shows "meets (stores E) (settled ab) x s"
  using assms(4) ensures_volumes [OF assms(1,3)] ensures_service ensures_deployment [OF assms(1,2)]
    ensures_ingress [OF assms(1)] ensures_config_map [OF assms(1)] ensures_external_secret [OF assms(1)]
  by (auto simp: goals_def meets_def stable_volumes stable_service stable_deployment stable_ingress
      stable_config_map stable_secret)

lemma ensures_reconciles:
  assumes "compares E" and "wf_spec ab" and "claims_apart ab"
  shows "ensures (stores E) UNIV (settled ab) (succeeds (\<lambda>s. in_sync s grow E ab)) (RunReconciles sched (reconciles grow E)) s"
proof -
  have "ensures (stores E) UNIV (settled ab) (succeeds (\<lambda>s. True \<and> achieved (goals grow E ab) s))
      (RunReconciles sched (map (snd \<circ> snd) (goals grow E ab))) s"
    by (rule ensures_RunReconciles [OF goals_apart goals_met [OF assms], where FK = "{}"])
      (simp_all add: stable_on_def)
  then show ?thesis by (simp add: goals_programs [unfolded comp_def] comp_def goals_achieved)
qed

lemma run_reconciles_success:
  assumes "run A (run_reconciles sched grow E) w m = (Some (10, None), w', m')"
  shows "run A (RunReconciles sched (reconciles grow E)) w m = (None, w', m')"
  using assms by (auto simp: run_reconciles_def run_bind split: prod.splits option.splits)


text \<open>The bundle with one route, on an empty cluster: its service and its deployment are created.\<close>

definition hashing_ext :: ext where
  "hashing_ext = sample_ext\<lparr>ext_HashRecurringJobSpec := (\<lambda>s. Inr (rj_Task s))\<rparr>"

lemma hashing_ext_sel [simp]:
  "ext_DeepDerivative hashing_ext a b \<longleftrightarrow> a = b" "ext_Diff hashing_ext a b = Inr []"
  "ext_HashRecurringJobSpec hashing_ext s = Inr (rj_Task s)"
  by (simp_all add: hashing_ext_def)

lemma hashing_compares: "compares hashing_ext"
  by (simp add: compares_def zero_external_secret_spec_def zero_pvc_spec_def zero_ingress_spec_def
      zero_recurring_job_spec_def)

lemma memory_stores: "kube_server memory_api contents (stores hashing_ext)"
proof (rule kube_server_mono [OF memory_server.kube_server_axioms])
  have "MergeIntoServiceSpec (svc_Spec svc) (GetGeneratedServiceSpecData svc) = svc_Spec svc" for svc
    by (simp add: MergeIntoServiceSpec_def GetGeneratedServiceSpecData_def Let_def)
  then show "stores hashing_ext x y" if "x = y" for x y
    using that by (cases y) (simp_all add: stores_def spec_kept_def fills_def)
qed

lemma hashing_diff [simp]:
  "FormulateDiffMessageForSpecs hashing_ext a b = Inr (''Spec changed, namely the paths: '' @ newline)"
  "FormulateDiffMessageForLabels hashing_ext a b = Inr (''Labels changed, namely the paths: '' @ newline)"
  by (simp_all add: FormulateDiffMessageForSpecs_def FormulateDiffMessageForLabels_def GetDiffPaths_def)

lemma served_created:
  "\<exists>w' m'. run memory_api (run_reconciles [] go_grow hashing_ext) [] (sample_mem served_bundle) = (Some (10, None), w', m')"
proof -
  let ?m = "sample_mem served_bundle"
  obtain svc ab where svc: "CreateExpectedService (GetGeneratedServiceSpecData (blank_service served_bundle))
      served_bundle = (Inr svc, ab)" using served_service by blast
  define m1 where "m1 = ?m\<lparr>m_bundle := ab\<rparr>"
  obtain d0 where d0: "CreateExpectedDeployment go_grow served_bundle = Inr d0" using served_deployment by blast
  have ag: "agrees served_bundle ab"
    using CreateExpectedService_agrees [OF agrees_refl, of served_bundle "GetGeneratedServiceSpecData (blank_service served_bundle)"] svc by simp
  have "wf_spec served_bundle" by (simp add: wf_spec_def wf_map_def)
  from expected_deployment_agrees [OF ag this d0] obtain d
    where d: "CreateExpectedDeployment go_grow ab = Inr d" by blast
  note ab = agrees_meta [OF ag] agrees_spec [OF ag]
  have m1: "m_bundle m1 = ab" by (simp add: m1_def)
  let ?w1 = "[ObjService svc]" and ?w2 = "[ObjService svc, ObjDeployment d]"
  have missing: "contents ?w1 (KDeployment, ns, n) = None" "contents ?w2 (KConfigMap, ns, n) = None"
    "contents ?w2 (KExternalSecret, ns, n) = None" for ns n
    by (simp_all add: contents_def key_of_def)
  have labels: "om_Labels (svc_ObjectMeta svc) = Some (SetDefaultAppBundleLabels served_bundle None)"
    by (subst CreateExpectedService_Inr(1) [OF svc]) simp
  have cm: "CreateExpectedConfigMap ab = Inr None" and es: "CreateExpectedExternalSecret ab = Inr None"
    using expected_config_map_agrees [OF ag] expected_secret_agrees [OF ag]
    by (simp_all add: CreateExpectedConfigMap_def CreateExpectedExternalSecret_def secretsToGet_def)
  have keys: "ingress_names ab = []"
    using agrees_ingress_names [OF ag] by (simp add: ingress_names_def ingress_keys_def route_at_def)
  have "run memory_api (ReconcileVolumes hashing_ext) [] ?m = (None, [], ?m)"
    by (simp add: ReconcileVolumes_def)
  moreover have "run memory_api (ReconcileService hashing_ext) [] ?m = (None, [ObjService svc], m1)"
    using labels_differ_from_none
    by (simp add: ReconcileService_def services.run_GetInto_error contents_def with_reason_def run_upsert_create
        svc [unfolded blank_service_def] labels m1_def)
  moreover have "run memory_api (ReconcileDeployment go_grow hashing_ext) ?w1 m1 = (None, ?w2, m1)"
    using d labels_differ_from_none missing
    by (auto simp: ReconcileDeployment_def deployments.run_GetInto_error with_reason_def run_upsert_create m1
        expected_deployment_meta [OF d] same_as_key key_of_def)
  moreover have "run memory_api (ReconcileIngress hashing_ext) ?w2 m1 = (None, ?w2, m1)"
    by (simp add: ReconcileIngress_def m1 ab keys items_of_def List.map_filter_def Let_def run_thenP)
  moreover have "run memory_api (ReconcileConfigMap hashing_ext) ?w2 m1 = (None, ?w2, m1)"
    using missing by (simp add: ReconcileConfigMap_def config_maps.run_GetInto_error m1 cm)
  moreover have "run memory_api (ReconcileExternalSecret hashing_ext) ?w2 m1 = (None, ?w2, m1)"
    using missing by (simp add: ReconcileExternalSecret_def external_secrets.run_GetInto_error m1 es)
  ultimately show ?thesis
    by (simp add: run_reconciles_def RunReconciles_def reconciles_def run_bind first_error_def)
qed


end
