(* ===== verification/GoHeap.thy ===== *)
theory GoHeap
  imports KubeTypes "HOL-Library.Monad_Syntax"
begin

section \<open>Go memory: pointers, maps and slices with their sharing\<close>

text \<open>
  The other theories read a pointer as an \<open>option\<close> and a map as a list, which forgets what
  two values share. The deep copies of \<open>api/v1alpha1/zz_generated.deepcopy.go\<close> are about
  sharing, and run on this explicit memory: a heap is the list of the objects allocated so far
  (variables reached by a pointer, maps, arrays), an address is a position in it, and \<open>new\<close>
  and \<open>make\<close> append one object.

  \<open>denotes T h n v t\<close> says that the value \<open>v\<close> has the Go type \<open>T\<close> in the heap \<open>h\<close>, that it
  represents the tree \<open>t\<close> when every pointer is followed, and that each object it reaches is
  at address \<open>n\<close> or above. A range loop over a map meets its entries in the order of the
  list, and trees forget that order.
\<close>

subsection \<open>Types, values, heaps\<close>

datatype atom = StrA string | BoolA bool | IntA goint | Int32A goint32

datatype base = StringB | BoolB | IntB | Int32B

fun atom_base :: "atom \<Rightarrow> base" where
  "atom_base (StrA s) = StringB"
| "atom_base (BoolA b) = BoolB"
| "atom_base (IntA i) = IntB"
| "atom_base (Int32A i) = Int32B"

fun zero_atom :: "base \<Rightarrow> atom" where
  "zero_atom StringB = StrA []"
| "zero_atom BoolB = BoolA False"
| "zero_atom IntB = IntA 0"
| "zero_atom Int32B = Int32A 0"

datatype ty = BaseT base | PtrT ty | MapT ty | SliceT ty | StructT "(string \<times> ty) list"

text \<open>A slice is the address of its array, the offset of its first element and its length.\<close>

datatype gval = AtomV atom | NilV | RefV nat | SliceV nat nat nat | StructV "gval gomap"

datatype obj = Cell gval | MapO "gval gomap" | ArrayO "gval list"

type_synonym heap = "obj list"

definition lookup_obj :: "heap \<Rightarrow> nat \<Rightarrow> obj option" where
  "lookup_obj h a = (if a < length h then Some (h ! a) else None)"

fun zero_of :: "ty \<Rightarrow> gval" where
  "zero_of (BaseT b) = AtomV (zero_atom b)"
| "zero_of (StructT fs) = StructV (map (\<lambda>(F, T). (F, zero_of T)) fs)"
| "zero_of _ = NilV"

fun nilable :: "ty \<Rightarrow> bool" where
  "nilable (BaseT b) = False"
| "nilable (StructT fs) = False"
| "nilable _ = True"

text \<open>A type without pointers, whose values an assignment copies completely.\<close>

fun flat :: "ty \<Rightarrow> bool" where
  "flat (BaseT b) = True"
| "flat (StructT fs) = list_all (\<lambda>(F, T). flat T) fs"
| "flat _ = False"

subsection \<open>What a value represents\<close>

datatype tree =
    AtomN atom | NilN | PtrN tree | MapN "tree gomap" | SliceN "tree list" | StructN "tree gomap"

definition at_key :: "('a \<Rightarrow> 'b \<Rightarrow> bool) \<Rightarrow> 'a gomap \<Rightarrow> 'b gomap \<Rightarrow> string \<Rightarrow> bool" where
  "at_key P vs ts k = (case (map_of vs k, map_of ts k) of (Some v, Some t) \<Rightarrow> P v t | _ \<Rightarrow> False)"

lemma at_key_iff: "at_key P vs ts k \<longleftrightarrow> (\<exists>v t. map_of vs k = Some v \<and> map_of ts k = Some t \<and> P v t)"
  by (auto simp: at_key_def split: option.splits)

fun denotes :: "ty \<Rightarrow> heap \<Rightarrow> nat \<Rightarrow> gval \<Rightarrow> tree \<Rightarrow> bool" where
  "denotes (BaseT b) h n v t = (case v of AtomV x \<Rightarrow> atom_base x = b \<and> t = AtomN x | _ \<Rightarrow> False)"
| "denotes (PtrT T) h n v t = (case v of
      NilV \<Rightarrow> t = NilN
    | RefV a \<Rightarrow> n \<le> a \<and> (case (lookup_obj h a, t) of
        (Some (Cell x), PtrN t') \<Rightarrow> denotes T h n x t' | _ \<Rightarrow> False)
    | _ \<Rightarrow> False)"
| "denotes (MapT T) h n v t = (case v of
      NilV \<Rightarrow> t = NilN
    | RefV a \<Rightarrow> n \<le> a \<and> (case (lookup_obj h a, t) of
        (Some (MapO m), MapN ts) \<Rightarrow> wf_map m \<and> wf_map ts \<and> set (map fst ts) = set (map fst m) \<and>
          list_all (at_key (denotes T h n) m ts) (map fst m) | _ \<Rightarrow> False)
    | _ \<Rightarrow> False)"
| "denotes (SliceT T) h n v t = (case v of
      NilV \<Rightarrow> t = NilN
    | SliceV a off len \<Rightarrow> n \<le> a \<and> (case (lookup_obj h a, t) of
        (Some (ArrayO xs), SliceN ts) \<Rightarrow> off + len \<le> length xs \<and>
          list_all2 (denotes T h n) (take len (drop off xs)) ts | _ \<Rightarrow> False)
    | _ \<Rightarrow> False)"
| "denotes (StructT fs) h n v t = (case (v, t) of
      (StructV vs, StructN ts) \<Rightarrow> map fst vs = map fst fs \<and> map fst ts = map fst fs \<and>
        list_all (\<lambda>(F, T). at_key (denotes T h n) vs ts F) fs
    | _ \<Rightarrow> False)"

lemma denotes_Nil_iff: "denotes T h n NilV t \<longleftrightarrow> nilable T \<and> t = NilN"
  by (cases T) auto

lemma denotes_Ptr_iff: "denotes (PtrT T) h n v t \<longleftrightarrow> v = NilV \<and> t = NilN \<or>
    (\<exists>a x t'. v = RefV a \<and> n \<le> a \<and> lookup_obj h a = Some (Cell x) \<and> t = PtrN t' \<and> denotes T h n x t')"
  by (auto split: gval.splits option.splits obj.splits tree.splits)

lemma denotes_Map_iff: "denotes (MapT T) h n v t \<longleftrightarrow> v = NilV \<and> t = NilN \<or>
    (\<exists>a m ts. v = RefV a \<and> n \<le> a \<and> lookup_obj h a = Some (MapO m) \<and> t = MapN ts \<and> wf_map m \<and>
      wf_map ts \<and> fst ` set ts = fst ` set m \<and>
      (\<forall>k\<in>fst ` set m. at_key (denotes T h n) m ts k))"
  by (auto simp: list_all_iff split: gval.splits option.splits obj.splits tree.splits)

lemma denotes_Slice_iff: "denotes (SliceT T) h n v t \<longleftrightarrow> v = NilV \<and> t = NilN \<or>
    (\<exists>a off len xs ts. v = SliceV a off len \<and> n \<le> a \<and> lookup_obj h a = Some (ArrayO xs) \<and>
      t = SliceN ts \<and> off + len \<le> length xs \<and>
      list_all2 (denotes T h n) (take len (drop off xs)) ts)"
  by (auto split: gval.splits option.splits obj.splits tree.splits)

lemma denotes_Struct_iff: "denotes (StructT fs) h n v t \<longleftrightarrow>
    (\<exists>vs ts. v = StructV vs \<and> t = StructN ts \<and> map fst vs = map fst fs \<and> map fst ts = map fst fs \<and>
      (\<forall>(F, T)\<in>set fs. at_key (denotes T h n) vs ts F))"
  by (auto simp: list_all_iff split: gval.splits tree.splits)

text \<open>A struct whose fields are listed in the order of their declaration.\<close>

lemma denotes_StructI:
  assumes "distinct (map fst fs)" and k: "map fst vs = map fst fs" "map fst ts = map fst fs"
    and d: "list_all (\<lambda>(T, v, t). denotes T h n v t) (zip (map snd fs) (zip (map snd vs) (map snd ts)))"
  shows "denotes (StructT fs) h n (StructV vs) (StructN ts)"
proof -
  have l: "length vs = length fs" "length ts = length fs" using k by (metis length_map)+
  have "at_key (denotes T h n) vs ts F" if "(F, T) \<in> set fs" for F T
  proof -
    from that obtain i where i: "i < length fs" "fs ! i = (F, T)" by (metis in_set_conv_nth)
    have key: "map_of ms F = Some (snd (ms ! i))"
      if "map fst ms = map fst fs" "length ms = length fs" for ms :: "'c gomap"
    proof (rule map_of_is_SomeI)
      show "distinct (map fst ms)" using assms(1) that(1) by simp
      have "fst (ms ! i) = F" using that i by (metis fst_conv nth_map)
      then show "(F, snd (ms ! i)) \<in> set ms" using that(2) i(1) by (metis nth_mem prod.collapse)
    qed
    have "denotes T h n (snd (vs ! i)) (snd (ts ! i))"
      using d i l by (auto simp: list_all_length)
    with key [OF k(1) l(1)] key [OF k(2) l(2)] show ?thesis by (simp add: at_key_iff)
  qed
  with k show ?thesis unfolding denotes_Struct_iff by blast
qed

lemma denotes_Base_iff [simp]:
  "denotes (BaseT b) h n v t \<longleftrightarrow> (\<exists>x. v = AtomV x \<and> atom_base x = b \<and> t = AtomN x)"
  by (auto split: gval.splits)

declare denotes.simps [simp del]

text \<open>
  The frame rule: what a value represents depends only on the objects it reaches, so on no
  object below the bound.
\<close>

lemma at_key_mono: "at_key P vs ts k \<Longrightarrow> (\<And>v t. P v t \<Longrightarrow> Q v t) \<Longrightarrow> at_key Q vs ts k"
  by (auto simp: at_key_iff)

lemma denotes_frame:
  assumes "denotes T h n v t" and "\<And>a o'. n \<le> a \<Longrightarrow> lookup_obj h a = Some o' \<Longrightarrow> lookup_obj h' a = Some o'"
    and "n' \<le> n"
  shows "denotes T h' n' v t"
  using assms
proof (induction T arbitrary: v t)
  case (BaseT b)
  then show ?case by simp
next
  case (PtrT T)
  from PtrT.prems(1) show ?case
    unfolding denotes_Ptr_iff using PtrT.IH [OF _ PtrT.prems(2,3)] PtrT.prems(2,3) by fastforce
next
  case (MapT T)
  have "at_key (denotes T h' n') m ts k" if "at_key (denotes T h n) m ts k" for m ts k
    using that by (rule at_key_mono) (rule MapT.IH [OF _ MapT.prems(2,3)])
  with MapT.prems show ?case
    unfolding denotes_Map_iff by fastforce
next
  case (SliceT T)
  have "list_all2 (denotes T h' n') xs ts" if "list_all2 (denotes T h n) xs ts" for xs ts
    using that by (rule list_all2_mono) (rule SliceT.IH [OF _ SliceT.prems(2,3)])
  with SliceT.prems show ?case
    unfolding denotes_Slice_iff by fastforce
next
  case (StructT fs)
  have "at_key (denotes T h' n') vs ts F" if "(F, T) \<in> set fs" "at_key (denotes T h n) vs ts F" for F T vs ts
    using that(2) by (rule at_key_mono)
      (rule StructT.IH [OF that(1) _ _ StructT.prems(2,3)], simp_all)
  with StructT.prems(1) show ?case
    unfolding denotes_Struct_iff by fastforce
qed

end
