(* ===== verification/CopyRules.thy ===== *)
theory CopyRules
  imports GoHeap "HOL-Library.Sublist"
begin

section \<open>The statements that generated deep copies are made of\<close>

text \<open>
  \<open>zz_generated.deepcopy.go\<close> is written with five idioms: a plain assignment, \<open>new(T)\<close>
  followed by a copy into it, a \<open>make\<close> followed by a range loop over a map or over the indices
  of a slice, a struct copied field by field after \<open>*out = *in\<close>, and the guard
  \<open>if in.F != nil\<close>. Each is a definition here, on the heap of \<open>GoHeap\<close>, and a copier takes
  the value to copy and gives the value that the code leaves at the destination, or \<open>None\<close> when
  it panics. The destination is a variable allocated for the copy, which nothing else points
  to, so it is written once its value is known.

  The locale \<open>deep_copier\<close> is the contract of a copier for values other than nil, and
  \<open>total_copier\<close> the one for all values: it does not panic, changes no existing object, and
  its result represents the same tree through new objects only. Each idiom preserves it.
\<close>

type_synonym copier = "gval \<Rightarrow> heap \<Rightarrow> (gval \<times> heap) option"

subsection \<open>The idioms\<close>

text \<open>\<open>*out = *in\<close> on a value without pointers.\<close>

definition assign :: copier where
  "assign v h = Some (v, h)"

definition guarded :: "copier \<Rightarrow> copier" where
  "guarded f v h = (if v = NilV then Some (v, h) else f v h)"

fun star :: "heap \<Rightarrow> gval \<Rightarrow> gval option" where
  "star h (RefV a) = (case lookup_obj h a of Some (Cell x) \<Rightarrow> Some x | _ \<Rightarrow> None)"
| "star h _ = None"

text \<open>\<open>out := new(T)\<close>, then \<open>x.DeepCopyInto(out)\<close>.\<close>

definition new_copy :: "ty \<Rightarrow> copier \<Rightarrow> copier" where
  "new_copy T into x h = do {
     (y, h') \<leftarrow> into x (h @ [Cell (zero_of T)]);
     Some (RefV (length h), h'[length h := Cell y]) }"

definition copy_ptr :: "ty \<Rightarrow> copier \<Rightarrow> copier" where
  "copy_ptr T into v h = do { x \<leftarrow> star h v; new_copy T into x h }"

text \<open>\<open>*x.DeepCopy()\<close>: the copy is read back from the variable that was made for it.\<close>

definition copy_value :: "ty \<Rightarrow> copier \<Rightarrow> copier" where
  "copy_value T into x h = do { (p, h') \<leftarrow> new_copy T into x h; y \<leftarrow> star h' p; Some (y, h') }"

definition put_key :: "nat \<Rightarrow> string \<Rightarrow> gval \<Rightarrow> heap \<Rightarrow> heap option" where
  "put_key b k y h = (case lookup_obj h b of
     Some (MapO m) \<Rightarrow> Some (h[b := MapO (mput k y m)]) | _ \<Rightarrow> None)"

fun range_copy :: "copier \<Rightarrow> nat \<Rightarrow> gval gomap \<Rightarrow> heap \<Rightarrow> heap option" where
  "range_copy f b [] h = Some h"
| "range_copy f b ((k, x) # m) h = do {
     (y, h1) \<leftarrow> f x h;
     h2 \<leftarrow> put_key b k y h1;
     range_copy f b m h2 }"

text \<open>The \<open>make\<close> of a nil map makes an empty one: the code relies on its guards.\<close>

definition copy_map :: "copier \<Rightarrow> copier" where
  "copy_map f v h = (case v of
       NilV \<Rightarrow> Some (RefV (length h), h @ [MapO []])
     | RefV a \<Rightarrow> (case lookup_obj h a of
         Some (MapO m) \<Rightarrow> do {
           h' \<leftarrow> range_copy f (length h) m (h @ [MapO []]);
           Some (RefV (length h), h') }
       | _ \<Rightarrow> None)
     | _ \<Rightarrow> None)"

definition get_elem :: "heap \<Rightarrow> nat \<Rightarrow> nat \<Rightarrow> gval option" where
  "get_elem h a i = (case lookup_obj h a of
     Some (ArrayO xs) \<Rightarrow> if i < length xs then Some (xs ! i) else None | _ \<Rightarrow> None)"

definition set_elem :: "nat \<Rightarrow> nat \<Rightarrow> gval \<Rightarrow> heap \<Rightarrow> heap option" where
  "set_elem b i y h = (case lookup_obj h b of
     Some (ArrayO xs) \<Rightarrow> if i < length xs then Some (h[b := ArrayO (xs[i := y])]) else None
   | _ \<Rightarrow> None)"

fun index_copy :: "copier \<Rightarrow> nat \<Rightarrow> nat \<Rightarrow> nat \<Rightarrow> nat list \<Rightarrow> heap \<Rightarrow> heap option" where
  "index_copy f a off b [] h = Some h"
| "index_copy f a off b (i # js) h = do {
     x \<leftarrow> get_elem h a (off + i);
     (y, h1) \<leftarrow> f x h;
     h2 \<leftarrow> set_elem b i y h1;
     index_copy f a off b js h2 }"

definition copy_slice :: "ty \<Rightarrow> copier \<Rightarrow> copier" where
  "copy_slice T f v h = (case v of
       NilV \<Rightarrow> Some (SliceV (length h) 0 0, h @ [ArrayO []])
     | SliceV a off len \<Rightarrow> do {
         h' \<leftarrow> index_copy f a off (length h) [0..<len] (h @ [ArrayO (replicate len (zero_of T))]);
         Some (SliceV (length h) 0 len, h') }
     | _ \<Rightarrow> None)"

subsection \<open>Structs\<close>

text \<open>
  The body of a \<open>DeepCopyInto\<close>: after \<open>*out = *in\<close>, one statement per field that needs
  more than an assignment, with or without the guard \<open>if in.F != nil\<close>.
\<close>

datatype copy_step = IfNotNil string copier | Always string copier

fun field :: "string \<Rightarrow> gval \<Rightarrow> gval option" where
  "field F (StructV vs) = map_of vs F"
| "field F _ = None"

fun set_field :: "string \<Rightarrow> gval \<Rightarrow> gval \<Rightarrow> gval option" where
  "set_field F y (StructV vs) = (if F \<in> set (map fst vs) then Some (StructV (mput F y vs)) else None)"
| "set_field F y _ = None"

fun run_step :: "gval \<Rightarrow> copy_step \<Rightarrow> gval \<times> heap \<Rightarrow> (gval \<times> heap) option" where
  "run_step inp (IfNotNil F f) (out, h) = do {
     x \<leftarrow> field F inp;
     if x = NilV then Some (out, h)
     else do { (y, h') \<leftarrow> f x h; out' \<leftarrow> set_field F y out; Some (out', h') } }"
| "run_step inp (Always F f) (out, h) = do {
     x \<leftarrow> field F inp;
     (y, h') \<leftarrow> f x h;
     out' \<leftarrow> set_field F y out;
     Some (out', h') }"

fun run_steps :: "gval \<Rightarrow> copy_step list \<Rightarrow> gval \<times> heap \<Rightarrow> (gval \<times> heap) option" where
  "run_steps inp [] s = Some s"
| "run_steps inp (st # sts) s = do { s' \<leftarrow> run_step inp st s; run_steps inp sts s' }"

definition copy_struct :: "copy_step list \<Rightarrow> copier" where
  "copy_struct sts v h = run_steps v sts (v, h)"

text \<open>\<open>func (in *T) DeepCopy() *T\<close>.\<close>

definition DeepCopy :: "ty \<Rightarrow> copier \<Rightarrow> copier" where
  "DeepCopy T into v h = (if v = NilV then Some (NilV, h) else copy_ptr T into v h)"

subsection \<open>The contract\<close>

definition copies :: "ty \<Rightarrow> copier \<Rightarrow> heap \<Rightarrow> gval \<Rightarrow> tree \<Rightarrow> bool" where
  "copies T f h v t \<longleftrightarrow> (case f v h of
     None \<Rightarrow> False
   | Some (v', h') \<Rightarrow> prefix h h' \<and> denotes T h' (length h) v' t)"

lemma copiesI: "f v h = Some (v', h') \<Longrightarrow> prefix h h' \<Longrightarrow> denotes T h' (length h) v' t \<Longrightarrow> copies T f h v t"
  by (simp add: copies_def)

lemma copiesE:
  assumes "copies T f h v t"
  obtains v' h' where "f v h = Some (v', h')" and "prefix h h'" and "denotes T h' (length h) v' t"
  using assms by (auto simp: copies_def split: option.splits)

lemma lookup_prefix: "prefix h h' \<Longrightarrow> lookup_obj h a = Some o' \<Longrightarrow> lookup_obj h' a = Some o'"
  by (auto simp: lookup_obj_def prefix_def nth_append split: if_splits)

lemma lookup_update [simp]:
  "lookup_obj (h[b := o']) a = (if a = b \<and> b < length h then Some o' else lookup_obj h a)"
  by (auto simp: lookup_obj_def)

lemma lookup_last [simp]: "lookup_obj (h @ [o']) (length h) = Some o'"
  by (simp add: lookup_obj_def)

lemma prefix_update: "prefix h h' \<Longrightarrow> length h \<le> b \<Longrightarrow> prefix h (h'[b := o'])"
  by (auto simp: prefix_def list_update_append)

lemma prefix_trans: "prefix h h1 \<Longrightarrow> prefix h1 h2 \<Longrightarrow> prefix h h2"
  by (rule prefix_order.order_trans)

lemma denotes_prefix: "denotes T h n v t \<Longrightarrow> prefix h h' \<Longrightarrow> n' \<le> n \<Longrightarrow> denotes T h' n' v t"
  by (erule denotes_frame) (auto intro: lookup_prefix)

lemma denotes_Suc: "denotes T h (Suc n) v t \<Longrightarrow> denotes T h n v t"
  by (erule denotes_prefix) simp_all

lemma denotes_update_below: "denotes T h n v t \<Longrightarrow> b < n \<Longrightarrow> denotes T (h[b := o']) n v t"
  by (erule denotes_frame) auto

lemma denotes_flat: "flat T \<Longrightarrow> denotes T h n v t \<Longrightarrow> denotes T h' n' v t"
proof (induction T arbitrary: v t)
  case (StructT fs)
  have "at_key (denotes T h' n') vs ts F"
    if "(F, T) \<in> set fs" "at_key (denotes T h n) vs ts F" for F T vs ts
    using that(2)
    by (rule at_key_mono) (rule StructT.IH [OF that(1)], use that(1) StructT.prems(1) in \<open>auto simp: list_all_iff\<close>)
  with StructT.prems(2) show ?case unfolding denotes_Struct_iff by fastforce
qed simp_all

locale deep_copier =
  fixes T :: ty and f :: copier
  assumes copies_nonnil: "denotes T h 0 v t \<Longrightarrow> v \<noteq> NilV \<Longrightarrow> copies T f h v t"

locale total_copier =
  fixes T :: ty and f :: copier
  assumes copies_all: "denotes T h 0 v t \<Longrightarrow> copies T f h v t"

sublocale total_copier \<subseteq> deep_copier
  by unfold_locales (rule copies_all)

subsection \<open>Each idiom preserves the contract\<close>

lemma total_copier_assign: "flat T \<Longrightarrow> total_copier T assign"
  by unfold_locales (rule copiesI, simp add: assign_def, simp, rule denotes_flat)

lemma total_copierI: "deep_copier T f \<Longrightarrow> \<not> nilable T \<Longrightarrow> total_copier T f"
  by (rule total_copier.intro) (erule deep_copier.copies_nonnil, auto simp: denotes_Nil_iff)

lemma denotes_Nil_any: "denotes T h n NilV t \<Longrightarrow> denotes T h' n' NilV t"
  by (simp add: denotes_Nil_iff)

context deep_copier
begin

lemma total_copier_guarded: "total_copier T (guarded f)"
proof
  fix h v t
  assume d: "denotes T h 0 v t"
  show "copies T (guarded f) h v t"
  proof (cases "v = NilV")
    case True
    with d show ?thesis by (auto simp: copies_def guarded_def intro: denotes_Nil_any)
  next
    case False
    with copies_nonnil [OF d] show ?thesis by (simp add: copies_def guarded_def)
  qed
qed

end

context total_copier
begin

lemma new_copy_ptr:
  assumes "denotes T h 0 x t"
  obtains y h' where "new_copy T f x h = Some (RefV (length h), h')" and "prefix h h'"
    and "lookup_obj h' (length h) = Some (Cell y)" and "denotes T h' (Suc (length h)) y t"
proof -
  let ?h = "h @ [Cell (zero_of T)]"
  have "denotes T ?h 0 x t" using assms by (rule denotes_prefix) auto
  then obtain y h' where f: "f x ?h = Some (y, h')" "prefix ?h h'" "denotes T h' (length ?h) y t"
    by (rule copies_all [THEN copiesE])
  let ?h' = "h'[length h := Cell y]"
  have p: "prefix h h'" using f(2) by (rule prefix_trans [OF prefixI, rotated]) simp
  have l: "length h < length h'" using f(2) by (auto dest: prefix_length_le)
  show thesis
  proof
    show "new_copy T f x h = Some (RefV (length h), ?h')" by (simp add: new_copy_def f(1))
    show "prefix h ?h'" using p by (rule prefix_update) simp
    show "lookup_obj ?h' (length h) = Some (Cell y)" using l by simp
    show "denotes T ?h' (Suc (length h)) y t"
      using f(3) by (intro denotes_update_below) simp_all
  qed
qed

lemma deep_copier_ptr: "deep_copier (PtrT T) (copy_ptr T f)"
proof
  fix h v t
  assume "denotes (PtrT T) h 0 v t" and "v \<noteq> NilV"
  then obtain a x t' where v: "v = RefV a" "lookup_obj h a = Some (Cell x)" "t = PtrN t'"
    and x: "denotes T h 0 x t'"
    by (auto simp: denotes_Ptr_iff)
  from x obtain y h' where n: "new_copy T f x h = Some (RefV (length h), h')" "prefix h h'"
    "lookup_obj h' (length h) = Some (Cell y)" "denotes T h' (Suc (length h)) y t'"
    by (rule new_copy_ptr)
  from n(4) have "denotes T h' (length h) y t'" by (rule denotes_prefix) auto
  with n v show "copies (PtrT T) (copy_ptr T f) h v t"
    by (intro copiesI [of _ _ _ "RefV (length h)" h'])
      (simp_all add: copy_ptr_def denotes_Ptr_iff)
qed

lemma total_copier_DeepCopy: "total_copier (PtrT T) (DeepCopy T f)"
proof -
  have "DeepCopy T f = guarded (copy_ptr T f)"
    by (auto simp: fun_eq_iff DeepCopy_def guarded_def)
  then show ?thesis using deep_copier.total_copier_guarded [OF deep_copier_ptr] by simp
qed

lemma total_copier_value: "total_copier T (copy_value T f)"
proof
  fix h v t
  assume "denotes T h 0 v t"
  then obtain y h' where n: "new_copy T f v h = Some (RefV (length h), h')" "prefix h h'"
    "lookup_obj h' (length h) = Some (Cell y)" "denotes T h' (Suc (length h)) y t"
    by (rule new_copy_ptr)
  from n(4) have "denotes T h' (length h) y t" by (rule denotes_prefix) auto
  with n show "copies T (copy_value T f) h v t"
    by (intro copiesI) (simp_all add: copy_value_def)
qed

text \<open>
  One round of a loop that fills the object at \<open>length h\<close>: an element is copied, then the
  object is replaced by \<open>ob'\<close>; what had been copied before is kept.
\<close>

lemma loop_round:
  assumes "denotes T h 0 x t" and "prefix h hk" and "lookup_obj hk (length h) = Some ob"
  obtains y h1 where "f x hk = Some (y, h1)" and "lookup_obj h1 (length h) = Some ob"
    and "\<And>ob'. prefix h (h1[length h := ob'])"
    and "\<And>ob'. lookup_obj (h1[length h := ob']) (length h) = Some ob'"
    and "\<And>ob'. denotes T (h1[length h := ob']) (Suc (length h)) y t"
    and "\<And>ob' z u. denotes T hk (Suc (length h)) z u \<Longrightarrow>
      denotes T (h1[length h := ob']) (Suc (length h)) z u"
proof -
  obtain y h1 where c: "f x hk = Some (y, h1)" "prefix hk h1" "denotes T h1 (length hk) y t"
    using copies_all [OF denotes_prefix [OF assms(1,2) order_refl]] by (rule copiesE)
  have l: "length h < length hk"
    using assms(3) by (auto simp: lookup_obj_def split: if_splits)
  have l1: "length h < length h1" using l prefix_length_le [OF c(2)] by simp
  show thesis
  proof
    show "f x hk = Some (y, h1)" by (rule c(1))
    show "lookup_obj h1 (length h) = Some ob" using c(2) assms(3) by (rule lookup_prefix)
    show "prefix h (h1[length h := ob'])" for ob'
      using prefix_trans [OF assms(2) c(2)] by (rule prefix_update) simp
    show "lookup_obj (h1[length h := ob']) (length h) = Some ob'" for ob' using l1 by simp
    show "denotes T (h1[length h := ob']) (Suc (length h)) y t" for ob'
      using denotes_prefix [OF c(3) prefix_order.order_refl, of "Suc (length h)"] l
      by (intro denotes_update_below) simp_all
    show "denotes T (h1[length h := ob']) (Suc (length h)) z u"
      if "denotes T hk (Suc (length h)) z u" for ob' z u
      using denotes_prefix [OF that c(2) order_refl] by (rule denotes_update_below) simp
  qed
qed

text \<open>The loop over a map, from the moment when \<open>mk\<close> has been filled so far.\<close>

lemma range_copy_spec:
  assumes "\<And>k x. (k, x) \<in> set m \<Longrightarrow> \<exists>t. map_of ts k = Some t \<and> denotes T h 0 x t"
    and "prefix h hk" and "lookup_obj hk (length h) = Some (MapO mk)" and "wf_map mk"
    and "\<And>k y. map_of mk k = Some y \<Longrightarrow>
      \<exists>t. map_of ts k = Some t \<and> denotes T hk (Suc (length h)) y t"
  shows "\<exists>h' mk'. range_copy f (length h) m hk = Some h' \<and> prefix h h' \<and>
    lookup_obj h' (length h) = Some (MapO mk') \<and> wf_map mk' \<and>
    fst ` set mk' = fst ` set mk \<union> fst ` set m \<and>
    (\<forall>k y. map_of mk' k = Some y \<longrightarrow>
      (\<exists>t. map_of ts k = Some t \<and> denotes T h' (Suc (length h)) y t))"
  using assms
proof (induction m arbitrary: hk mk)
  case Nil
  then show ?case by auto
next
  case (Cons kx m)
  obtain k x where kx: "kx = (k, x)" by (cases kx)
  with Cons.prems(1) obtain t where t: "map_of ts k = Some t" "denotes T h 0 x t" by auto
  obtain y h1 where c: "f x hk = Some (y, h1)" "lookup_obj h1 (length h) = Some (MapO mk)"
    and w: "\<And>ob'. prefix h (h1[length h := ob'])"
      "\<And>ob'. lookup_obj (h1[length h := ob']) (length h) = Some ob'"
    and new: "\<And>ob'. denotes T (h1[length h := ob']) (Suc (length h)) y t"
    and keep: "\<And>ob' z u. denotes T hk (Suc (length h)) z u \<Longrightarrow>
      denotes T (h1[length h := ob']) (Suc (length h)) z u"
    using loop_round [OF t(2) Cons.prems(2,3)] by blast
  let ?h2 = "h1[length h := MapO (mput k y mk)]"
  have "\<exists>h' mk'. range_copy f (length h) m ?h2 = Some h' \<and> prefix h h' \<and>
    lookup_obj h' (length h) = Some (MapO mk') \<and> wf_map mk' \<and>
    fst ` set mk' = fst ` set (mput k y mk) \<union> fst ` set m \<and>
    (\<forall>k y. map_of mk' k = Some y \<longrightarrow>
      (\<exists>t. map_of ts k = Some t \<and> denotes T h' (Suc (length h)) y t))"
  proof (rule Cons.IH)
    fix k' z
    assume "map_of (mput k y mk) k' = Some z"
    then show "\<exists>t. map_of ts k' = Some t \<and> denotes T ?h2 (Suc (length h)) z t"
      using Cons.prems(5) [of k' z] keep new t(1) by (auto split: if_splits)
  qed (use Cons.prems(1,4) w in \<open>auto\<close>)
  then show ?case by (simp add: kx c put_key_def set_keys_mput)
qed

lemma deep_copier_map: "deep_copier (MapT T) (copy_map f)"
proof
  fix h v t
  assume "denotes (MapT T) h 0 v t" and "v \<noteq> NilV"
  then obtain a m ts where v: "v = RefV a" "lookup_obj h a = Some (MapO m)" "t = MapN ts"
    and m: "wf_map m" "wf_map ts" "fst ` set ts = fst ` set m"
    and at: "\<forall>k\<in>fst ` set m. at_key (denotes T h 0) m ts k"
    by (auto simp only: denotes_Map_iff)
  have entry: "\<exists>t. map_of ts k = Some t \<and> denotes T h 0 x t" if "(k, x) \<in> set m" for k x
  proof -
    have "map_of m k = Some x" using m(1) that by (simp add: wf_map_def)
    moreover have "k \<in> fst ` set m" using that by force
    ultimately show ?thesis using bspec [OF at, of k] by (auto simp: at_key_iff)
  qed
  have "\<exists>h' mk'. range_copy f (length h) m (h @ [MapO []]) = Some h' \<and> prefix h h' \<and>
    lookup_obj h' (length h) = Some (MapO mk') \<and> wf_map mk' \<and>
    fst ` set mk' = fst ` set ([] :: gval gomap) \<union> fst ` set m \<and>
    (\<forall>k y. map_of mk' k = Some y \<longrightarrow>
      (\<exists>t. map_of ts k = Some t \<and> denotes T h' (Suc (length h)) y t))"
    by (rule range_copy_spec) (use entry in auto)
  then obtain h' mk' where r: "range_copy f (length h) m (h @ [MapO []]) = Some h'" "prefix h h'"
      "lookup_obj h' (length h) = Some (MapO mk')" "wf_map mk'" "fst ` set mk' = fst ` set m"
    and d: "\<And>k y. map_of mk' k = Some y \<Longrightarrow>
      \<exists>t. map_of ts k = Some t \<and> denotes T h' (Suc (length h)) y t"
    by auto
  have "at_key (denotes T h' (length h)) mk' ts (fst e)" if "e \<in> set mk'" for e
  proof -
    have "map_of mk' (fst e) = Some (snd e)" using r(4) that by (simp add: wf_map_def)
    with d [of "fst e" "snd e"] show ?thesis by (auto simp: at_key_iff intro: denotes_Suc)
  qed
  with r v m show "copies (MapT T) (copy_map f) h v t"
    by (intro copiesI [of _ _ _ "RefV (length h)" h'])
      (simp_all add: copy_map_def denotes_Map_iff)
qed

text \<open>The loop over the indices of a slice, those of \<open>js\<close> still to be copied.\<close>

lemma index_copy_spec:
  assumes "lookup_obj h a = Some (ArrayO xs)" and "off + len \<le> length xs"
    and "\<And>i. i < len \<Longrightarrow> denotes T h 0 (xs ! (off + i)) (ts ! i)" and "set js \<subseteq> {..<len}"
    and "prefix h hk" and "lookup_obj hk (length h) = Some (ArrayO ys)" and "length ys = len"
    and "\<And>j. j < len \<Longrightarrow> j \<notin> set js \<Longrightarrow> denotes T hk (Suc (length h)) (ys ! j) (ts ! j)"
  shows "\<exists>h' ys'. index_copy f a off (length h) js hk = Some h' \<and> prefix h h' \<and>
    lookup_obj h' (length h) = Some (ArrayO ys') \<and> length ys' = len \<and>
    (\<forall>j<len. denotes T h' (Suc (length h)) (ys' ! j) (ts ! j))"
  using assms(4-)
proof (induction js arbitrary: hk ys)
  case Nil
  then show ?case by auto
next
  case (Cons i js)
  let ?x = "xs ! (off + i)"
  have i: "i < len" using Cons.prems(1) by simp
  have x: "get_elem hk a (off + i) = Some ?x"
    using lookup_prefix [OF Cons.prems(2) assms(1)] assms(2) i by (simp add: get_elem_def)
  obtain y h1 where c: "f ?x hk = Some (y, h1)" "lookup_obj h1 (length h) = Some (ArrayO ys)"
    and w: "\<And>ob'. prefix h (h1[length h := ob'])"
      "\<And>ob'. lookup_obj (h1[length h := ob']) (length h) = Some ob'"
    and new: "\<And>ob'. denotes T (h1[length h := ob']) (Suc (length h)) y (ts ! i)"
    and keep: "\<And>ob' z u. denotes T hk (Suc (length h)) z u \<Longrightarrow>
      denotes T (h1[length h := ob']) (Suc (length h)) z u"
    using loop_round [OF assms(3) [OF i] Cons.prems(2,3)] by blast
  let ?h2 = "h1[length h := ArrayO (ys[i := y])]"
  have "\<exists>h' ys'. index_copy f a off (length h) js ?h2 = Some h' \<and> prefix h h' \<and>
    lookup_obj h' (length h) = Some (ArrayO ys') \<and> length ys' = len \<and>
    (\<forall>j<len. denotes T h' (Suc (length h)) (ys' ! j) (ts ! j))"
  proof (rule Cons.IH)
    fix j
    assume "j < len" and "j \<notin> set js"
    then show "denotes T ?h2 (Suc (length h)) (ys[i := y] ! j) (ts ! j)"
      using Cons.prems(4,5) keep new by (cases "j = i") auto
  qed (use Cons.prems(1,4) w in auto)
  then show ?case using i Cons.prems(4) by (simp add: x c set_elem_def)
qed

lemma deep_copier_slice: "deep_copier (SliceT T) (copy_slice T f)"
proof
  fix h v t
  assume "denotes (SliceT T) h 0 v t" and "v \<noteq> NilV"
  then obtain a off len xs ts where v: "v = SliceV a off len" "lookup_obj h a = Some (ArrayO xs)"
      "t = SliceN ts"
    and l: "off + len \<le> length xs" and d: "list_all2 (denotes T h 0) (take len (drop off xs)) ts"
    unfolding denotes_Slice_iff by blast
  have lt: "length ts = len" using list_all2_lengthD [OF d] l by simp
  let ?h = "h @ [ArrayO (replicate len (zero_of T))]"
  have "\<exists>h' ys'. index_copy f a off (length h) [0..<len] ?h = Some h' \<and> prefix h h' \<and>
    lookup_obj h' (length h) = Some (ArrayO ys') \<and> length ys' = len \<and>
    (\<forall>j<len. denotes T h' (Suc (length h)) (ys' ! j) (ts ! j))"
  proof (rule index_copy_spec [OF v(2) l])
    show "denotes T h 0 (xs ! (off + i)) (ts ! i)" if "i < len" for i
      using list_all2_nthD [OF d, of i] that l by simp
  qed auto
  then obtain h' ys' where r: "index_copy f a off (length h) [0..<len] ?h = Some h'" "prefix h h'"
      "lookup_obj h' (length h) = Some (ArrayO ys')" "length ys' = len"
    and e: "\<forall>j<len. denotes T h' (Suc (length h)) (ys' ! j) (ts ! j)"
    by blast
  have "list_all2 (denotes T h' (length h)) ys' ts"
    using e r(4) lt by (auto simp: list_all2_conv_all_nth intro: denotes_Suc)
  with r v show "copies (SliceT T) (copy_slice T f) h v t"
    by (intro copiesI [of _ _ _ "SliceV (length h) 0 len" h'])
      (simp_all add: copy_slice_def denotes_Slice_iff)
qed

end

subsection \<open>A struct is copied when every field with pointers has its statement\<close>

fun step_field :: "copy_step \<Rightarrow> string" where
  "step_field (IfNotNil F f) = F"
| "step_field (Always F f) = F"

fun step_ok :: "(string \<times> ty) list \<Rightarrow> copy_step \<Rightarrow> bool" where
  "step_ok fs (IfNotNil F f) = (\<exists>T. map_of fs F = Some T \<and> deep_copier T f)"
| "step_ok fs (Always F f) = (\<exists>T. map_of fs F = Some T \<and> total_copier T f)"

text \<open>
  The state of the copy of \<open>vs\<close>, which represents \<open>ts\<close>, when the fields \<open>D\<close> have been
  copied: the others still hold what \<open>*out = *in\<close> put there.
\<close>

definition struct_inv :: "(string \<times> ty) list \<Rightarrow> gval gomap \<Rightarrow> tree gomap \<Rightarrow> heap \<Rightarrow> string set \<Rightarrow>
    gval gomap \<Rightarrow> heap \<Rightarrow> bool" where
  "struct_inv fs vs ts h0 D os h \<longleftrightarrow> prefix h0 h \<and> map fst os = map fst fs \<and>
     (\<forall>F. F \<notin> D \<longrightarrow> map_of os F = map_of vs F) \<and>
     (\<forall>(F, T)\<in>set fs. at_key (denotes T h0 0) vs ts F \<and>
        at_key (denotes T h (if F \<in> D then length h0 else 0)) os ts F)"

lemma map_fst_mput: "F \<in> set (map fst m) \<Longrightarrow> map fst (mput F v m) = map fst m"
  by (simp add: mput_def update_keys)

lemma struct_invD:
  assumes "struct_inv fs vs ts h0 D os h"
  shows "prefix h0 h" and "map fst os = map fst fs"
    and "F \<notin> D \<Longrightarrow> map_of os F = map_of vs F"
    and "(F, T) \<in> set fs \<Longrightarrow> at_key (denotes T h0 0) vs ts F"
    and "(F, T) \<in> set fs \<Longrightarrow> at_key (denotes T h (if F \<in> D then length h0 else 0)) os ts F"
  using assms unfolding struct_inv_def by auto

lemma struct_invI:
  assumes "prefix h0 h" and "map fst os = map fst fs"
    and "\<And>F. F \<notin> D \<Longrightarrow> map_of os F = map_of vs F"
    and "\<And>F T. (F, T) \<in> set fs \<Longrightarrow> at_key (denotes T h0 0) vs ts F"
    and "\<And>F T. (F, T) \<in> set fs \<Longrightarrow> at_key (denotes T h (if F \<in> D then length h0 else 0)) os ts F"
  shows "struct_inv fs vs ts h0 D os h"
  using assms unfolding struct_inv_def by auto

lemma field_in_keys: "map fst os = map fst fs \<Longrightarrow> map_of fs F = Some T \<Longrightarrow> F \<in> set (map fst os)"
  by (metis domI dom_map_of_conv_image_fst list.set_map)

lemma struct_inv_put:
  assumes I: "struct_inv fs vs ts h0 D os h" and d: "distinct (map fst fs)" and T: "map_of fs F = Some T"
    and t: "map_of ts F = Some t" and y: "denotes T h' (length h0) y t" and p: "prefix h h'"
  shows "struct_inv fs vs ts h0 (insert F D) (mput F y os) h'"
proof (rule struct_invI)
  fix G T'
  assume G: "(G, T') \<in> set fs"
  show "at_key (denotes T' h' (if G \<in> insert F D then length h0 else 0)) (mput F y os) ts G"
  proof (cases "G = F")
    case True
    then have "T' = T" using G T d by simp
    with True y t show ?thesis by (simp add: at_key_iff)
  next
    case False
    with struct_invD(5) [OF I G] show ?thesis
      by (auto simp: at_key_iff intro: denotes_prefix [OF _ p order_refl])
  qed
  show "at_key (denotes T' h0 0) vs ts G" using I G by (rule struct_invD)
next
  show "map fst (mput F y os) = map fst fs"
    using struct_invD(2) [OF I] map_fst_mput [OF field_in_keys [OF struct_invD(2) [OF I] T]] by simp
qed (use struct_invD [OF I] p prefix_trans in auto)

lemma struct_inv_nil:
  assumes I: "struct_inv fs vs ts h0 D os h" and nil: "map_of vs F = Some NilV"
  shows "struct_inv fs vs ts h0 (insert F D) os h"
proof (rule struct_invI)
  fix G T
  assume G: "(G, T) \<in> set fs"
  show "at_key (denotes T h (if G \<in> insert F D then length h0 else 0)) os ts G"
  proof (cases "G = F \<and> F \<notin> D")
    case True
    with struct_invD(3) [OF I, of F] struct_invD(5) [OF I G] nil show ?thesis
      by (auto simp: at_key_iff intro: denotes_Nil_any)
  next
    case False
    with struct_invD(5) [OF I G] show ?thesis by (auto split: if_splits)
  qed
qed (use struct_invD [OF I] in auto)

lemma struct_inv_in:
  assumes I: "struct_inv fs vs ts h0 D os h" and T: "map_of fs F = Some T"
  obtains x t where "map_of vs F = Some x" and "map_of ts F = Some t" and "denotes T h 0 x t"
proof -
  from struct_invD(4) [OF I map_of_SomeD [OF T]]
  obtain x t where "map_of vs F = Some x" "map_of ts F = Some t" "denotes T h0 0 x t"
    by (auto simp: at_key_iff)
  with denotes_prefix [OF _ struct_invD(1) [OF I] order_refl] show thesis by (rule_tac that) auto
qed

lemma run_step_copied:
  assumes I: "struct_inv fs vs ts h0 D os h" and d: "distinct (map fst fs)"
    and T: "map_of fs F = Some T" and t: "map_of ts F = Some t" and c: "copies T f h x t"
  shows "\<exists>os' h'. do { (y, h') \<leftarrow> f x h; out' \<leftarrow> set_field F y (StructV os); Some (out', h') } =
      Some (StructV os', h') \<and> struct_inv fs vs ts h0 (insert F D) os' h'"
proof -
  from c obtain y h' where f: "f x h = Some (y, h')" "prefix h h'" "denotes T h' (length h) y t"
    by (rule copiesE)
  have "denotes T h' (length h0) y t"
    using denotes_prefix [OF f(3) prefix_order.order_refl prefix_length_le [OF struct_invD(1) [OF I]]] .
  from struct_inv_put [OF I d T t this f(2)] field_in_keys [OF struct_invD(2) [OF I] T]
  show ?thesis by (auto simp: f(1))
qed

lemma run_step_inv:
  assumes I: "struct_inv fs vs ts h0 D os h" and d: "distinct (map fst fs)" and ok: "step_ok fs st"
  shows "\<exists>os' h'. run_step (StructV vs) st (StructV os, h) = Some (StructV os', h') \<and>
    struct_inv fs vs ts h0 (insert (step_field st) D) os' h'"
proof (cases st)
  case (IfNotNil F f)
  with ok obtain T where T: "map_of fs F = Some T" "deep_copier T f" by auto
  from I T(1) obtain x t where x: "map_of vs F = Some x" "map_of ts F = Some t" "denotes T h 0 x t"
    by (rule struct_inv_in)
  show ?thesis
  proof (cases "x = NilV")
    case True
    with struct_inv_nil [OF I] x IfNotNil show ?thesis by auto
  next
    case False
    with run_step_copied [OF I d T(1) x(2) deep_copier.copies_nonnil [OF T(2) x(3)]] x IfNotNil
    show ?thesis by simp
  qed
next
  case (Always F f)
  with ok obtain T where T: "map_of fs F = Some T" "total_copier T f" by auto
  from I T(1) obtain x t where x: "map_of vs F = Some x" "map_of ts F = Some t" "denotes T h 0 x t"
    by (rule struct_inv_in)
  from run_step_copied [OF I d T(1) x(2) total_copier.copies_all [OF T(2) x(3)]] x Always
  show ?thesis by simp
qed

lemma run_steps_inv:
  assumes "distinct (map fst fs)" and "list_all (step_ok fs) sts" and "struct_inv fs vs ts h0 D os h"
  shows "\<exists>os' h'. run_steps (StructV vs) sts (StructV os, h) = Some (StructV os', h') \<and>
    struct_inv fs vs ts h0 (step_field ` set sts \<union> D) os' h'"
  using assms
proof (induction sts arbitrary: D os h)
  case Nil
  then show ?case by simp
next
  case (Cons st sts)
  then obtain os1 h1 where s: "run_step (StructV vs) st (StructV os, h) = Some (StructV os1, h1)"
    "struct_inv fs vs ts h0 (insert (step_field st) D) os1 h1"
    using run_step_inv [of fs vs ts h0 D os h st] by auto
  with Cons.IH [of "insert (step_field st) D" os1 h1] Cons.prems show ?case by auto
qed

lemma total_copier_struct:
  assumes "distinct (map fst fs)" and "list_all (step_ok fs) sts"
    and "list_all (\<lambda>(F, T). F \<in> step_field ` set sts \<or> flat T) fs"
  shows "total_copier (StructT fs) (copy_struct sts)"
proof
  fix h v t
  assume "denotes (StructT fs) h 0 v t"
  then obtain vs ts where v: "v = StructV vs" "t = StructN ts"
    and k: "map fst vs = map fst fs" "map fst ts = map fst fs"
    and a: "\<And>F T. (F, T) \<in> set fs \<Longrightarrow> at_key (denotes T h 0) vs ts F"
    unfolding denotes_Struct_iff by blast
  have "struct_inv fs vs ts h {} vs h" by (rule struct_invI) (use k a in auto)
  then obtain os h' where r: "run_steps (StructV vs) sts (StructV vs, h) = Some (StructV os, h')"
    "struct_inv fs vs ts h (step_field ` set sts) os h'"
    using run_steps_inv [OF assms(1,2), of vs ts h "{}" vs h] by auto
  have "at_key (denotes T h' (length h)) os ts F" if "(F, T) \<in> set fs" for F T
  proof (cases "F \<in> step_field ` set sts")
    case True
    with struct_invD(5) [OF r(2) that] show ?thesis by simp
  next
    case False
    then have "flat T" using assms(3) that by (auto simp: list_all_iff)
    from denotes_flat [OF this] struct_invD(5) [OF r(2) that] False show ?thesis
      by (simp add: at_key_iff) blast
  qed
  with r k struct_invD(1,2) [OF r(2)] show "copies (StructT fs) (copy_struct sts) h v t"
    by (intro copiesI [of _ _ _ "StructV os" h'])
      (auto simp: copy_struct_def v denotes_Struct_iff)
qed

end
