(* ===== verification/DeepCopy.thy ===== *)
theory DeepCopy
  imports CopyRules
begin

section \<open>The deep copies of the custom resources\<close>

text \<open>
  \<open>api/v1alpha1/zz_generated.deepcopy.go\<close>: for each struct of the API the descriptor of its
  type (its fields as declared in \<open>appbundle_types.go\<close> and \<open>appbundlebase_types.go\<close>),
  the statements of its \<open>DeepCopyInto\<close> in the order of the code, and its \<open>DeepCopy\<close>. The
  string types of the Kubernetes API (pull policy, protocol, service type) are strings. The
  Kubernetes structs inside a resource and their copiers are third-party code: they are the
  parameter \<open>k8s\<close>, and the locale \<open>k8s_copiers\<close> states that each copier is a deep copier
  for its type. Under it every copier of the file is one.
\<close>

abbreviation StringT :: ty where "StringT \<equiv> BaseT StringB"
abbreviation BoolT :: ty where "BoolT \<equiv> BaseT BoolB"
abbreviation IntT :: ty where "IntT \<equiv> BaseT IntB"
abbreviation Int32T :: ty where "Int32T \<equiv> BaseT Int32B"

record k8s =
  ObjectMeta_type :: ty
  ObjectMeta_copy :: copier
  ListMeta_type :: ty
  ListMeta_copy :: copier
  ResourceRequirements_type :: ty
  ResourceRequirements_copy :: copier
  LabelSelector_type :: ty
  LabelSelector_copy :: copier
  Probe_type :: ty
  Probe_copy :: copier

definition TypeMeta_type :: ty where
  "TypeMeta_type = StructT [(''Kind'', StringT), (''APIVersion'', StringT)]"

subsection \<open>The parts of a specification\<close>

definition AppBundleConfig_type :: ty where
  "AppBundleConfig_type = StructT
    [(''FileName'', StringT),
     (''Content'', StringT),
     (''Existing'', PtrT StringT),
     (''Secrets'', MapT StringT),
     (''DirPath'', StringT),
     (''CopyOver'', PtrT BoolT)]"

definition DeepCopyInto_AppBundleConfig :: copier where
  "DeepCopyInto_AppBundleConfig = copy_struct
    [IfNotNil ''Existing'' (copy_ptr StringT assign),
     IfNotNil ''Secrets'' (copy_map assign),
     IfNotNil ''CopyOver'' (copy_ptr BoolT assign)]"

definition DeepCopy_AppBundleConfig :: copier where
  "DeepCopy_AppBundleConfig = DeepCopy AppBundleConfig_type DeepCopyInto_AppBundleConfig"

definition AppBundleSourcedEnv_type :: ty where
  "AppBundleSourcedEnv_type = StructT
    [(''ExternalSecret'', StringT),
     (''Secret'', StringT),
     (''ConfigMap'', StringT),
     (''Key'', StringT)]"

definition DeepCopyInto_AppBundleSourcedEnv :: copier where
  "DeepCopyInto_AppBundleSourcedEnv = copy_struct []"

definition DeepCopy_AppBundleSourcedEnv :: copier where
  "DeepCopy_AppBundleSourcedEnv =
     DeepCopy AppBundleSourcedEnv_type DeepCopyInto_AppBundleSourcedEnv"

definition AppBundleImage_type :: ty where
  "AppBundleImage_type = StructT
    [(''Repository'', PtrT StringT),
     (''Tag'', PtrT StringT),
     (''PullPolicy'', PtrT StringT)]"

definition DeepCopyInto_AppBundleImage :: copier where
  "DeepCopyInto_AppBundleImage = copy_struct
    [IfNotNil ''Repository'' (copy_ptr StringT assign),
     IfNotNil ''Tag'' (copy_ptr StringT assign),
     IfNotNil ''PullPolicy'' (copy_ptr StringT assign)]"

definition DeepCopy_AppBundleImage :: copier where
  "DeepCopy_AppBundleImage = DeepCopy AppBundleImage_type DeepCopyInto_AppBundleImage"

definition AppBundleRouteIngress_type :: ty where
  "AppBundleRouteIngress_type = StructT
    [(''Domain'', PtrT StringT),
     (''Auth'', PtrT BoolT)]"

definition DeepCopyInto_AppBundleRouteIngress :: copier where
  "DeepCopyInto_AppBundleRouteIngress = copy_struct
    [IfNotNil ''Domain'' (copy_ptr StringT assign),
     IfNotNil ''Auth'' (copy_ptr BoolT assign)]"

definition DeepCopy_AppBundleRouteIngress :: copier where
  "DeepCopy_AppBundleRouteIngress =
     DeepCopy AppBundleRouteIngress_type DeepCopyInto_AppBundleRouteIngress"

definition AppBundleRoute_type :: ty where
  "AppBundleRoute_type = StructT
    [(''Port'', PtrT IntT),
     (''TargetPort'', PtrT IntT),
     (''Protocol'', PtrT StringT),
     (''Ingress'', PtrT AppBundleRouteIngress_type)]"

definition DeepCopyInto_AppBundleRoute :: copier where
  "DeepCopyInto_AppBundleRoute = copy_struct
    [IfNotNil ''Port'' (copy_ptr IntT assign),
     IfNotNil ''TargetPort'' (copy_ptr IntT assign),
     IfNotNil ''Protocol'' (copy_ptr StringT assign),
     IfNotNil ''Ingress'' (copy_ptr AppBundleRouteIngress_type DeepCopyInto_AppBundleRouteIngress)]"

definition DeepCopy_AppBundleRoute :: copier where
  "DeepCopy_AppBundleRoute = DeepCopy AppBundleRoute_type DeepCopyInto_AppBundleRoute"

definition AppBundleHomePage_type :: ty where
  "AppBundleHomePage_type = StructT
    [(''Description'', PtrT StringT),
     (''Section'', PtrT StringT),
     (''Href'', PtrT StringT),
     (''Icon'', PtrT StringT),
     (''Name'', PtrT StringT),
     (''Groups'', PtrT StringT)]"

definition DeepCopyInto_AppBundleHomePage :: copier where
  "DeepCopyInto_AppBundleHomePage = copy_struct
    [IfNotNil ''Description'' (copy_ptr StringT assign),
     IfNotNil ''Section'' (copy_ptr StringT assign),
     IfNotNil ''Href'' (copy_ptr StringT assign),
     IfNotNil ''Icon'' (copy_ptr StringT assign),
     IfNotNil ''Name'' (copy_ptr StringT assign),
     IfNotNil ''Groups'' (copy_ptr StringT assign)]"

definition DeepCopy_AppBundleHomePage :: copier where
  "DeepCopy_AppBundleHomePage = DeepCopy AppBundleHomePage_type DeepCopyInto_AppBundleHomePage"

definition AppBundleVolume_type :: ty where
  "AppBundleVolume_type = StructT
    [(''HostPath'', PtrT StringT),
     (''EmptyDir'', PtrT BoolT),
     (''Path'', PtrT StringT),
     (''Size'', PtrT StringT),
     (''StorageClass'', PtrT StringT),
     (''ExistingClaim'', PtrT StringT),
     (''Backup'', PtrT BoolT)]"

definition DeepCopyInto_AppBundleVolume :: copier where
  "DeepCopyInto_AppBundleVolume = copy_struct
    [IfNotNil ''HostPath'' (copy_ptr StringT assign),
     IfNotNil ''EmptyDir'' (copy_ptr BoolT assign),
     IfNotNil ''Path'' (copy_ptr StringT assign),
     IfNotNil ''Size'' (copy_ptr StringT assign),
     IfNotNil ''StorageClass'' (copy_ptr StringT assign),
     IfNotNil ''ExistingClaim'' (copy_ptr StringT assign),
     IfNotNil ''Backup'' (copy_ptr BoolT assign)]"

definition DeepCopy_AppBundleVolume :: copier where
  "DeepCopy_AppBundleVolume = DeepCopy AppBundleVolume_type DeepCopyInto_AppBundleVolume"

definition AppBundleVolumeLonghornBackup_type :: ty where
  "AppBundleVolumeLonghornBackup_type = StructT
    [(''Frequency'', PtrT StringT),
     (''Retain'', PtrT IntT)]"

definition DeepCopyInto_AppBundleVolumeLonghornBackup :: copier where
  "DeepCopyInto_AppBundleVolumeLonghornBackup = copy_struct
    [IfNotNil ''Frequency'' (copy_ptr StringT assign),
     IfNotNil ''Retain'' (copy_ptr IntT assign)]"

definition DeepCopy_AppBundleVolumeLonghornBackup :: copier where
  "DeepCopy_AppBundleVolumeLonghornBackup =
     DeepCopy AppBundleVolumeLonghornBackup_type DeepCopyInto_AppBundleVolumeLonghornBackup"

subsection \<open>AppBundle\<close>

definition AppBundleStatus_type :: ty where
  "AppBundleStatus_type = StructT
    [(''LastReconciliation'', PtrT StringT)]"

definition DeepCopyInto_AppBundleStatus :: copier where
  "DeepCopyInto_AppBundleStatus = copy_struct
    [IfNotNil ''LastReconciliation'' (copy_ptr StringT assign)]"

definition DeepCopy_AppBundleStatus :: copier where
  "DeepCopy_AppBundleStatus = DeepCopy AppBundleStatus_type DeepCopyInto_AppBundleStatus"

definition AppBundleSpec_type :: "k8s \<Rightarrow> ty" where
  "AppBundleSpec_type K = StructT
    [(''Base'', PtrT StringT),
     (''Image'', PtrT AppBundleImage_type),
     (''NodeSelector'', PtrT (MapT StringT)),
     (''UseNvidia'', PtrT BoolT),
     (''Replicas'', PtrT Int32T),
     (''Resources'', PtrT (ResourceRequirements_type K)),
     (''Envs'', MapT StringT),
     (''SecretStoreRef'', PtrT StringT),
     (''SourcedEnvs'', MapT AppBundleSourcedEnv_type),
     (''ServiceType'', PtrT StringT),
     (''Routes'', MapT AppBundleRoute_type),
     (''Homepage'', PtrT AppBundleHomePage_type),
     (''Volumes'', MapT AppBundleVolume_type),
     (''Backup'', PtrT AppBundleVolumeLonghornBackup_type),
     (''Selector'', PtrT (LabelSelector_type K)),
     (''LivenessProbe'', PtrT (Probe_type K)),
     (''ReadinessProbe'', PtrT (Probe_type K)),
     (''StartupProbe'', PtrT (Probe_type K)),
     (''TailscaleName'', PtrT StringT),
     (''Command'', SliceT (PtrT StringT)),
     (''Args'', SliceT (PtrT StringT)),
     (''Configs'', MapT AppBundleConfig_type)]"

definition DeepCopyInto_AppBundleSpec :: "k8s \<Rightarrow> copier" where
  "DeepCopyInto_AppBundleSpec K = copy_struct
    [IfNotNil ''Base'' (copy_ptr StringT assign),
     IfNotNil ''Image'' (copy_ptr AppBundleImage_type DeepCopyInto_AppBundleImage),
     IfNotNil ''NodeSelector'' (copy_ptr (MapT StringT) (guarded (copy_map assign))),
     IfNotNil ''UseNvidia'' (copy_ptr BoolT assign),
     IfNotNil ''Replicas'' (copy_ptr Int32T assign),
     IfNotNil ''Resources'' (copy_ptr (ResourceRequirements_type K) (ResourceRequirements_copy K)),
     IfNotNil ''Envs'' (copy_map assign),
     IfNotNil ''SecretStoreRef'' (copy_ptr StringT assign),
     IfNotNil ''SourcedEnvs'' (copy_map assign),
     IfNotNil ''ServiceType'' (copy_ptr StringT assign),
     IfNotNil ''Routes'' (copy_map (copy_value AppBundleRoute_type DeepCopyInto_AppBundleRoute)),
     IfNotNil ''Homepage'' (copy_ptr AppBundleHomePage_type DeepCopyInto_AppBundleHomePage),
     IfNotNil ''Volumes'' (copy_map (copy_value AppBundleVolume_type DeepCopyInto_AppBundleVolume)),
     IfNotNil ''Backup''
       (copy_ptr AppBundleVolumeLonghornBackup_type DeepCopyInto_AppBundleVolumeLonghornBackup),
     IfNotNil ''Selector'' (copy_ptr (LabelSelector_type K) (LabelSelector_copy K)),
     IfNotNil ''LivenessProbe'' (copy_ptr (Probe_type K) (Probe_copy K)),
     IfNotNil ''ReadinessProbe'' (copy_ptr (Probe_type K) (Probe_copy K)),
     IfNotNil ''StartupProbe'' (copy_ptr (Probe_type K) (Probe_copy K)),
     IfNotNil ''TailscaleName'' (copy_ptr StringT assign),
     IfNotNil ''Command'' (copy_slice (PtrT StringT) (guarded (copy_ptr StringT assign))),
     IfNotNil ''Args'' (copy_slice (PtrT StringT) (guarded (copy_ptr StringT assign))),
     IfNotNil ''Configs''
       (copy_map (copy_value AppBundleConfig_type DeepCopyInto_AppBundleConfig))]"

definition DeepCopy_AppBundleSpec :: "k8s \<Rightarrow> copier" where
  "DeepCopy_AppBundleSpec K = DeepCopy (AppBundleSpec_type K) (DeepCopyInto_AppBundleSpec K)"

definition AppBundle_type :: "k8s \<Rightarrow> ty" where
  "AppBundle_type K = StructT
    [(''TypeMeta'', TypeMeta_type),
     (''ObjectMeta'', ObjectMeta_type K),
     (''Spec'', AppBundleSpec_type K),
     (''Status'', AppBundleStatus_type)]"

definition DeepCopyInto_AppBundle :: "k8s \<Rightarrow> copier" where
  "DeepCopyInto_AppBundle K = copy_struct
    [Always ''TypeMeta'' assign,
     Always ''ObjectMeta'' (ObjectMeta_copy K),
     Always ''Spec'' (DeepCopyInto_AppBundleSpec K),
     Always ''Status'' DeepCopyInto_AppBundleStatus]"

definition DeepCopy_AppBundle :: "k8s \<Rightarrow> copier" where
  "DeepCopy_AppBundle K = DeepCopy (AppBundle_type K) (DeepCopyInto_AppBundle K)"

definition AppBundleList_type :: "k8s \<Rightarrow> ty" where
  "AppBundleList_type K = StructT
    [(''TypeMeta'', TypeMeta_type),
     (''ListMeta'', ListMeta_type K),
     (''Items'', SliceT (AppBundle_type K))]"

definition DeepCopyInto_AppBundleList :: "k8s \<Rightarrow> copier" where
  "DeepCopyInto_AppBundleList K = copy_struct
    [Always ''TypeMeta'' assign,
     Always ''ListMeta'' (ListMeta_copy K),
     IfNotNil ''Items'' (copy_slice (AppBundle_type K) (DeepCopyInto_AppBundle K))]"

definition DeepCopy_AppBundleList :: "k8s \<Rightarrow> copier" where
  "DeepCopy_AppBundleList K = DeepCopy (AppBundleList_type K) (DeepCopyInto_AppBundleList K)"

subsection \<open>AppBundleBase\<close>

definition AppBundleBaseStatus_type :: ty where
  "AppBundleBaseStatus_type = StructT
    [(''LastReconciliation'', PtrT StringT)]"

definition DeepCopyInto_AppBundleBaseStatus :: copier where
  "DeepCopyInto_AppBundleBaseStatus = copy_struct
    [IfNotNil ''LastReconciliation'' (copy_ptr StringT assign)]"

definition DeepCopy_AppBundleBaseStatus :: copier where
  "DeepCopy_AppBundleBaseStatus =
     DeepCopy AppBundleBaseStatus_type DeepCopyInto_AppBundleBaseStatus"

definition AppBundleBaseSpec_type :: "k8s \<Rightarrow> ty" where
  "AppBundleBaseSpec_type K = StructT
    [(''Base'', PtrT StringT),
     (''Image'', PtrT AppBundleImage_type),
     (''NodeSelector'', PtrT (MapT StringT)),
     (''UseNvidia'', PtrT BoolT),
     (''Replicas'', PtrT Int32T),
     (''Resources'', PtrT (ResourceRequirements_type K)),
     (''Envs'', MapT StringT),
     (''SecretStoreRef'', PtrT StringT),
     (''SourcedEnvs'', MapT AppBundleSourcedEnv_type),
     (''ServiceType'', PtrT StringT),
     (''Routes'', MapT AppBundleRoute_type),
     (''Homepage'', PtrT AppBundleHomePage_type),
     (''Volumes'', MapT AppBundleVolume_type),
     (''Backup'', PtrT AppBundleVolumeLonghornBackup_type),
     (''Selector'', PtrT (LabelSelector_type K)),
     (''LivenessProbe'', PtrT (Probe_type K)),
     (''ReadinessProbe'', PtrT (Probe_type K)),
     (''StartupProbe'', PtrT (Probe_type K)),
     (''Command'', SliceT (PtrT StringT)),
     (''Args'', SliceT (PtrT StringT)),
     (''Configs'', MapT AppBundleConfig_type)]"

definition DeepCopyInto_AppBundleBaseSpec :: "k8s \<Rightarrow> copier" where
  "DeepCopyInto_AppBundleBaseSpec K = copy_struct
    [IfNotNil ''Base'' (copy_ptr StringT assign),
     IfNotNil ''Image'' (copy_ptr AppBundleImage_type DeepCopyInto_AppBundleImage),
     IfNotNil ''NodeSelector'' (copy_ptr (MapT StringT) (guarded (copy_map assign))),
     IfNotNil ''UseNvidia'' (copy_ptr BoolT assign),
     IfNotNil ''Replicas'' (copy_ptr Int32T assign),
     IfNotNil ''Resources'' (copy_ptr (ResourceRequirements_type K) (ResourceRequirements_copy K)),
     IfNotNil ''Envs'' (copy_map assign),
     IfNotNil ''SecretStoreRef'' (copy_ptr StringT assign),
     IfNotNil ''SourcedEnvs'' (copy_map assign),
     IfNotNil ''ServiceType'' (copy_ptr StringT assign),
     IfNotNil ''Routes'' (copy_map (copy_value AppBundleRoute_type DeepCopyInto_AppBundleRoute)),
     IfNotNil ''Homepage'' (copy_ptr AppBundleHomePage_type DeepCopyInto_AppBundleHomePage),
     IfNotNil ''Volumes'' (copy_map (copy_value AppBundleVolume_type DeepCopyInto_AppBundleVolume)),
     IfNotNil ''Backup''
       (copy_ptr AppBundleVolumeLonghornBackup_type DeepCopyInto_AppBundleVolumeLonghornBackup),
     IfNotNil ''Selector'' (copy_ptr (LabelSelector_type K) (LabelSelector_copy K)),
     IfNotNil ''LivenessProbe'' (copy_ptr (Probe_type K) (Probe_copy K)),
     IfNotNil ''ReadinessProbe'' (copy_ptr (Probe_type K) (Probe_copy K)),
     IfNotNil ''StartupProbe'' (copy_ptr (Probe_type K) (Probe_copy K)),
     IfNotNil ''Command'' (copy_slice (PtrT StringT) (guarded (copy_ptr StringT assign))),
     IfNotNil ''Args'' (copy_slice (PtrT StringT) (guarded (copy_ptr StringT assign))),
     IfNotNil ''Configs''
       (copy_map (copy_value AppBundleConfig_type DeepCopyInto_AppBundleConfig))]"

definition DeepCopy_AppBundleBaseSpec :: "k8s \<Rightarrow> copier" where
  "DeepCopy_AppBundleBaseSpec K =
     DeepCopy (AppBundleBaseSpec_type K) (DeepCopyInto_AppBundleBaseSpec K)"

definition AppBundleBase_type :: "k8s \<Rightarrow> ty" where
  "AppBundleBase_type K = StructT
    [(''TypeMeta'', TypeMeta_type),
     (''ObjectMeta'', ObjectMeta_type K),
     (''Spec'', AppBundleBaseSpec_type K),
     (''Status'', AppBundleBaseStatus_type)]"

definition DeepCopyInto_AppBundleBase :: "k8s \<Rightarrow> copier" where
  "DeepCopyInto_AppBundleBase K = copy_struct
    [Always ''TypeMeta'' assign,
     Always ''ObjectMeta'' (ObjectMeta_copy K),
     Always ''Spec'' (DeepCopyInto_AppBundleBaseSpec K),
     Always ''Status'' DeepCopyInto_AppBundleBaseStatus]"

definition DeepCopy_AppBundleBase :: "k8s \<Rightarrow> copier" where
  "DeepCopy_AppBundleBase K = DeepCopy (AppBundleBase_type K) (DeepCopyInto_AppBundleBase K)"

definition AppBundleBaseList_type :: "k8s \<Rightarrow> ty" where
  "AppBundleBaseList_type K = StructT
    [(''TypeMeta'', TypeMeta_type),
     (''ListMeta'', ListMeta_type K),
     (''Items'', SliceT (AppBundleBase_type K))]"

definition DeepCopyInto_AppBundleBaseList :: "k8s \<Rightarrow> copier" where
  "DeepCopyInto_AppBundleBaseList K = copy_struct
    [Always ''TypeMeta'' assign,
     Always ''ListMeta'' (ListMeta_copy K),
     IfNotNil ''Items'' (copy_slice (AppBundleBase_type K) (DeepCopyInto_AppBundleBase K))]"

definition DeepCopy_AppBundleBaseList :: "k8s \<Rightarrow> copier" where
  "DeepCopy_AppBundleBaseList K =
     DeepCopy (AppBundleBaseList_type K) (DeepCopyInto_AppBundleBaseList K)"

subsection \<open>Every copier of the file is a deep copier\<close>

text \<open>The rules of the idioms, in the form in which the simplifier applies them to a body.\<close>

named_theorems copier_rules

lemma total_copier_base [copier_rules]: "total_copier (BaseT b) assign"
  by (rule total_copier_assign) simp

lemmas [copier_rules] =
  total_copier.deep_copier_ptr total_copier.deep_copier_map total_copier.deep_copier_slice
  total_copier.total_copier_value deep_copier.total_copier_guarded

lemma flat_TypeMeta: "flat TypeMeta_type"
  by (simp add: TypeMeta_type_def)

lemma flat_SourcedEnv: "flat AppBundleSourcedEnv_type"
  by (simp add: AppBundleSourcedEnv_type_def)

lemmas [copier_rules] =
  total_copier_assign [OF flat_TypeMeta] total_copier_assign [OF flat_SourcedEnv]

interpretation config_copy: total_copier AppBundleConfig_type DeepCopyInto_AppBundleConfig
  unfolding AppBundleConfig_type_def DeepCopyInto_AppBundleConfig_def
  by (rule total_copier_struct) (simp_all add: copier_rules)

interpretation sourced_env_copy: total_copier AppBundleSourcedEnv_type DeepCopyInto_AppBundleSourcedEnv
  unfolding AppBundleSourcedEnv_type_def DeepCopyInto_AppBundleSourcedEnv_def
  by (rule total_copier_struct) (simp_all add: copier_rules)

interpretation image_copy: total_copier AppBundleImage_type DeepCopyInto_AppBundleImage
  unfolding AppBundleImage_type_def DeepCopyInto_AppBundleImage_def
  by (rule total_copier_struct) (simp_all add: copier_rules)

interpretation route_ingress_copy: total_copier AppBundleRouteIngress_type DeepCopyInto_AppBundleRouteIngress
  unfolding AppBundleRouteIngress_type_def DeepCopyInto_AppBundleRouteIngress_def
  by (rule total_copier_struct) (simp_all add: copier_rules)

lemmas [copier_rules] = route_ingress_copy.total_copier_axioms

interpretation route_copy: total_copier AppBundleRoute_type DeepCopyInto_AppBundleRoute
  unfolding AppBundleRoute_type_def DeepCopyInto_AppBundleRoute_def
  by (rule total_copier_struct) (simp_all add: copier_rules)

interpretation homepage_copy: total_copier AppBundleHomePage_type DeepCopyInto_AppBundleHomePage
  unfolding AppBundleHomePage_type_def DeepCopyInto_AppBundleHomePage_def
  by (rule total_copier_struct) (simp_all add: copier_rules)

interpretation volume_copy: total_copier AppBundleVolume_type DeepCopyInto_AppBundleVolume
  unfolding AppBundleVolume_type_def DeepCopyInto_AppBundleVolume_def
  by (rule total_copier_struct) (simp_all add: copier_rules)

interpretation backup_copy: total_copier AppBundleVolumeLonghornBackup_type DeepCopyInto_AppBundleVolumeLonghornBackup
  unfolding AppBundleVolumeLonghornBackup_type_def DeepCopyInto_AppBundleVolumeLonghornBackup_def
  by (rule total_copier_struct) (simp_all add: copier_rules)

interpretation status_copy: total_copier AppBundleStatus_type DeepCopyInto_AppBundleStatus
  unfolding AppBundleStatus_type_def DeepCopyInto_AppBundleStatus_def
  by (rule total_copier_struct) (simp_all add: copier_rules)

interpretation base_status_copy: total_copier AppBundleBaseStatus_type DeepCopyInto_AppBundleBaseStatus
  unfolding AppBundleBaseStatus_type_def DeepCopyInto_AppBundleBaseStatus_def
  by (rule total_copier_struct) (simp_all add: copier_rules)

lemmas [copier_rules] =
  config_copy.total_copier_axioms image_copy.total_copier_axioms route_copy.total_copier_axioms
  homepage_copy.total_copier_axioms volume_copy.total_copier_axioms
  backup_copy.total_copier_axioms status_copy.total_copier_axioms
  base_status_copy.total_copier_axioms

locale k8s_copiers =
  fixes K :: k8s
  assumes ObjectMeta_copier: "total_copier (ObjectMeta_type K) (ObjectMeta_copy K)"
    and ListMeta_copier: "total_copier (ListMeta_type K) (ListMeta_copy K)"
    and ResourceRequirements_copier:
      "total_copier (ResourceRequirements_type K) (ResourceRequirements_copy K)"
    and LabelSelector_copier: "total_copier (LabelSelector_type K) (LabelSelector_copy K)"
    and Probe_copier: "total_copier (Probe_type K) (Probe_copy K)"

sublocale k8s_copiers \<subseteq> spec: total_copier "AppBundleSpec_type K" "DeepCopyInto_AppBundleSpec K"
  unfolding AppBundleSpec_type_def DeepCopyInto_AppBundleSpec_def
  by (rule total_copier_struct) (simp_all add: copier_rules ResourceRequirements_copier LabelSelector_copier Probe_copier)

sublocale k8s_copiers \<subseteq> app: total_copier "AppBundle_type K" "DeepCopyInto_AppBundle K"
  unfolding AppBundle_type_def DeepCopyInto_AppBundle_def
  by (rule total_copier_struct) (simp_all add: copier_rules ObjectMeta_copier spec.total_copier_axioms)

sublocale k8s_copiers \<subseteq> app_list: total_copier "AppBundleList_type K" "DeepCopyInto_AppBundleList K"
  unfolding AppBundleList_type_def DeepCopyInto_AppBundleList_def
  by (rule total_copier_struct) (simp_all add: copier_rules ListMeta_copier app.total_copier_axioms)

sublocale k8s_copiers \<subseteq> base_spec: total_copier "AppBundleBaseSpec_type K" "DeepCopyInto_AppBundleBaseSpec K"
  unfolding AppBundleBaseSpec_type_def DeepCopyInto_AppBundleBaseSpec_def
  by (rule total_copier_struct) (simp_all add: copier_rules ResourceRequirements_copier LabelSelector_copier Probe_copier)

sublocale k8s_copiers \<subseteq> base: total_copier "AppBundleBase_type K" "DeepCopyInto_AppBundleBase K"
  unfolding AppBundleBase_type_def DeepCopyInto_AppBundleBase_def
  by (rule total_copier_struct) (simp_all add: copier_rules ObjectMeta_copier base_spec.total_copier_axioms)

sublocale k8s_copiers \<subseteq> base_list: total_copier "AppBundleBaseList_type K" "DeepCopyInto_AppBundleBaseList K"
  unfolding AppBundleBaseList_type_def DeepCopyInto_AppBundleBaseList_def
  by (rule total_copier_struct) (simp_all add: copier_rules ListMeta_copier base.total_copier_axioms)

end
