(* ===== verification/DeepCopyObjects.thy ===== *)
theory DeepCopyObjects
  imports DeepCopy
begin

section \<open>Deep copies as runtime objects\<close>

text \<open>
  The method \<open>DeepCopyObject\<close> of the four types that Kubernetes stores, through which the
  client library copies an object out of its shared cache before a reconciliation works on
  it. \<open>copy_ty\<close> is a deep copier for any type, made of the same idioms; with it the parameter
  \<open>k8s\<close> has an instance, \<open>sample_k8s\<close>, and the locale of the previous theory an interpretation.
\<close>

datatype root = AppBundleR | AppBundleBaseR | AppBundleListR | AppBundleBaseListR

fun root_type :: "k8s \<Rightarrow> root \<Rightarrow> ty" where
  "root_type K AppBundleR = AppBundle_type K"
| "root_type K AppBundleBaseR = AppBundleBase_type K"
| "root_type K AppBundleListR = AppBundleList_type K"
| "root_type K AppBundleBaseListR = AppBundleBaseList_type K"

text \<open>
  An interface value: nil, or a value with its dynamic type. A nil pointer inside an
  interface is not the nil interface, which is why the code tests the copy.
\<close>

datatype runtime_object = NilObject | Object root gval

definition DeepCopyObject_AppBundle :: "k8s \<Rightarrow> gval \<Rightarrow> heap \<Rightarrow> (runtime_object \<times> heap) option" where
  "DeepCopyObject_AppBundle K v h = do {
     (c, h') \<leftarrow> DeepCopy_AppBundle K v h;
     Some (if c \<noteq> NilV then Object AppBundleR c else NilObject, h') }"

definition DeepCopyObject_AppBundleBase :: "k8s \<Rightarrow> gval \<Rightarrow> heap \<Rightarrow> (runtime_object \<times> heap) option" where
  "DeepCopyObject_AppBundleBase K v h = do {
     (c, h') \<leftarrow> DeepCopy_AppBundleBase K v h;
     Some (if c \<noteq> NilV then Object AppBundleBaseR c else NilObject, h') }"

definition DeepCopyObject_AppBundleList :: "k8s \<Rightarrow> gval \<Rightarrow> heap \<Rightarrow> (runtime_object \<times> heap) option" where
  "DeepCopyObject_AppBundleList K v h = do {
     (c, h') \<leftarrow> DeepCopy_AppBundleList K v h;
     Some (if c \<noteq> NilV then Object AppBundleListR c else NilObject, h') }"

definition DeepCopyObject_AppBundleBaseList :: "k8s \<Rightarrow> gval \<Rightarrow> heap \<Rightarrow> (runtime_object \<times> heap) option" where
  "DeepCopyObject_AppBundleBaseList K v h = do {
     (c, h') \<leftarrow> DeepCopy_AppBundleBaseList K v h;
     Some (if c \<noteq> NilV then Object AppBundleBaseListR c else NilObject, h') }"

fun DeepCopyObject :: "k8s \<Rightarrow> root \<Rightarrow> gval \<Rightarrow> heap \<Rightarrow> (runtime_object \<times> heap) option" where
  "DeepCopyObject K AppBundleR = DeepCopyObject_AppBundle K"
| "DeepCopyObject K AppBundleBaseR = DeepCopyObject_AppBundleBase K"
| "DeepCopyObject K AppBundleListR = DeepCopyObject_AppBundleList K"
| "DeepCopyObject K AppBundleBaseListR = DeepCopyObject_AppBundleBaseList K"

subsection \<open>A deep copier for any type\<close>

fun distinct_fields :: "ty \<Rightarrow> bool" where
  "distinct_fields (BaseT b) = True"
| "distinct_fields (PtrT T) = distinct_fields T"
| "distinct_fields (MapT T) = distinct_fields T"
| "distinct_fields (SliceT T) = distinct_fields T"
| "distinct_fields (StructT fs) = (distinct (map fst fs) \<and> list_all (\<lambda>(F, T). distinct_fields T) fs)"

fun copy_ty :: "ty \<Rightarrow> copier" where
  "copy_ty (BaseT b) = assign"
| "copy_ty (PtrT T) = guarded (copy_ptr T (copy_ty T))"
| "copy_ty (MapT T) = guarded (copy_map (copy_ty T))"
| "copy_ty (SliceT T) = guarded (copy_slice T (copy_ty T))"
| "copy_ty (StructT fs) = copy_struct (map (\<lambda>(F, T). Always F (copy_ty T)) fs)"

lemma total_copier_ty: "distinct_fields T \<Longrightarrow> total_copier T (copy_ty T)"
proof (induction T)
  case (StructT fs)
  have "step_ok fs (Always F (copy_ty T))" if "(F, T) \<in> set fs" for F T
  proof -
    have "map_of fs F = Some T" using StructT.prems that by simp
    moreover have "total_copier T (copy_ty T)"
      using StructT.IH [OF that, of T] StructT.prems that by (auto simp: list_all_iff)
    ultimately show ?thesis by simp
  qed
  moreover have "step_field ` set (map (\<lambda>(F, T). Always F (copy_ty T)) fs) = fst ` set fs"
    by (auto simp: image_image split_beta)
  ultimately show ?case
    using StructT.prems unfolding copy_ty.simps
    by (intro total_copier_struct) (force simp: list_all_iff)+
qed (simp_all add: copier_rules)

definition sample_k8s :: k8s where
  "sample_k8s =
    (let meta = StructT [(''Name'', StringT), (''Labels'', MapT StringT)];
       list_meta = StructT [(''ResourceVersion'', StringT)];
       resources = StructT [(''Limits'', MapT StringT), (''Requests'', MapT StringT)];
       selector = StructT [(''MatchLabels'', MapT StringT)];
       probe = StructT [(''PeriodSeconds'', Int32T), (''TerminationGracePeriodSeconds'', PtrT IntT)]
     in \<lparr>ObjectMeta_type = meta, ObjectMeta_copy = copy_ty meta,
       ListMeta_type = list_meta, ListMeta_copy = copy_ty list_meta,
       ResourceRequirements_type = resources, ResourceRequirements_copy = copy_ty resources,
       LabelSelector_type = selector, LabelSelector_copy = copy_ty selector,
       Probe_type = probe, Probe_copy = copy_ty probe\<rparr>)"

interpretation sample_copiers: k8s_copiers sample_k8s
  by (rule k8s_copiers.intro) (simp_all add: sample_k8s_def Let_def total_copier_ty del: copy_ty.simps)

subsection \<open>What DeepCopyObject promises\<close>

context k8s_copiers
begin

lemmas root_copiers =
  app.total_copier_DeepCopy base.total_copier_DeepCopy
  app_list.total_copier_DeepCopy base_list.total_copier_DeepCopy

lemma DeepCopyObject_spec:
  assumes "denotes (PtrT (root_type K r)) h 0 v t"
  obtains c h' where "DeepCopyObject K r v h = Some (if v = NilV then NilObject else Object r c, h')"
    and "prefix h h'" and "denotes (PtrT (root_type K r)) h' (length h) c t"
proof -
  have "\<exists>c h'. DeepCopyObject K r v h = Some (if c = NilV then NilObject else Object r c, h') \<and>
      prefix h h' \<and> denotes (PtrT (root_type K r)) h' (length h) c t"
    using assms
    by (cases r) (auto simp: DeepCopyObject_AppBundle_def DeepCopyObject_AppBundleBase_def
        DeepCopyObject_AppBundleList_def DeepCopyObject_AppBundleBaseList_def
        DeepCopy_AppBundle_def DeepCopy_AppBundleBase_def DeepCopy_AppBundleList_def
        DeepCopy_AppBundleBaseList_def
        dest!: root_copiers [THEN total_copier.copies_all] elim!: copiesE)
  then obtain c h' where c: "DeepCopyObject K r v h = Some (if c = NilV then NilObject else Object r c, h')"
    "prefix h h'" "denotes (PtrT (root_type K r)) h' (length h) c t"
    by blast
  moreover have "c = NilV \<longleftrightarrow> v = NilV"
    using assms c(3) by (auto simp: denotes_Ptr_iff)
  ultimately show thesis by (intro that [of c h']) simp_all
qed

end

subsection \<open>A sample heap\<close>

text \<open>A bundle with labels, one route, a command whose second word is nil, and two replicas.\<close>

definition sample_spec_value :: gval where
  "sample_spec_value = StructV
    [(''Base'', NilV),
     (''Image'', NilV),
     (''NodeSelector'', NilV),
     (''UseNvidia'', NilV),
     (''Replicas'', RefV 6),
     (''Resources'', NilV),
     (''Envs'', NilV),
     (''SecretStoreRef'', NilV),
     (''SourcedEnvs'', NilV),
     (''ServiceType'', NilV),
     (''Routes'', RefV 2),
     (''Homepage'', NilV),
     (''Volumes'', NilV),
     (''Backup'', NilV),
     (''Selector'', NilV),
     (''LivenessProbe'', NilV),
     (''ReadinessProbe'', NilV),
     (''StartupProbe'', NilV),
     (''TailscaleName'', NilV),
     (''Command'', SliceV 4 1 2),
     (''Args'', NilV),
     (''Configs'', NilV)]"

definition sample_spec_tree :: tree where
  "sample_spec_tree = StructN
    [(''Base'', NilN),
     (''Image'', NilN),
     (''NodeSelector'', NilN),
     (''UseNvidia'', NilN),
     (''Replicas'', PtrN (AtomN (Int32A 2))),
     (''Resources'', NilN),
     (''Envs'', NilN),
     (''SecretStoreRef'', NilN),
     (''SourcedEnvs'', NilN),
     (''ServiceType'', NilN),
     (''Routes'', MapN [(''web'', StructN [(''Port'', PtrN (AtomN (IntA 80))), (''TargetPort'', NilN),
        (''Protocol'', NilN), (''Ingress'', NilN)])]),
     (''Homepage'', NilN),
     (''Volumes'', NilN),
     (''Backup'', NilN),
     (''Selector'', NilN),
     (''LivenessProbe'', NilN),
     (''ReadinessProbe'', NilN),
     (''StartupProbe'', NilN),
     (''TailscaleName'', NilN),
     (''Command'', SliceN [PtrN (AtomN (StrA ''run'')), NilN]),
     (''Args'', NilN),
     (''Configs'', NilN)]"

definition sample_bundle_value :: gval where
  "sample_bundle_value = StructV
    [(''TypeMeta'', StructV [(''Kind'', AtomV (StrA ''AppBundle'')),
       (''APIVersion'', AtomV (StrA ''atro.xyz/v1alpha1''))]),
     (''ObjectMeta'', StructV [(''Name'', AtomV (StrA ''app'')), (''Labels'', RefV 1)]),
     (''Spec'', sample_spec_value),
     (''Status'', StructV [(''LastReconciliation'', NilV)])]"

definition sample_heap :: heap where
  "sample_heap =
    [Cell sample_bundle_value,
     MapO [(''team'', AtomV (StrA ''core''))],
     MapO [(''web'', StructV [(''Port'', RefV 3), (''TargetPort'', NilV), (''Protocol'', NilV),
       (''Ingress'', NilV)])],
     Cell (AtomV (IntA 80)),
     ArrayO [NilV, RefV 5, NilV],
     Cell (AtomV (StrA ''run'')),
     Cell (AtomV (Int32A 2))]"

definition sample_tree :: tree where
  "sample_tree = PtrN (StructN [(''TypeMeta'', StructN [(''Kind'', AtomN (StrA ''AppBundle'')),
       (''APIVersion'', AtomN (StrA ''atro.xyz/v1alpha1''))]),
     (''ObjectMeta'', StructN [(''Name'', AtomN (StrA ''app'')),
       (''Labels'', MapN [(''team'', AtomN (StrA ''core''))])]),
     (''Spec'', sample_spec_tree),
     (''Status'', StructN [(''LastReconciliation'', NilN)])])"

lemma sample_lookup:
  "lookup_obj sample_heap 0 = Some (Cell sample_bundle_value)"
  "lookup_obj sample_heap (Suc 0) = Some (MapO [(''team'', AtomV (StrA ''core''))])"
  "lookup_obj sample_heap 2 = Some (MapO [(''web'', StructV [(''Port'', RefV 3),
     (''TargetPort'', NilV), (''Protocol'', NilV), (''Ingress'', NilV)])])"
  "lookup_obj sample_heap 3 = Some (Cell (AtomV (IntA 80)))"
  "lookup_obj sample_heap 4 = Some (ArrayO [NilV, RefV 5, NilV])"
  "lookup_obj sample_heap 5 = Some (Cell (AtomV (StrA ''run'')))"
  "lookup_obj sample_heap 6 = Some (Cell (AtomV (Int32A 2)))"
  by (simp_all add: lookup_obj_def sample_heap_def)

lemma sample_spec_denotes:
  "denotes (AppBundleSpec_type sample_k8s) sample_heap 0 sample_spec_value sample_spec_tree"
  unfolding AppBundleSpec_type_def sample_spec_value_def sample_spec_tree_def
  by (rule denotes_StructI) (simp_all add: sample_lookup AppBundleRoute_type_def at_key_def
      wf_map_def denotes.simps)

lemma sample_ObjectMeta:
  "ObjectMeta_type sample_k8s = StructT [(''Name'', StringT), (''Labels'', MapT StringT)]"
  by (simp add: sample_k8s_def)

lemma sample_denotes:
  "denotes (PtrT (root_type sample_k8s AppBundleR)) sample_heap 0 (RefV 0) sample_tree"
  using sample_spec_denotes
  by (simp add: AppBundle_type_def sample_tree_def TypeMeta_type_def AppBundleStatus_type_def
      sample_bundle_value_def sample_ObjectMeta at_key_def sample_lookup wf_map_def denotes.simps)

subsection \<open>Properties\<close>

text \<open>C35. The deep copy of a stored object (an AppBundle, an AppBundleBase or a list of either)
  does not panic and is a copy: whatever value the object represents, however its parts are
  shared, \<open>DeepCopyObject\<close> returns an object of the same type that represents the same
  value, in which every pointer, map and slice has been allocated by the call, and it leaves
  every existing object as it was.
\<close>

theorem deep_copy_roundtrip:
  assumes "k8s_copiers K" and "denotes (PtrT (root_type K r)) h 0 v t" and "v \<noteq> NilV"
  shows "\<exists>c new. DeepCopyObject K r v h = Some (Object r c, h @ new) \<and>
    denotes (PtrT (root_type K r)) (h @ new) (length h) c t"
proof -
  obtain c h' where "DeepCopyObject K r v h = Some (if v = NilV then NilObject else Object r c, h')"
    and "prefix h h'" and "denotes (PtrT (root_type K r)) h' (length h) c t"
    by (rule k8s_copiers.DeepCopyObject_spec [OF assms(1,2)])
  with assms(3) show ?thesis by (auto simp: prefix_def)
qed

theorem deep_copy_roundtrip_witness:
  "\<exists>c new. DeepCopyObject sample_k8s AppBundleR (RefV 0) sample_heap =
      Some (Object AppBundleR c, sample_heap @ new) \<and>
    denotes (PtrT (root_type sample_k8s AppBundleR)) (sample_heap @ new) (length sample_heap) c sample_tree"
  by (rule deep_copy_roundtrip [OF sample_copiers.k8s_copiers_axioms sample_denotes]) simp

text \<open>C3. A deep copy and its original are independent: whatever a program writes afterwards to the objects
  that existed before the copy (the client library's cache), the copy still represents the
  value it was made of, and whatever it writes to the copy (as a reconciliation does when it
  merges a base into the bundle it fetched), the original still does.
\<close>

theorem deep_copy_independent:
  assumes "k8s_copiers K" and "denotes (PtrT (root_type K r)) h 0 v t"
    and "DeepCopyObject K r v h = Some (Object r c, h')"
  shows "(\<forall>h2. (\<forall>a\<ge>length h. lookup_obj h2 a = lookup_obj h' a) \<longrightarrow>
      denotes (PtrT (root_type K r)) h2 0 c t) \<and>
    (\<forall>h2. (\<forall>a<length h. lookup_obj h2 a = lookup_obj h' a) \<longrightarrow>
      denotes (PtrT (root_type K r)) h2 0 v t)"
proof -
  obtain c2 h3 where "DeepCopyObject K r v h = Some (if v = NilV then NilObject else Object r c2, h3)"
    and "prefix h h3" and "denotes (PtrT (root_type K r)) h3 (length h) c2 t"
    by (rule k8s_copiers.DeepCopyObject_spec [OF assms(1,2)])
  with assms(3) have p: "prefix h h'" and c: "denotes (PtrT (root_type K r)) h' (length h) c t"
    by (auto split: if_splits)
  have "denotes (PtrT (root_type K r)) h2 0 c t"
    if "\<forall>a\<ge>length h. lookup_obj h2 a = lookup_obj h' a" for h2
    using c by (rule denotes_frame) (use that in auto)
  moreover have "denotes (PtrT (root_type K r)) h2 0 v t"
    if "\<forall>a<length h. lookup_obj h2 a = lookup_obj h' a" for h2
  proof (rule denotes_frame [OF assms(2)])
    show "lookup_obj h2 a = Some o'" if "lookup_obj h a = Some o'" for a o'
      using lookup_prefix [OF p that] that \<open>\<forall>a<length h. lookup_obj h2 a = lookup_obj h' a\<close>
      by (auto simp: lookup_obj_def split: if_splits)
  qed simp
  ultimately show ?thesis by blast
qed

text \<open>The heap after the copy of the sample, for the witness.\<close>

lemma sample_copied:
  "\<exists>c h'. DeepCopyObject sample_k8s AppBundleR (RefV 0) sample_heap = Some (Object AppBundleR c, h')"
proof -
  obtain c h' where "DeepCopyObject sample_k8s AppBundleR (RefV 0) sample_heap =
      Some (if RefV 0 = NilV then NilObject else Object AppBundleR c, h')"
    by (rule k8s_copiers.DeepCopyObject_spec [OF sample_copiers.k8s_copiers_axioms sample_denotes])
  then show ?thesis by simp
qed

theorem deep_copy_independent_witness:
  "\<exists>c h'. DeepCopyObject sample_k8s AppBundleR (RefV 0) sample_heap = Some (Object AppBundleR c, h') \<and>
    (\<forall>h2. (\<forall>a\<ge>length sample_heap. lookup_obj h2 a = lookup_obj h' a) \<longrightarrow>
      denotes (PtrT (root_type sample_k8s AppBundleR)) h2 0 c sample_tree) \<and>
    (\<forall>h2. (\<forall>a<length sample_heap. lookup_obj h2 a = lookup_obj h' a) \<longrightarrow>
      denotes (PtrT (root_type sample_k8s AppBundleR)) h2 0 (RefV 0) sample_tree)"
proof -
  obtain c h' where c: "DeepCopyObject sample_k8s AppBundleR (RefV 0) sample_heap =
      Some (Object AppBundleR c, h')"
    using sample_copied by blast
  with deep_copy_independent [OF sample_copiers.k8s_copiers_axioms sample_denotes c]
  show ?thesis by blast
qed

text \<open>C36. The interface value that \<open>DeepCopyObject\<close> returns has the right type: it is the nil
  interface exactly when the receiver is a nil pointer (never an interface that holds a nil
  pointer, which a caller would take for an object), and otherwise it holds a non-nil pointer to a well-typed
  struct of the receiver's type; the values that existed keep their types.
\<close>

theorem deep_copy_typed:
  assumes "k8s_copiers K" and "denotes (PtrT (root_type K r)) h 0 v t" and "denotes T h n x u"
  shows "case DeepCopyObject K r v h of
      None \<Rightarrow> False
    | Some (NilObject, h') \<Rightarrow> v = NilV \<and> denotes T h' n x u
    | Some (Object r' c, h') \<Rightarrow> v \<noteq> NilV \<and> r' = r \<and> c \<noteq> NilV \<and> denotes T h' n x u \<and>
        denotes (PtrT (root_type K r')) h' 0 c t"
proof -
  obtain c h' where o: "DeepCopyObject K r v h = Some (if v = NilV then NilObject else Object r c, h')"
    and p: "prefix h h'" and c: "denotes (PtrT (root_type K r)) h' (length h) c t"
    by (rule k8s_copiers.DeepCopyObject_spec [OF assms(1,2)])
  have "c = NilV \<longleftrightarrow> v = NilV" using c assms(2) by (auto simp: denotes_Ptr_iff)
  moreover have "denotes T h' n x u" using assms(3) p order_refl by (rule denotes_prefix)
  moreover have "denotes (PtrT (root_type K r)) h' 0 c t"
    using denotes_prefix [OF c prefix_order.order_refl le0] .
  ultimately show ?thesis by (simp add: o)
qed

theorem deep_copy_typed_witness:
  "case DeepCopyObject sample_k8s AppBundleListR NilV sample_heap of
      None \<Rightarrow> False
    | Some (NilObject, h') \<Rightarrow> NilV = NilV \<and> denotes Int32T h' 0 (AtomV (Int32A 2)) (AtomN (Int32A 2))
    | Some (Object r' c, h') \<Rightarrow> NilV \<noteq> NilV \<and> r' = AppBundleListR \<and> c \<noteq> NilV \<and>
        denotes Int32T h' 0 (AtomV (Int32A 2)) (AtomN (Int32A 2)) \<and>
        denotes (PtrT (root_type sample_k8s r')) h' 0 c NilN"
  by (rule deep_copy_typed [OF sample_copiers.k8s_copiers_axioms])
    (simp_all add: denotes_Nil_iff)

end
