(* ===== verification/Startup.thy ===== *)
theory Startup
  imports Prelude
begin

section \<open>The operator process: scheme registration and start-up\<close>

text \<open>
  \<open>cmd/main.go\<close> (\<open>init\<close>, \<open>main\<close>), \<open>api/v1alpha1/groupversion_info.go\<close>, the \<open>init\<close>
  functions of the API types and the two \<open>SetupWithManager\<close> methods. A run of the process is
  the list of its visible events and the way it ends: \<open>main\<close> returns, \<open>os.Exit\<close> with a
  status, or a panic. The libraries it calls (the Kubernetes schemes, controller-runtime,
  sentry, the flags that other packages define) and the process environment are the record
  \<open>platform\<close>; the command line is parsed as the package \<open>flag\<close> of the standard library does.
\<close>

subsection \<open>The platform\<close>

text \<open>A scheme is the list of the kinds it knows, each with its group and version.\<close>

type_synonym scheme = "(string \<times> string \<times> string) list"

record platform =
  Getenv :: "string \<Rightarrow> string"
  other_flag :: "string \<Rightarrow> (bool \<times> (string \<Rightarrow> bool)) option"
  clientgo_AddToScheme :: "scheme \<Rightarrow> goerr + scheme"
  longhorn_AddToScheme :: "scheme \<Rightarrow> goerr + scheme"
  extsec_AddToScheme :: "scheme \<Rightarrow> goerr + scheme"
  AddKnownTypes :: "string \<times> string \<Rightarrow> string list \<Rightarrow> scheme \<Rightarrow> goerr + scheme"
  sentry_Init :: "string \<Rightarrow> goerr option"
  GetConfig_ok :: bool
  NewManager :: "scheme \<Rightarrow> string \<Rightarrow> string \<Rightarrow> bool \<Rightarrow> string \<Rightarrow> goerr option"
  Complete :: "scheme \<Rightarrow> string \<Rightarrow> goerr option"
  AddHealthzCheck :: "string \<Rightarrow> goerr option"
  AddReadyzCheck :: "string \<Rightarrow> goerr option"
  mgr_Start :: "goerr option"

text \<open>
  \<open>other_flag\<close> gives for a flag that a library defines whether it is boolean, and the values
  it accepts.
\<close>

datatype event =
    PyroscopeStart string string "(string \<times> string) list" "string list"
  | SentryInit string
  | SetLogger bool "(string \<times> string) list"
  | ManagerCreated string string bool
  | ControllerAdded string
  | CheckAdded string
  | ManagerStarted
  | LogInfo string
  | LogError string
  | SentryFlush

datatype ending = Returned | Exited nat | Panicked

type_synonym process = "event list \<times> ending"

subsection \<open>Scheme registration\<close>

definition GroupVersion :: "string \<times> string" where
  "GroupVersion = (''atro.xyz'', ''v1alpha1'')"

text \<open>The types that the \<open>init\<close> functions of the package hand to \<open>SchemeBuilder.Register\<close>.\<close>

definition register_AppBundle :: "string list \<Rightarrow> string list" where
  "register_AppBundle bld = bld @ [''AppBundle'', ''AppBundleList'']"

definition register_AppBundleBase :: "string list \<Rightarrow> string list" where
  "register_AppBundleBase bld = bld @ [''AppBundleBase'', ''AppBundleBaseList'']"

definition SchemeBuilder :: "string list" where
  "SchemeBuilder = register_AppBundleBase (register_AppBundle [])"

definition atro_AddToScheme :: "platform \<Rightarrow> scheme \<Rightarrow> goerr + scheme" where
  "atro_AddToScheme P s = AddKnownTypes P GroupVersion SchemeBuilder s"

text \<open>\<open>init\<close> of the main package: \<open>utilruntime.Must\<close> panics on an error.\<close>

definition init_scheme :: "platform \<Rightarrow> goerr + scheme" where
  "init_scheme P =
     rbind (clientgo_AddToScheme P []) (\<lambda>s.
     rbind (longhorn_AddToScheme P s) (\<lambda>s.
     rbind (atro_AddToScheme P s) (\<lambda>s.
     extsec_AddToScheme P s)))"

subsection \<open>The command line\<close>

record flags =
  metricsAddr :: string
  probeAddr :: string
  enableLeaderElection :: bool
  library_flags :: "(string \<times> string) list"

definition default_flags :: flags where
  "default_flags = \<lparr>metricsAddr = '':9080'', probeAddr = '':9081'', enableLeaderElection = False,
     library_flags = []\<rparr>"

text \<open>One argument: the end of the flags, a syntax error, or a flag with or without a value.\<close>

datatype argument = EndOfFlags | BadSyntax | Flag string "string option"

definition split_flag :: "string \<Rightarrow> argument" where
  "split_flag s =
     (if length s < 2 \<or> hd s \<noteq> CHR ''-'' then EndOfFlags
      else if s = ''--'' then EndOfFlags
      else let name = (if s ! 1 = CHR ''-'' then drop 2 s else drop 1 s) in
        if hd name = CHR ''-'' \<or> hd name = CHR ''='' then BadSyntax
        else (case dropWhile (\<lambda>c. c \<noteq> CHR ''='') (tl name) of
            [] \<Rightarrow> Flag name None
          | _ # v \<Rightarrow> Flag (hd name # takeWhile (\<lambda>c. c \<noteq> CHR ''='') (tl name)) (Some v)))"

definition ParseBool :: "string \<Rightarrow> bool option" where
  "ParseBool v =
     (if v \<in> set [''1'', ''t'', ''T'', ''true'', ''TRUE'', ''True''] then Some True
      else if v \<in> set [''0'', ''f'', ''F'', ''false'', ''FALSE'', ''False''] then Some False
      else None)"

definition flag_is_bool :: "platform \<Rightarrow> string \<Rightarrow> bool option" where
  "flag_is_bool P name =
     (if name = ''metrics-bind-address'' \<or> name = ''health-probe-bind-address'' then Some False
      else if name = ''leader-elect'' then Some True
      else map_option fst (other_flag P name))"

definition set_flag :: "platform \<Rightarrow> string \<Rightarrow> string \<Rightarrow> flags \<Rightarrow> flags option" where
  "set_flag P name v fl =
     (if name = ''metrics-bind-address'' then Some (fl\<lparr>metricsAddr := v\<rparr>)
      else if name = ''health-probe-bind-address'' then Some (fl\<lparr>probeAddr := v\<rparr>)
      else if name = ''leader-elect''
        then map_option (\<lambda>b. fl\<lparr>enableLeaderElection := b\<rparr>) (ParseBool v)
      else (case other_flag P name of
          Some (_, accepts) \<Rightarrow>
            if accepts v then Some (fl\<lparr>library_flags := library_flags fl @ [(name, v)]\<rparr>) else None
        | None \<Rightarrow> None))"

text \<open>\<open>flag.Parse()\<close>: the flags, or the status with which the process exits.\<close>

fun parse_flags :: "platform \<Rightarrow> string list \<Rightarrow> flags \<Rightarrow> nat + flags" where
  "parse_flags P [] fl = Inr fl"
| "parse_flags P (s # args) fl = (case split_flag s of
      EndOfFlags \<Rightarrow> Inr fl
    | BadSyntax \<Rightarrow> Inl 2
    | Flag name val \<Rightarrow> (case flag_is_bool P name of
        None \<Rightarrow> Inl (if name = ''help'' \<or> name = ''h'' then 0 else 2)
      | Some True \<Rightarrow> (case set_flag P name (case val of None \<Rightarrow> ''true'' | Some v \<Rightarrow> v) fl of
          None \<Rightarrow> Inl 2 | Some fl' \<Rightarrow> parse_flags P args fl')
      | Some False \<Rightarrow> (case val of
          Some v \<Rightarrow> (case set_flag P name v fl of
            None \<Rightarrow> Inl 2 | Some fl' \<Rightarrow> parse_flags P args fl')
        | None \<Rightarrow> (case args of
            [] \<Rightarrow> Inl 2
          | v # args' \<Rightarrow> (case set_flag P name v fl of
              None \<Rightarrow> Inl 2 | Some fl' \<Rightarrow> parse_flags P args' fl')))))"

subsection \<open>main\<close>

definition or_exit :: "goerr option \<Rightarrow> string \<Rightarrow> event list \<Rightarrow> (event list \<Rightarrow> process) \<Rightarrow> process" where
  "or_exit err msg tr k = (case err of None \<Rightarrow> k tr | Some e \<Rightarrow> (tr @ [LogError msg], Exited 1))"

text \<open>A deferred call runs when \<open>main\<close> returns or panics; \<open>os.Exit\<close> runs none.\<close>

definition deferring :: "event \<Rightarrow> process \<Rightarrow> process" where
  "deferring ev p = (case p of (tr, Exited n) \<Rightarrow> (tr, Exited n) | (tr, e) \<Rightarrow> (tr @ [ev], e))"

definition SetupWithManager_AppBundle :: "platform \<Rightarrow> scheme \<Rightarrow> goerr option" where
  "SetupWithManager_AppBundle P s = Complete P s ''AppBundle''"

definition SetupWithManager_AppBundleBase :: "platform \<Rightarrow> scheme \<Rightarrow> goerr option" where
  "SetupWithManager_AppBundleBase P s = Complete P s ''AppBundleBase''"

text \<open>From \<open>ctrl.NewManager\<close> to the end.\<close>

definition run_manager :: "platform \<Rightarrow> scheme \<Rightarrow> flags \<Rightarrow> event list \<Rightarrow> process" where
  "run_manager P s fl tr =
    (if \<not> GetConfig_ok P then (tr, Exited 1) else
     or_exit (NewManager P s (metricsAddr fl) (probeAddr fl) (enableLeaderElection fl)
         ''e74bf850.atro.xyz'') ''unable to start manager'' tr (\<lambda>tr.
     let tr = tr @ [ManagerCreated (metricsAddr fl) (probeAddr fl) (enableLeaderElection fl)] in
     or_exit (SetupWithManager_AppBundle P s) ''unable to create controller'' tr (\<lambda>tr.
     let tr = tr @ [ControllerAdded ''AppBundle''] in
     or_exit (SetupWithManager_AppBundleBase P s) ''unable to create controller'' tr (\<lambda>tr.
     let tr = tr @ [ControllerAdded ''AppBundleBase''] in
     or_exit (AddHealthzCheck P ''healthz'') ''unable to set up health check'' tr (\<lambda>tr.
     let tr = tr @ [CheckAdded ''healthz''] in
     or_exit (AddReadyzCheck P ''readyz'') ''unable to set up ready check'' tr (\<lambda>tr.
     let tr = tr @ [CheckAdded ''readyz'', LogInfo ''starting manager'', ManagerStarted] in
     or_exit (mgr_Start P) ''problem running manager'' tr (\<lambda>tr. (tr, Returned))))))))"

definition after_sentry :: "platform \<Rightarrow> scheme \<Rightarrow> string list \<Rightarrow> event list \<Rightarrow> process" where
  "after_sentry P s args tr =
    (let development = (if Getenv P ''ATROK_ENV'' = ''production'' then False else True) in
     case parse_flags P args default_flags of
       Inl status \<Rightarrow> (tr, Exited status)
     | Inr fl \<Rightarrow> run_manager P s fl (tr @ [SetLogger development (library_flags fl)]))"

definition pyroscope_start :: "platform \<Rightarrow> event" where
  "pyroscope_start P = PyroscopeStart ''atrok'' ''http://pyroscope.traces:4040''
     [(''pod'', Getenv P ''HOSTNAME''), (''app'', ''atrok'')]
     [''cpu'', ''alloc_objects'', ''alloc_space'', ''inuse_objects'', ''inuse_space'',
      ''goroutines'', ''mutex_count'', ''mutex_duration'', ''block_count'', ''block_duration'']"

definition main :: "platform \<Rightarrow> scheme \<Rightarrow> string list \<Rightarrow> process" where
  "main P s args =
    (let tr = (if Getenv P ''ATROK_PYROSCOPE_ENABLED'' = ''true''
         then [pyroscope_start P] else []) in
     if Getenv P ''ATROK_SENTRY_ENABLED'' = ''true'' then
       (case sentry_Init P (Getenv P ''ATROK_SENTRY_DSN'') of
          Some e \<Rightarrow> (tr @ [LogError ''sentry.Init''], Exited 1)
        | None \<Rightarrow> deferring SentryFlush
            (after_sentry P s args (tr @ [SentryInit (Getenv P ''ATROK_SENTRY_DSN'')])))
     else after_sentry P s args tr)"

definition process_run :: "platform \<Rightarrow> string list \<Rightarrow> process" where
  "process_run P args = (case init_scheme P of
     Inl e \<Rightarrow> ([], Panicked) | Inr s \<Rightarrow> main P s args)"

subsection \<open>How a run ends\<close>

fun is_setup :: "event \<Rightarrow> bool" where
  "is_setup (SetLogger d l) = True"
| "is_setup (ManagerCreated m p l) = True"
| "is_setup (ControllerAdded c) = True"
| "is_setup (CheckAdded c) = True"
| "is_setup ManagerStarted = True"
| "is_setup _ = False"

text \<open>No call between \<open>ctrl.NewManager\<close> and the end of \<open>main\<close> reports an error.\<close>

definition manager_ok :: "platform \<Rightarrow> scheme \<Rightarrow> flags \<Rightarrow> bool" where
  "manager_ok P s fl \<longleftrightarrow> GetConfig_ok P \<and>
     NewManager P s (metricsAddr fl) (probeAddr fl) (enableLeaderElection fl) ''e74bf850.atro.xyz'' = None \<and>
     SetupWithManager_AppBundle P s = None \<and> SetupWithManager_AppBundleBase P s = None \<and>
     AddHealthzCheck P ''healthz'' = None \<and> AddReadyzCheck P ''readyz'' = None \<and>
     mgr_Start P = None"

definition manager_events :: "flags \<Rightarrow> event list" where
  "manager_events fl =
     [ManagerCreated (metricsAddr fl) (probeAddr fl) (enableLeaderElection fl),
      ControllerAdded ''AppBundle'', ControllerAdded ''AppBundleBase'',
      CheckAdded ''healthz'', CheckAdded ''readyz'', ManagerStarted]"

lemma or_exit_simps [simp]:
  "or_exit None msg tr k = k tr"
  "or_exit (Some e) msg tr k = (tr @ [LogError msg], Exited 1)"
  by (simp_all add: or_exit_def)

lemma deferring_simps [simp]:
  "deferring ev (tr, Exited n) = (tr, Exited n)"
  "deferring ev (tr, Returned) = (tr @ [ev], Returned)"
  "deferring ev (tr, Panicked) = (tr @ [ev], Panicked)"
  by (simp_all add: deferring_def)

lemma snd_deferring [simp]: "snd (deferring ev p) = snd p"
  by (cases p; cases "snd p") auto

lemma or_exit_cases:
  assumes "or_exit err msg tr k = (tr', e)"
  obtains x where "err = Some x" and "tr' = tr @ [LogError msg]" and "e = Exited 1"
  | "err = None" and "k tr = (tr', e)"
  using assms by (cases err) auto

text \<open>The manager is started last, and the run returns when no call has failed.\<close>

lemma run_manager_cases:
  assumes "run_manager P s fl tr = (tr', e)"
  obtains "e = Exited 1" and "\<not> manager_ok P s fl" and "ManagerStarted \<notin> set tr' - set tr"
    and "SentryFlush \<notin> set tr' - set tr"
  | "filter is_setup tr' = filter is_setup tr @ manager_events fl"
    and "e = (if mgr_Start P = None then Returned else Exited 1)"
    and "manager_ok P s fl \<longleftrightarrow> mgr_Start P = None" and "SentryFlush \<notin> set tr' - set tr"
  using assms unfolding run_manager_def Let_def
  by (cases "GetConfig_ok P")
    (auto simp: manager_ok_def manager_events_def elim!: or_exit_cases)

definition quiet_trace :: "event list \<Rightarrow> bool" where
  "quiet_trace tr \<longleftrightarrow> (\<forall>x\<in>set tr. \<not> is_setup x \<and> x \<noteq> SentryFlush)"

lemma quiet_trace_filter: "quiet_trace tr \<Longrightarrow> filter is_setup tr = []"
  by (simp add: quiet_trace_def filter_empty_conv)

lemma quiet_traceD:
  assumes "quiet_trace tr"
  shows "ManagerStarted \<notin> set tr" and "SentryFlush \<notin> set tr"
  using assms unfolding quiet_trace_def by (metis is_setup.simps(5)) (metis assms quiet_trace_def)

lemma after_sentry_cases:
  assumes "after_sentry P s args tr = (tr', e)" and "quiet_trace tr"
  obtains (flags) n where "parse_flags P args default_flags = Inl n" and "tr' = tr" and "e = Exited n"
  | (failed) fl where "parse_flags P args default_flags = Inr fl" and "\<not> manager_ok P s fl"
    and "e = Exited 1" and "ManagerStarted \<notin> set tr'" and "SentryFlush \<notin> set tr'"
  | (started) fl where "parse_flags P args default_flags = Inr fl"
    and "filter is_setup tr' =
      SetLogger (Getenv P ''ATROK_ENV'' \<noteq> ''production'') (library_flags fl) # manager_events fl"
    and "e = (if mgr_Start P = None then Returned else Exited 1)"
    and "manager_ok P s fl \<longleftrightarrow> mgr_Start P = None" and "SentryFlush \<notin> set tr'"
proof (cases "parse_flags P args default_flags")
  case (Inl n)
  with assms flags show thesis by (simp add: after_sentry_def)
next
  case (Inr fl)
  let ?tr = "tr @ [SetLogger (Getenv P ''ATROK_ENV'' \<noteq> ''production'') (library_flags fl)]"
  have r: "run_manager P s fl ?tr = (tr', e)"
    using assms(1) Inr
    by (cases "Getenv P ''ATROK_ENV'' = ''production''") (simp_all add: after_sentry_def)
  have q: "ManagerStarted \<notin> set ?tr" "SentryFlush \<notin> set ?tr"
    using assms(2) by (auto simp: quiet_trace_def)
  from r show thesis
  proof (cases rule: run_manager_cases)
    case 1
    with failed [OF Inr] q show thesis by blast
  next
    case 2
    with started [OF Inr] q quiet_trace_filter [OF assms(2)] show thesis by simp
  qed
qed

lemma main_cases:
  obtains tr where "main P s args = (tr @ [LogError ''sentry.Init''], Exited 1)" and "quiet_trace tr"
    and "Getenv P ''ATROK_SENTRY_ENABLED'' = ''true''"
    and "sentry_Init P (Getenv P ''ATROK_SENTRY_DSN'') \<noteq> None"
  | tr where "main P s args = deferring SentryFlush (after_sentry P s args tr)" and "quiet_trace tr"
    and "Getenv P ''ATROK_SENTRY_ENABLED'' = ''true''"
    and "sentry_Init P (Getenv P ''ATROK_SENTRY_DSN'') = None"
  | tr where "main P s args = after_sentry P s args tr" and "quiet_trace tr"
    and "Getenv P ''ATROK_SENTRY_ENABLED'' \<noteq> ''true''"
proof -
  let ?pyro = "if Getenv P ''ATROK_PYROSCOPE_ENABLED'' = ''true''
     then [pyroscope_start P] else []"
  have q: "quiet_trace ?pyro" "quiet_trace (?pyro @ [SentryInit (Getenv P ''ATROK_SENTRY_DSN'')])"
    by (auto simp: quiet_trace_def pyroscope_start_def)
  show thesis
  proof (cases "Getenv P ''ATROK_SENTRY_ENABLED'' = ''true''")
    case True
    then show thesis
      using that(1) [of ?pyro] that(2) [of "?pyro @ [SentryInit (Getenv P ''ATROK_SENTRY_DSN'')]"] q
      by (cases "sentry_Init P (Getenv P ''ATROK_SENTRY_DSN'')") (auto simp: main_def Let_def)
  next
    case False
    then show thesis using that(3) [of ?pyro] q(1) by (simp add: main_def Let_def)
  qed
qed

text \<open>C37. The manager is started last and only on a complete set-up: in every environment, for
  every command line and whatever the libraries answer, a run of the process that reaches \<open>mgr.Start\<close> has
  registered the types, set the logger, created the manager with the addresses and the
  leader election of the command line, added both controllers and both checks, each once and in this order.
\<close>

theorem manager_started_last:
  assumes "ManagerStarted \<in> set (fst (process_run P args))"
  shows "\<exists>s fl. init_scheme P = Inr s \<and> parse_flags P args default_flags = Inr fl \<and>
    filter is_setup (fst (process_run P args)) =
      [SetLogger (Getenv P ''ATROK_ENV'' \<noteq> ''production'') (library_flags fl),
       ManagerCreated (metricsAddr fl) (probeAddr fl) (enableLeaderElection fl),
       ControllerAdded ''AppBundle'', ControllerAdded ''AppBundleBase'',
       CheckAdded ''healthz'', CheckAdded ''readyz'', ManagerStarted]"
proof -
  obtain s where s: "init_scheme P = Inr s" "process_run P args = main P s args"
    using assms by (auto simp: process_run_def split: sum.splits)
  have main: "\<exists>fl. parse_flags P args default_flags = Inr fl \<and> filter is_setup tr' =
      SetLogger (Getenv P ''ATROK_ENV'' \<noteq> ''production'') (library_flags fl) # manager_events fl"
    if "after_sentry P s args tr = (tr', e)" "quiet_trace tr" "ManagerStarted \<in> set tr'" for tr tr' e
    using that(1,2) quiet_traceD [OF that(2)] that(3-) by (cases rule: after_sentry_cases) auto
  show ?thesis
  proof (cases rule: main_cases [of P s args])
    case (1 tr)
    with assms s show ?thesis by (auto simp: quiet_trace_def)
  next
    case (2 tr)
    obtain tr' e where a: "after_sentry P s args tr = (tr', e)" by fastforce
    have "fst (process_run P args) = tr' @ (case e of Exited n \<Rightarrow> [] | _ \<Rightarrow> [SentryFlush])"
      using s 2(1) a by (cases e) simp_all
    moreover from this assms have "ManagerStarted \<in> set tr'" by (cases e) auto
    ultimately show ?thesis
      using main [OF a 2(2)] s(1) by (cases e) (auto simp: manager_events_def)
  next
    case (3 tr)
    obtain tr' e where a: "after_sentry P s args tr = (tr', e)" by fastforce
    with main [OF a 3(2)] s 3(1) assms show ?thesis by (auto simp: manager_events_def)
  qed
qed

text \<open>C39. Buffered sentry events are flushed only when \<open>main\<close> returns: sentry has been enabled and
  initialised, and no call has failed. On every failed start, and when the manager stops with an error,
  \<open>os.Exit\<close> ends the process without the deferred flush, although the code announces it
  \<open>before the program terminates\<close>.
\<close>

theorem sentry_flushed_iff:
  "SentryFlush \<in> set (fst (process_run P args)) \<longleftrightarrow>
    Getenv P ''ATROK_SENTRY_ENABLED'' = ''true'' \<and> snd (process_run P args) = Returned"
proof (cases "init_scheme P")
  case (Inl e)
  then show ?thesis by (simp add: process_run_def)
next
  case (Inr s)
  then have r: "process_run P args = main P s args" by (simp add: process_run_def)
  have main: "SentryFlush \<notin> set tr' \<and> e \<noteq> Panicked"
    if "after_sentry P s args tr = (tr', e)" "quiet_trace tr" for tr tr' e
    using that quiet_traceD [OF that(2)] by (cases rule: after_sentry_cases) auto
  show ?thesis
  proof (cases rule: main_cases [of P s args])
    case (1 tr)
    then show ?thesis by (auto simp: r quiet_trace_def)
  next
    case (2 tr)
    obtain tr' e where a: "after_sentry P s args tr = (tr', e)" by fastforce
    with main [OF a 2(2)] 2 show ?thesis by (cases e) (auto simp: r)
  next
    case (3 tr)
    obtain tr' e where a: "after_sentry P s args tr = (tr', e)" by fastforce
    with main [OF a 3(2)] 3 show ?thesis by (simp add: r)
  qed
qed

text \<open>A platform on which everything works, and its run without arguments.\<close>

definition sample_platform :: "goerr option \<Rightarrow> platform" where
  "sample_platform start = \<lparr>
     Getenv = (\<lambda>x. if x = ''ATROK_SENTRY_ENABLED'' then ''true'' else []),
     other_flag = (\<lambda>_. None),
     clientgo_AddToScheme = (\<lambda>s. Inr (s @ [([], ''v1'', ''Service'')])),
     longhorn_AddToScheme = Inr, extsec_AddToScheme = Inr,
     AddKnownTypes = (\<lambda>(g, v) ks s. Inr (s @ map (\<lambda>k. (g, v, k)) ks)),
     sentry_Init = (\<lambda>_. None), GetConfig_ok = True, NewManager = (\<lambda>_ _ _ _ _. None),
     Complete = (\<lambda>s k. if (fst GroupVersion, snd GroupVersion, k) \<in> set s then None
       else Some (ErrorString ''no kind is registered for the type'')),
     AddHealthzCheck = (\<lambda>_. None), AddReadyzCheck = (\<lambda>_. None), mgr_Start = start\<rparr>"

lemmas startup_defs =
  process_run_def main_def after_sentry_def run_manager_def init_scheme_def atro_AddToScheme_def
  SchemeBuilder_def register_AppBundle_def register_AppBundleBase_def GroupVersion_def
  SetupWithManager_AppBundle_def SetupWithManager_AppBundleBase_def default_flags_def

lemma sample_run:
  "process_run (sample_platform None) [''-leader-elect'', ''--metrics-bind-address=:8080''] =
    ([SentryInit [], SetLogger True [], ManagerCreated '':8080'' '':9081'' True,
      ControllerAdded ''AppBundle'', ControllerAdded ''AppBundleBase'', CheckAdded ''healthz'',
      CheckAdded ''readyz'', LogInfo ''starting manager'', ManagerStarted, SentryFlush], Returned)"
  by (simp add: startup_defs sample_platform_def split_flag_def flag_is_bool_def set_flag_def
      ParseBool_def Let_def)

theorem manager_started_last_witness:
  "\<exists>s fl. init_scheme (sample_platform None) = Inr s \<and>
    parse_flags (sample_platform None) [''-leader-elect'', ''--metrics-bind-address=:8080'']
      default_flags = Inr fl \<and>
    filter is_setup (fst (process_run (sample_platform None)
        [''-leader-elect'', ''--metrics-bind-address=:8080''])) =
      [SetLogger (Getenv (sample_platform None) ''ATROK_ENV'' \<noteq> ''production'') (library_flags fl),
       ManagerCreated (metricsAddr fl) (probeAddr fl) (enableLeaderElection fl),
       ControllerAdded ''AppBundle'', ControllerAdded ''AppBundleBase'',
       CheckAdded ''healthz'', CheckAdded ''readyz'', ManagerStarted]"
  by (rule manager_started_last) (simp add: sample_run)

subsection \<open>A start on a platform that works\<close>

text \<open>
  The documented behaviour of the scheme libraries: adding types keeps the types that are
  there, \<open>AddKnownTypes\<close> adds the given kinds, and the builder of a controller accepts a kind
  that the manager's scheme knows.
\<close>

definition adds_types :: "(scheme \<Rightarrow> goerr + scheme) \<Rightarrow> bool" where
  "adds_types add \<longleftrightarrow> (\<forall>s. \<exists>s'. add s = Inr s' \<and> set s \<subseteq> set s')"

definition scheme_libraries :: "platform \<Rightarrow> bool" where
  "scheme_libraries P \<longleftrightarrow>
     adds_types (clientgo_AddToScheme P) \<and> adds_types (longhorn_AddToScheme P) \<and>
     adds_types (extsec_AddToScheme P) \<and>
     (\<forall>g v ks s. \<exists>s'. AddKnownTypes P (g, v) ks s = Inr s' \<and> set s \<subseteq> set s' \<and>
        (\<forall>k\<in>set ks. (g, v, k) \<in> set s')) \<and>
     (\<forall>s k. (''atro.xyz'', ''v1alpha1'', k) \<in> set s \<longrightarrow> Complete P s k = None)"

lemma adds_typesE:
  assumes "adds_types add"
  obtains s' where "add s = Inr s'" and "set s \<subseteq> set s'"
  using assms unfolding adds_types_def by blast

lemma init_scheme_registers:
  assumes "scheme_libraries P"
  obtains s where "init_scheme P = Inr s"
    and "\<And>k. k \<in> {''AppBundle'', ''AppBundleList'', ''AppBundleBase'', ''AppBundleBaseList''} \<Longrightarrow>
      (''atro.xyz'', ''v1alpha1'', k) \<in> set s"
proof -
  from assms have adds: "adds_types (clientgo_AddToScheme P)" "adds_types (longhorn_AddToScheme P)"
      "adds_types (extsec_AddToScheme P)"
    and known: "\<And>g v ks s. \<exists>s'. AddKnownTypes P (g, v) ks s = Inr s' \<and> set s \<subseteq> set s' \<and>
        (\<forall>k\<in>set ks. (g, v, k) \<in> set s')"
    by (simp_all add: scheme_libraries_def)
  obtain s1 where s1: "clientgo_AddToScheme P [] = Inr s1" using adds(1) by (rule adds_typesE)
  obtain s2 where s2: "longhorn_AddToScheme P s1 = Inr s2" using adds(2) by (rule adds_typesE)
  obtain s3 where s3: "atro_AddToScheme P s2 = Inr s3"
    "\<forall>k\<in>set SchemeBuilder. (''atro.xyz'', ''v1alpha1'', k) \<in> set s3"
    using known [of "''atro.xyz''" "''v1alpha1''" SchemeBuilder s2]
    by (auto simp: atro_AddToScheme_def GroupVersion_def)
  obtain s4 where s4: "extsec_AddToScheme P s3 = Inr s4" "set s3 \<subseteq> set s4"
    using adds(3) by (rule adds_typesE)
  show thesis
  proof
    show "init_scheme P = Inr s4" by (simp add: init_scheme_def s1 s2 s3(1) s4(1))
    show "(''atro.xyz'', ''v1alpha1'', k) \<in> set s4"
      if "k \<in> {''AppBundle'', ''AppBundleList'', ''AppBundleBase'', ''AppBundleBaseList''}" for k
      using that s3(2) s4(2)
      by (auto simp: SchemeBuilder_def register_AppBundle_def register_AppBundleBase_def)
  qed
qed

text \<open>C38. The operator starts: when the scheme libraries do what they document, the command line
  parses, and neither sentry, nor the manager, nor the checks fail, the types that the
  operator registers are all that its two controllers need, so the manager is started, and when it stops
  without an error the process returns from \<open>main\<close>.
\<close>

theorem operator_starts:
  assumes "scheme_libraries P" and "parse_flags P args default_flags = Inr fl"
    and "\<And>dsn. sentry_Init P dsn = None" and "GetConfig_ok P"
    and "\<And>s m p l i. NewManager P s m p l i = None"
    and "\<And>c. AddHealthzCheck P c = None" and "\<And>c. AddReadyzCheck P c = None"
    and "mgr_Start P = None"
  shows "ManagerStarted \<in> set (fst (process_run P args)) \<and> snd (process_run P args) = Returned"
proof -
  obtain s where s: "init_scheme P = Inr s"
    and k: "\<And>k. k \<in> {''AppBundle'', ''AppBundleList'', ''AppBundleBase'', ''AppBundleBaseList''} \<Longrightarrow>
      (''atro.xyz'', ''v1alpha1'', k) \<in> set s"
    using init_scheme_registers [OF assms(1)] by blast
  have "Complete P s ''AppBundle'' = None" "Complete P s ''AppBundleBase'' = None"
    using assms(1) k by (simp_all add: scheme_libraries_def)
  then show ?thesis
    using assms(2-) s
    by (simp add: process_run_def main_def after_sentry_def run_manager_def Let_def
        SetupWithManager_AppBundle_def SetupWithManager_AppBundleBase_def)
qed

theorem operator_starts_witness:
  "ManagerStarted \<in> set (fst (process_run (sample_platform None) [''-leader-elect''])) \<and>
    snd (process_run (sample_platform None) [''-leader-elect'']) = Returned"
proof (rule operator_starts)
  show "scheme_libraries (sample_platform None)"
    by (auto simp: scheme_libraries_def adds_types_def sample_platform_def GroupVersion_def)
  show "parse_flags (sample_platform None) [''-leader-elect''] default_flags =
      Inr (default_flags\<lparr>enableLeaderElection := True\<rparr>)"
    by (simp add: split_flag_def flag_is_bool_def set_flag_def ParseBool_def Let_def)
qed (simp_all add: sample_platform_def)

end
