(* ===== verification/Spec2Isabelle.thy ===== *)
theory Spec2Isabelle
  imports ServiceReconcile IngressReconcile DeploymentReconcile BaseChain CacheRefinement Reconciled
    DeepCopyObjects Startup
begin

text \<open>
  A verification development of the AtroK operator: a Kubernetes operator in Go whose custom resource, the
  \<^verbatim>\<open>AppBundle\<close>, stands for an application, and which keeps a deployment, a service, ingresses, a config map, an external secret, volume
  claims and a backup job in line with it. An \<^verbatim>\<open>AppBundleBase\<close> holds defaults that bundles inherit.

  \<^bold>\<open>The program and its parts.\<close> controller-runtime calls \<open>Reconcile\<close> of \<open>internal/controller/controller.go\<close> for a bundle: it
  takes the mutex of the bundle (\<open>framework.go\<close>), consults an in-memory cache (\<open>state.go\<close>), merges the chain of
  bases into the bundle (\<open>base_controller.go\<close>, \<open>MergeDictValues\<close>, \<open>ToAppBundle\<close>), and runs six reconcile functions concurrently
  (\<open>RunReconciles\<close> of \<open>helpers.go\<close>): \<open>volumes.go\<close> with \<open>longhorn_backups_plugin.go\<close>, \<open>service.go\<close> with \<open>get_homepage_plugin.go\<close>,
  \<open>deployment.go\<close>, \<open>ingress.go\<close>, \<open>config_map.go\<close> and \<open>secrets.go\<close>. Each builds the object it expects (\<open>CreateExpected...\<close>), gets
  the current one, compares, and writes through \<open>UpsertResource\<close>. \<open>Reconcile\<close> of \<open>base_controller.go\<close> does the same for a base: it resets the cached hash of
  every bundle that names the base and sends it a status update. \<open>cmd/main.go\<close> starts all this: it registers the types (\<open>groupversion_info.go\<close>), parses
  the flags and runs the manager. The objects that the client hands out are deep copies of its cache, made by \<open>zz_generated.deepcopy.go\<close>.

  \<^bold>\<open>The model.\<close> A function on values is a HOL function of the same name. A function that talks to the cluster is a tree of
  effects, with a branch for every answer.
  \<^item> \<open>Prelude\<close>: errors and panics as values (\<open>goerr\<close>), Go maps as lists of entries in the order of \<open>range\<close>, sorted keys, range
    loops and the locale \<open>commuting_range\<close> of loops whose order does not matter.
  \<^item> \<open>KubeTypes\<close>, \<open>ApiTypes\<close>: the structs, field by field; pointers and nilable maps are options, \<open>int\<close> and \<open>int32\<close>
    are words. The interface \<open>AppId\<close> is the locale \<open>app_id\<close>.
  \<^item> \<open>Program\<close>: effect trees, their execution against a client (\<open>run\<close>, \<open>writes\<close>) and their safety under interference (\<open>sat\<close>).
  \<^item> \<open>Helpers\<close>, \<open>Labels\<close>, \<open>Upsert\<close>: \<open>helpers.go\<close>; the locale \<open>kube_kind\<close> is the contract of a kind of object, interpreted for all eleven.
  \<^item> \<open>StateCache\<close>: \<open>state.go\<close>, as functions on the cache and as a state machine with its invariant.
  \<^item> \<open>Framework\<close>: the constants and the table of mutexes of \<open>framework.go\<close>.
  \<^item> \<open>Memory\<close>: the bundle shared by the goroutines of a reconciliation, what they may change of it (\<open>frame\<close>), and the
    contract of a reconcile function (locale \<open>reconciler\<close>), interpreted for the six functions and for their concurrent composition.
  \<^item> \<open>Homepage\<close>, \<open>ServiceReconcile\<close>, \<open>IngressReconcile\<close>, \<open>ConfigMapReconcile\<close>, \<open>SecretsReconcile\<close>, \<open>VolumesReconcile\<close>, \<open>GoSlices\<close>,
    \<open>DeploymentBuild\<close>, \<open>DeploymentFacts\<close>, \<open>DeploymentReconcile\<close>: the reconcile functions. \<open>GoSlices\<close> has slices with their backing arrays, because two
    slices of the deployment share one.
  \<^item> \<open>BaseResolution\<close>, \<open>BaseChain\<close>: merging a base into a bundle (locale \<open>map_element\<close>, interpreted for the five kinds of
    maps), and following the chain of bases.
  \<^item> \<open>Concurrency\<close>: goroutines and schedules. \<open>ControllerState\<close>, \<open>BundleController\<close>, \<open>BaseController\<close>: the two controllers.
  \<^item> \<open>Locking\<close>, \<open>LockOrder\<close>: concurrent reconciliations with blocking mutexes. \<open>CacheRefinement\<close>: the controllers as steps of the cache.
  \<^item> \<open>Cluster\<close>: the contents of a cluster, and what the Kubernetes API documents of reads and writes (locale \<open>kube_server\<close>), interpreted
    for a server in memory. \<open>Quiet\<close>, \<open>SteadyState\<close>: programs that only read (\<open>quiet\<close>), what it means that a cluster holds what a bundle stands
    for (\<open>in_sync\<close>, in terms of its contents), and the six functions together on such a cluster.
  \<^item> \<open>Ensures\<close>: what a program brings about while other goroutines write other kinds of objects and any call may fail, with rules for sequencing, loops and
    goroutines. \<open>Convergence\<close>, \<open>VolumesConvergence\<close>, \<open>Reconciled\<close>: by these rules, each of the six functions, and the group, brings about \<open>in_sync\<close> when it reports success.
  \<^item> \<open>GoHeap\<close>: a heap of variables, maps and arrays, and the values that a reference denotes by its type. \<open>CopyRules\<close>: the idioms of the generated copiers
    and their contract (locale \<open>deep_copier\<close>). \<open>DeepCopy\<close>, \<open>DeepCopyObjects\<close>: the copiers of the API, statement by statement, each an
    interpretation of the contract; the copiers of Kubernetes structs are the locale \<open>k8s_copiers\<close>, interpreted for a concrete choice.
  \<^item> \<open>Startup\<close>: \<open>cmd/main.go\<close>, \<open>groupversion_info.go\<close>, the \<open>init\<close> functions and the \<open>SetupWithManager\<close> methods, as the events of a run and its end.
  \<^item> \<open>Samples\<close>: concrete clients and bundles for the witnesses.

  \<^bold>\<open>What is shown.\<close> For each reconcile function: what it expects to find in the cluster, on every branch and independent of the
  order of maps; which writes it may send, whatever the server answers; what it does when the object is missing, wrong, right, or cannot be read; for
  the pod, that every mount names a volume and that everything it refers to is provided by the same bundle. For the base: what the merged bundle holds, that the chain of bases is
  the fold of the merge, and that a cycle is followed for ever. For the controllers: that every write is confined to the bundle under every schedule, that the
  base controller treats exactly the users of the base, that the operator neither deadlocks nor loses a mutex,
  that a reconciliation that reports success has brought the cluster in sync, and that a cluster in sync is left alone. For the deep copies: that they are copies, independent of their originals and of the right type. For the process: in
  which order it is set up, that the registered types are those the controllers need, and what it does not flush when it fails. Some theorems describe behaviour that the code
  surely does not intend; their text says so.

  \<^bold>\<open>Parameters.\<close> Third-party code is a parameter: the client (\<open>api\<close>, with a state of its own, so other actors may act at every call) and the functions in \<open>ext\<close> (semantic comparison and diff of
  structs, hashes, quantities, the struct copier and the struct merger). A theorem that relies on one of them names what it relies on, and its witness instantiates it. Also parameters: the
  growth of slices (\<open>grow\<close>), the schedule of the goroutines, and the depth to which a chain of bases is followed (\<open>n\<close>, the only fuel; a chain of
  \<open>k\<close> bases needs \<open>k\<close>, by \<open>base_chain_resolved\<close>; \<open>None\<close> is a run that needs more). The error group (\<open>golang.org/x/sync\<close>) is
  modelled by its documented behaviour: all functions run, the first error is returned.

  \<^bold>\<open>Simplifications.\<close> A read or write of the shared bundle is atomic (the Go code has data races on its annotation map and service type that this does not
  show beyond their order). The mutexes of the cache and of the mutex table, held only for one access, are not separate locks. The clock is read once before the cache entry is compared. A panic is an
  error that unwinds to the caller; that it ends the process is not modelled. Kubernetes fields that the operator carries along are an opaque payload.

  In the heap of the deep copies a map is read in its own order, and \<open>range\<close> over it is that order; \<open>new\<close> and \<open>make\<close> take the next free address. In the start-up the texts of log
  messages stand for their arguments, and a signal that stops the manager is its return from \<open>Start\<close>.

  \<^bold>\<open>Not modelled.\<close> The tests, the manifests and the build files; what the libraries do behind the calls (controller-runtime's queues and watches, the scheme's
  conversions, sentry and pyroscope): they are parameters.
\<close>

end
